theory Spec2Isabelle
  imports Main
begin

section \<open>Errors\<close>

text \<open>
  The Go code aborts by panicking: an explicit \<^verbatim>\<open>panic("todo")\<close>, \<^verbatim>\<open>check(err)\<close>, the call of
  a nil function value, a method call on a nil interface, a failed type assertion or an
  index out of range. Every such abort is a value \<open>Inl e\<close> of the result type.
\<close>

datatype error =
    Panic string
  | NilFuncCall
  | NilDeref
  | TypeAssertion
  | IndexOutOfRange
  | CheckFailed string

section \<open>The build driver\<close>

datatype Mode = ModeBuild | ModeInstall | ModeRun

definition needLLFile :: "Mode \<Rightarrow> bool" where
  "needLLFile mode = (mode \<noteq> ModeBuild)"

text \<open>
  The fields of \<^verbatim>\<open>packages.Package\<close> that the driver reads. The SSA form and the syntax
  trees of a package are only handed on to the compiler \<^verbatim>\<open>cl.NewPackage\<close>.
\<close>

record packages_Package =
  PkgPath :: string
  Name :: string
  ExportFile :: string

record Config =
  BinPath :: string
  AppExt :: string
  OutFile :: string
  RunArgs :: "string list"
  Mode :: Mode

text \<open>
  The files written by \<^verbatim>\<open>os.WriteFile\<close>, oldest first, as pairs of path and content. The
  source discards the result of \<^verbatim>\<open>os.WriteFile\<close>, so a write has no error branch.
\<close>

type_synonym files = "(string \<times> string) list"

text \<open>
  \<^verbatim>\<open>buildPkg\<close>. The compiler \<^verbatim>\<open>cl.NewPackage\<close> is a parameter \<open>compile\<close>: it yields the text
  of the module (\<^verbatim>\<open>ret.String()\<close>) or an error, on which \<^verbatim>\<open>check\<close> panics. The \<^verbatim>\<open>verbose\<close>
  flag only prints to the standard error stream and is left out.
\<close>

definition buildPkg ::
  "(packages_Package \<Rightarrow> string + string) \<Rightarrow> packages_Package \<Rightarrow> Mode \<Rightarrow> files \<Rightarrow> error + files"
where
  "buildPkg compile pkg mode fs =
     (if PkgPath pkg = ''unsafe'' then Inr fs
      else case compile pkg of
             Inl err \<Rightarrow> Inl (CheckFailed err)
           | Inr ret \<Rightarrow>
               if needLLFile mode then Inr (fs @ [(ExportFile pkg @ ''.ll'', ret)])
               else Inr fs)"

text \<open>The loop \<^verbatim>\<open>for _, pkg := range pkgs { buildPkg(prog, pkg, mode, verbose) }\<close>.\<close>

fun buildPkgs ::
  "(packages_Package \<Rightarrow> string + string) \<Rightarrow> packages_Package list \<Rightarrow> Mode \<Rightarrow> files \<Rightarrow> error + files"
where
  "buildPkgs compile [] mode fs = Inr fs"
| "buildPkgs compile (pkg # pkgs) mode fs =
     (case buildPkg compile pkg mode fs of
        Inl e \<Rightarrow> Inl e
      | Inr fs' \<Rightarrow> buildPkgs compile pkgs mode fs')"

text \<open>
  \<^verbatim>\<open>Do\<close>, from the patterns that \<^verbatim>\<open>ParseArgs\<close> returns. The loader \<^verbatim>\<open>packages.Load\<close> and the
  traversal \<^verbatim>\<open>allPkgs\<close> of the import graph are parameters (\<open>load\<close>, \<open>visit\<close>). The result
  is the effective mode, the files written and the main packages handed to
  \<^verbatim>\<open>linkMainPkg\<close>, whose work (the linker, the execution of the binary) is external.
\<close>

definition Do ::
  "(string list \<Rightarrow> string + packages_Package list) \<Rightarrow>
   (packages_Package list \<Rightarrow> packages_Package list) \<Rightarrow>
   (packages_Package \<Rightarrow> string + string) \<Rightarrow>
   string list \<Rightarrow> Config \<Rightarrow> error + (Mode \<times> files \<times> packages_Package list)"
where
  "Do load visit compile patterns conf =
     (case load (if patterns = [] then [''.''] else patterns) of
        Inl err \<Rightarrow> Inl (CheckFailed err)
      | Inr initial \<Rightarrow>
          let pkgs = visit initial;
              mode = (if Mode conf = ModeBuild \<and> length initial = 1 then ModeInstall
                      else Mode conf)
          in case buildPkgs compile pkgs mode [] of
               Inl e \<Rightarrow> Inl e
             | Inr fs \<Rightarrow>
                 Inr (mode, fs,
                      if mode \<noteq> ModeBuild then filter (\<lambda>pkg. Name pkg = ''main'') initial
                      else []))"

section \<open>Source types and lowered types\<close>

text \<open>
  The source types (\<^verbatim>\<open>types.Type\<close> of \<^verbatim>\<open>go/types\<close>) that \<^verbatim>\<open>ssa/package.go\<close> builds or takes
  apart: basic types \<^verbatim>\<open>types.Typ[k]\<close>, pointers, named types (package path and name),
  signatures, structs and result tuples. A variable (\<^verbatim>\<open>*types.Var\<close>, made by
  \<^verbatim>\<open>types.NewParam\<close>) is a name with a type. Equality of \<open>gotype\<close> is structural, as the
  key comparison of \<^verbatim>\<open>typeutil.Map\<close> (\<^verbatim>\<open>types.Identical\<close>) is. The kind \<^verbatim>\<open>types.Int\<close> is
  written \<open>Int_t\<close>. The string, interface, slice and
  map types, whose lowering goes through the runtime-support package, are outside this
  model.
\<close>

datatype basic = Invalid | Bool | Int_t | Int8 | Uintptr | Float64 | UnsafePointer

datatype gotype =
    Typ basic
  | Pointer gotype
  | Named string string
  | Signature "(string \<times> gotype) list" "(string \<times> gotype) list"
  | Struct "(string \<times> gotype) list"
  | Tuple "(string \<times> gotype) list"

type_synonym var = "string \<times> gotype"

text \<open>A \<^verbatim>\<open>*types.Signature\<close>: the parameters and the results.\<close>

type_synonym signature = "var list \<times> var list"

datatype lltype =
    LVoid
  | LBasic basic
  | LPointer lltype
  | LNamed string string
  | LFunc "lltype list" "lltype list"
  | LStruct "lltype list"

text \<open>
  \<^verbatim>\<open>Type = *aType\<close> is a pointer, and the code compares Types by identity. The field
  \<open>ident\<close> is the address of the object: every allocation of an \<^verbatim>\<open>aType\<close> takes the next
  number of the Program's counter \<open>allocated\<close>, so two Types are identity-equal exactly
  when they are equal as records.
\<close>

record aType =
  ident :: nat
  ll :: lltype
  raw :: gotype

text \<open>
  \<^verbatim>\<open>*types.Package\<close>: the path and the package scope, which maps a declared name to the type
  of its object (\<^verbatim>\<open>Scope().Lookup(name).Type()\<close>). A handle is \<open>None\<close> for the nil pointer.
\<close>

record types_Package =
  Path :: string
  Scope :: "(string \<times> gotype) list"

type_synonym supplier = "unit \<Rightarrow> types_Package option"

section \<open>Program\<close>

text \<open>
  The fields of \<^verbatim>\<open>aProgram\<close> that the embedded functions use; a nil pointer or nil function
  value is \<open>None\<close>. Three fields are not in the source: \<open>allocated\<close> counts the \<^verbatim>\<open>aType\<close>
  objects allocated so far, and \<open>rtgetCalls\<close> and \<open>pygetCalls\<close> count the invocations of
  the two suppliers \<^verbatim>\<open>rtget\<close> and \<^verbatim>\<open>pyget\<close>.
\<close>

record aProgram =
  typs :: "gotype \<rightharpoonup> aType"
  allocated :: nat
  rt :: "types_Package option"
  rtget :: "supplier option"
  py :: "types_Package option"
  pyget :: "supplier option"
  voidTy :: "aType option"
  voidPtr :: "aType option"
  boolTy :: "aType option"
  cstrTy :: "aType option"
  pyObjPtr :: "aType option"
  pyImpTy :: "signature option"
  callNoArg :: "signature option"
  callOneArg :: "signature option"
  needRuntime :: bool
  needPyInit :: bool
  rtgetCalls :: nat
  pygetCalls :: nat

definition NewProgram :: aProgram where
  "NewProgram =
     \<lparr>typs = Map.empty, allocated = 0, rt = None, rtget = None, py = None, pyget = None,
      voidTy = None, voidPtr = None, boolTy = None, cstrTy = None, pyObjPtr = None,
      pyImpTy = None, callNoArg = None, callOneArg = None,
      needRuntime = False, needPyInit = False, rtgetCalls = 0, pygetCalls = 0\<rparr>"

text \<open>
  The argument of \<^verbatim>\<open>SetPython\<close> and \<^verbatim>\<open>SetRuntime\<close> has the static type \<^verbatim>\<open>any\<close>; the type switch
  looks at its dynamic type. \<open>PackagePtr v\<close> is a value of dynamic type \<^verbatim>\<open>*types.Package\<close>
  (\<open>v = None\<close> for the typed nil pointer), \<open>SupplierFunc v\<close> one of dynamic type
  \<^verbatim>\<open>func() *types.Package\<close>, \<open>NilInterface\<close> the nil interface value, and \<open>OtherValue d\<close> a
  value of any other dynamic type, \<open>d\<close> naming the type.
\<close>

datatype anyval =
    NilInterface
  | PackagePtr "types_Package option"
  | SupplierFunc "supplier option"
  | OtherValue string

definition SetPython :: "aProgram \<Rightarrow> anyval \<Rightarrow> aProgram" where
  "SetPython p a =
     (case a of
        PackagePtr v \<Rightarrow> p\<lparr>py := v\<rparr>
      | SupplierFunc v \<Rightarrow> p\<lparr>pyget := v\<rparr>
      | _ \<Rightarrow> p)"

definition SetRuntime :: "aProgram \<Rightarrow> anyval \<Rightarrow> aProgram" where
  "SetRuntime p a =
     (case a of
        PackagePtr v \<Rightarrow> p\<lparr>rt := v\<rparr>
      | SupplierFunc v \<Rightarrow> p\<lparr>rtget := v\<rparr>
      | _ \<Rightarrow> p)"

definition NeedRuntime :: "aProgram \<Rightarrow> bool" where
  "NeedRuntime p = needRuntime p"

text \<open>
  \<^verbatim>\<open>Program.runtime\<close> and \<^verbatim>\<open>Program.python\<close>. Calling a nil supplier panics before anything
  is assigned. The result is the handle returned and the Program after the call.
\<close>

definition runtime :: "aProgram \<Rightarrow> error + (types_Package option \<times> aProgram)" where
  "runtime p =
     (case rt p of
        None \<Rightarrow>
          (case rtget p of
             None \<Rightarrow> Inl NilFuncCall
           | Some get \<Rightarrow>
               Inr (get (), p\<lparr>rt := get (), needRuntime := True,
                                rtgetCalls := Suc (rtgetCalls p)\<rparr>))
      | Some h \<Rightarrow> Inr (Some h, p\<lparr>needRuntime := True\<rparr>))"

definition python :: "aProgram \<Rightarrow> error + (types_Package option \<times> aProgram)" where
  "python p =
     (case py p of
        None \<Rightarrow>
          (case pyget p of
             None \<Rightarrow> Inl NilFuncCall
           | Some get \<Rightarrow> Inr (get (), p\<lparr>py := get (), pygetCalls := Suc (pygetCalls p)\<rparr>))
      | Some h \<Rightarrow> Inr (Some h, p))"

subsection \<open>The memoized lowering\<close>

text \<open>Allocation of a fresh \<^verbatim>\<open>aType\<close> object (\<^verbatim>\<open>&aType{...}\<close>).\<close>

definition newType :: "aProgram \<Rightarrow> lltype \<Rightarrow> gotype \<Rightarrow> aType \<times> aProgram" where
  "newType p l t =
     (\<lparr>ident = allocated p, ll = l, raw = t\<rparr>, p\<lparr>allocated := Suc (allocated p)\<rparr>)"

text \<open>
  Modelled from the spec: \<^verbatim>\<open>Program.rawType\<close> and the lowering \<open>toType\<close> it memoizes are
  not under \<^verbatim>\<open>src/\<close> (only the cache field \<^verbatim>\<open>typs\<close> and the calls are). Section 4.1: on the first
  request for a source type, compute the lowering, recursively lowering any referenced
  component types, store it keyed by the source type and return it; on every later
  request return the cached Type. \<open>rawTypes\<close> lowers the types of a list of variables
  from left to right.
\<close>

function rawType :: "aProgram \<Rightarrow> gotype \<Rightarrow> aType \<times> aProgram"
  and toType :: "aProgram \<Rightarrow> gotype \<Rightarrow> aType \<times> aProgram"
  and rawTypes :: "aProgram \<Rightarrow> var list \<Rightarrow> aType list \<times> aProgram"
where
  "rawType p t =
     (case typs p t of
        Some ty \<Rightarrow> (ty, p)
      | None \<Rightarrow> (case toType p t of (ty, p') \<Rightarrow> (ty, p'\<lparr>typs := (typs p')(t \<mapsto> ty)\<rparr>)))"
| "toType p (Typ b) = newType p (LBasic b) (Typ b)"
| "toType p (Named path name) = newType p (LNamed path name) (Named path name)"
| "toType p (Pointer e) =
     (case rawType p e of (et, p') \<Rightarrow> newType p' (LPointer (ll et)) (Pointer e))"
| "toType p (Signature ps rs) =
     (case rawTypes p ps of (pts, p') \<Rightarrow>
        case rawTypes p' rs of (rts, p'') \<Rightarrow>
          newType p'' (LFunc (map ll pts) (map ll rts)) (Signature ps rs))"
| "toType p (Struct fs) =
     (case rawTypes p fs of (fts, p') \<Rightarrow> newType p' (LStruct (map ll fts)) (Struct fs))"
| "toType p (Tuple fs) =
     (case rawTypes p fs of (fts, p') \<Rightarrow> newType p' (LStruct (map ll fts)) (Tuple fs))"
| "rawTypes p [] = ([], p)"
| "rawTypes p ((name, t) # vs) =
     (case rawType p t of (ty, p') \<Rightarrow>
        case rawTypes p' vs of (tys, p'') \<Rightarrow> (ty # tys, p''))"
  by pat_completeness auto
termination
  by (relation "measure (\<lambda>x. case x of
          Inl (p, t) \<Rightarrow> 2 * size t + 1
        | Inr (Inl (p, t)) \<Rightarrow> 2 * size t
        | Inr (Inr (p, vs)) \<Rightarrow> 2 * size_list (size_prod (\<lambda>_. 0) size) vs + 1)") auto

declare rawType.simps [simp del]

text \<open>A sequence of lowering requests, issued one after the other.\<close>

fun lowerAll :: "aProgram \<Rightarrow> gotype list \<Rightarrow> aProgram" where
  "lowerAll p [] = p"
| "lowerAll p (t # ts) = lowerAll (snd (rawType p t)) ts"

subsection \<open>Lazily created types and signatures\<close>

text \<open>
  \<^verbatim>\<open>Void\<close> allocates its \<^verbatim>\<open>aType\<close> itself (\<^verbatim>\<open>p.tyVoid()\<close> is the void type of the target); the
  other accessors go through \<open>rawType\<close>. \<^verbatim>\<open>Int\<close>, \<^verbatim>\<open>Uintptr\<close> and \<^verbatim>\<open>Float64\<close> follow the pattern of
  \<^verbatim>\<open>Bool\<close> with a field of their own.
\<close>

definition Void :: "aProgram \<Rightarrow> aType \<times> aProgram" where
  "Void p =
     (case voidTy p of
        Some ty \<Rightarrow> (ty, p)
      | None \<Rightarrow> (case newType p LVoid (Typ Invalid) of (ty, p') \<Rightarrow> (ty, p'\<lparr>voidTy := Some ty\<rparr>)))"

definition VoidPtr :: "aProgram \<Rightarrow> aType \<times> aProgram" where
  "VoidPtr p =
     (case voidPtr p of
        Some ty \<Rightarrow> (ty, p)
      | None \<Rightarrow>
          (case rawType p (Typ UnsafePointer) of (ty, p') \<Rightarrow> (ty, p'\<lparr>voidPtr := Some ty\<rparr>)))"

definition Bool_ty :: "aProgram \<Rightarrow> aType \<times> aProgram" where
  "Bool_ty p =
     (case boolTy p of
        Some ty \<Rightarrow> (ty, p)
      | None \<Rightarrow> (case rawType p (Typ Bool) of (ty, p') \<Rightarrow> (ty, p'\<lparr>boolTy := Some ty\<rparr>)))"

definition CStr :: "aProgram \<Rightarrow> aType \<times> aProgram" where
  "CStr p =
     (case cstrTy p of
        Some ty \<Rightarrow> (ty, p)
      | None \<Rightarrow>
          (case rawType p (Pointer (Typ Int8)) of (ty, p') \<Rightarrow> (ty, p'\<lparr>cstrTy := Some ty\<rparr>)))"

text \<open>
  \<^verbatim>\<open>pyNamed\<close>: \<^verbatim>\<open>p.python().Scope().Lookup(name).Type().(*types.Named)\<close>. \<^verbatim>\<open>Lookup\<close> yields nil for
  an undeclared name, on which \<^verbatim>\<open>Type()\<close> panics; the type assertion panics on a type that
  is not named. The scope of a nil handle is the universe scope of \<^verbatim>\<open>go/types\<close>, which
  declares none of the names the source looks up, so the lookup there finds nothing.
\<close>

definition Lookup :: "types_Package option \<Rightarrow> string \<Rightarrow> gotype option" where
  "Lookup h name = (case h of None \<Rightarrow> None | Some pkg \<Rightarrow> map_of (Scope pkg) name)"

definition pyNamed :: "aProgram \<Rightarrow> string \<Rightarrow> error + (gotype \<times> aProgram)" where
  "pyNamed p name =
     (case python p of
        Inl e \<Rightarrow> Inl e
      | Inr (h, p') \<Rightarrow>
          (case Lookup h name of
             None \<Rightarrow> Inl NilDeref
           | Some t \<Rightarrow>
               (case t of
                  Named path n \<Rightarrow> Inr (t, p')
                | _ \<Rightarrow> Inl TypeAssertion)))"

definition PyObjectPtr :: "aProgram \<Rightarrow> error + (aType \<times> aProgram)" where
  "PyObjectPtr p =
     (case pyObjPtr p of
        Some ty \<Rightarrow> Inr (ty, p)
      | None \<Rightarrow>
          (case pyNamed p ''Object'' of
             Inl e \<Rightarrow> Inl e
           | Inr (obj, p') \<Rightarrow>
               (case rawType p' (Pointer obj) of
                  (ty, p'') \<Rightarrow> Inr (ty, p''\<lparr>pyObjPtr := Some ty\<rparr>))))"

definition tyImportPyModule :: "aProgram \<Rightarrow> error + (signature \<times> aProgram)" where
  "tyImportPyModule p =
     (case pyImpTy p of
        Some sig \<Rightarrow> Inr (sig, p)
      | None \<Rightarrow>
          (case PyObjectPtr p of
             Inl e \<Rightarrow> Inl e
           | Inr (ty, p') \<Rightarrow>
               (let charPtr = Pointer (Typ Int8);
                    objPtr = raw ty;
                    params = [('''', charPtr)];
                    results = [('''', objPtr)];
                    sig = (params, results)
                in Inr (sig, p'\<lparr>pyImpTy := Some sig\<rparr>))))"

definition tyCallNoArg :: "aProgram \<Rightarrow> error + (signature \<times> aProgram)" where
  "tyCallNoArg p =
     (case callNoArg p of
        Some sig \<Rightarrow> Inr (sig, p)
      | None \<Rightarrow>
          (case PyObjectPtr p of
             Inl e \<Rightarrow> Inl e
           | Inr (ty, p') \<Rightarrow>
               (let objPtr = raw ty;
                    paramObjPtr = ('''', objPtr);
                    params = [paramObjPtr];
                    sig = (params, params)
                in Inr (sig, p'\<lparr>callNoArg := Some sig\<rparr>))))"

definition tyCallOneArg :: "aProgram \<Rightarrow> error + (signature \<times> aProgram)" where
  "tyCallOneArg p =
     (case callOneArg p of
        Some sig \<Rightarrow> Inr (sig, p)
      | None \<Rightarrow>
          (case PyObjectPtr p of
             Inl e \<Rightarrow> Inl e
           | Inr (ty, p') \<Rightarrow>
               (let objPtr = raw ty;
                    paramObjPtr = ('''', objPtr);
                    params = [paramObjPtr, paramObjPtr];
                    results = [paramObjPtr];
                    sig = (params, results)
                in Inr (sig, p'\<lparr>callOneArg := Some sig\<rparr>))))"

section \<open>Package\<close>

text \<open>
  The module under construction (\<^verbatim>\<open>llvm.Module\<close>) is the list of its functions and the list
  of its globals, in the order of their creation. An \<^verbatim>\<open>llvm.Value\<close> names what it stands
  for: a function or a global of the module by its symbol, a parameter of a function by
  its position, the result of an instruction by its position in the body of its function.
\<close>

datatype Background = InGo | InC

datatype linkage = ExternalLinkage | LinkOnceAnyLinkage

datatype llvalue =
    FuncValue string
  | GlobalValue string
  | ParamValue string nat
  | InstrValue string nat
  | NullValue lltype
  | AggregateValue lltype "llvalue list"
  | CStrValue string

text \<open>A call carries its callee, its arguments and its tail-call mark.\<close>

datatype instr =
    CallInst llvalue "llvalue list" bool
  | RetInst llvalue
  | RetVoidInst

record llfunction =
  fname :: string
  ftype :: lltype
  flinkage :: linkage
  fbody :: "instr list"

record llglobal =
  gname :: string
  gtype :: lltype

record llmodule =
  modname :: string
  funcs :: "llfunction list"
  globals :: "llglobal list"

record Expr =
  impl :: llvalue
  Type :: aType

text \<open>
  \<^verbatim>\<open>aFunction\<close> embeds an \<^verbatim>\<open>Expr\<close> and keeps the lowered types of its parameters;
  \<^verbatim>\<open>Global\<close> is an \<^verbatim>\<open>Expr\<close>. The source creates the table \<^verbatim>\<open>pyfns\<close> and does not use it.
\<close>

record aFunction =
  fnExpr :: Expr
  params :: "aType list"

record aPackage =
  llmod :: llmodule
  vars :: "string \<rightharpoonup> Expr"
  fns :: "string \<rightharpoonup> aFunction"
  stubs :: "string \<rightharpoonup> aFunction"
  pyfns :: "string \<rightharpoonup> aFunction"

record aBuilder =
  Func :: aFunction

definition NewPackage :: "aProgram \<Rightarrow> string \<Rightarrow> string \<Rightarrow> aPackage \<times> aProgram" where
  "NewPackage p name pkgPath =
     (\<lparr>llmod = \<lparr>modname = pkgPath, funcs = [], globals = []\<rparr>,
       vars = Map.empty, fns = Map.empty, stubs = Map.empty, pyfns = Map.empty\<rparr>,
      p\<lparr>needRuntime := False\<rparr>)"

subsection \<open>Operations of the LLVM binding\<close>

text \<open>\<^verbatim>\<open>llvm.Value.Name\<close>: the symbol of a function or global, empty for other values.\<close>

fun valueName :: "llvalue \<Rightarrow> string" where
  "valueName (FuncValue n) = n"
| "valueName (GlobalValue n) = n"
| "valueName _ = []"

definition findFunction :: "llmodule \<Rightarrow> string \<Rightarrow> llfunction option" where
  "findFunction m f = find (\<lambda>d. fname d = f) (funcs m)"

definition updFunction :: "string \<Rightarrow> (llfunction \<Rightarrow> llfunction) \<Rightarrow> aPackage \<Rightarrow> aPackage" where
  "updFunction f upd p =
     p\<lparr>llmod := (llmod p)\<lparr>funcs := map (\<lambda>d. if fname d = f then upd d else d)
                                            (funcs (llmod p))\<rparr>\<rparr>"

text \<open>\<^verbatim>\<open>fn.impl.SetLinkage(l)\<close>.\<close>

definition SetLinkage :: "aPackage \<Rightarrow> llvalue \<Rightarrow> linkage \<Rightarrow> aPackage" where
  "SetLinkage p v l = updFunction (valueName v) (\<lambda>d. d\<lparr>flinkage := l\<rparr>) p"

text \<open>A builder appends an instruction at the end of the body of its function.\<close>

definition emit :: "aPackage \<Rightarrow> aBuilder \<Rightarrow> instr \<Rightarrow> aPackage" where
  "emit p b i =
     updFunction (valueName (impl (fnExpr (Func b)))) (\<lambda>d. d\<lparr>fbody := fbody d @ [i]\<rparr>) p"

text \<open>\<^verbatim>\<open>call.impl.SetTailCall(t)\<close>, on the value of a call instruction.\<close>

fun markTail :: "bool \<Rightarrow> instr \<Rightarrow> instr" where
  "markTail t (CallInst fn args _) = CallInst fn args t"
| "markTail t i = i"

fun SetTailCall :: "aPackage \<Rightarrow> llvalue \<Rightarrow> bool \<Rightarrow> aPackage" where
  "SetTailCall p (InstrValue f k) t =
     updFunction f (\<lambda>d. if k < length (fbody d)
                         then d\<lparr>fbody := (fbody d)[k := markTail t (fbody d ! k)]\<rparr> else d) p"
| "SetTailCall p v t = p"

subsection \<open>Helpers of the package that are not in the given sources\<close>

text \<open>
  Modelled from the spec: \<^verbatim>\<open>Package.NewFunc\<close> is not under \<^verbatim>\<open>src/\<close>. Section 4.3: if the name
  exists in the table, return the existing entry, the constructor not invoked;
  otherwise build the entry, store it and return it. The constructor lowers the
  signature, declares the function in the module and keeps the lowered parameter types.
\<close>

definition NewFunc ::
  "aProgram \<Rightarrow> aPackage \<Rightarrow> string \<Rightarrow> signature \<Rightarrow> Background \<Rightarrow> aFunction \<times> aProgram \<times> aPackage"
where
  "NewFunc prog p name sig bg =
     (case fns p name of
        Some fn \<Rightarrow> (fn, prog, p)
      | None \<Rightarrow>
          (case rawType prog (Signature (fst sig) (snd sig)) of (t, prog1) \<Rightarrow>
           case rawTypes prog1 (fst sig) of (pts, prog2) \<Rightarrow>
             (let fn = \<lparr>fnExpr = \<lparr>impl = FuncValue name, Type = t\<rparr>, params = pts\<rparr>;
                  decl = \<lparr>fname = name, ftype = ll t, flinkage = ExternalLinkage, fbody = []\<rparr>
              in (fn, prog2,
                  p\<lparr>llmod := (llmod p)\<lparr>funcs := funcs (llmod p) @ [decl]\<rparr>,
                    fns := (fns p)(name \<mapsto> fn)\<rparr>))))"

text \<open>
  Modelled from the spec: \<^verbatim>\<open>Package.NewVar\<close> is not under \<^verbatim>\<open>src/\<close>. The same contract of
  section 4.3 on the table of globals; the constructor lowers the type and declares the
  global in the module.
\<close>

definition NewVar ::
  "aProgram \<Rightarrow> aPackage \<Rightarrow> string \<Rightarrow> gotype \<Rightarrow> Background \<Rightarrow> Expr \<times> aProgram \<times> aPackage"
where
  "NewVar prog p name typ bg =
     (case vars p name of
        Some g \<Rightarrow> (g, prog, p)
      | None \<Rightarrow>
          (case rawType prog typ of (t, prog1) \<Rightarrow>
             (let g = \<lparr>impl = GlobalValue name, Type = t\<rparr>
              in (g, prog1,
                  p\<lparr>llmod := (llmod p)\<lparr>globals := globals (llmod p) @ [\<lparr>gname = name, gtype = ll t\<rparr>]\<rparr>,
                    vars := (vars p)(name \<mapsto> g)\<rparr>))))"

text \<open>
  Modelled from the spec: \<^verbatim>\<open>Function.Param\<close>, \<^verbatim>\<open>Function.MakeBody\<close>, \<^verbatim>\<open>Program.Null\<close>,
  \<^verbatim>\<open>Builder.aggregateValue\<close>, \<^verbatim>\<open>Builder.CStr\<close> and \<^verbatim>\<open>Builder.Call\<close> are not under \<^verbatim>\<open>src/\<close>. Section 3:
  an Expr is an IR value tagged with its lowered Type. \<open>Param fn i\<close> is the parameter of
  \<open>fn\<close> at position \<open>i\<close>, counted from 0, and panics out of range; \<open>MakeBody\<close> gives a
  builder positioned in the function; \<open>Call\<close> appends one call of the callee with exactly
  the given arguments, not yet marked as a tail call, and its value is tagged with the
  lowered result: void for no result, the result type for one result, the tuple of the
  results otherwise.
\<close>

definition Param :: "aFunction \<Rightarrow> nat \<Rightarrow> error + Expr" where
  "Param fn i =
     (if i < length (params fn)
      then Inr \<lparr>impl = ParamValue (valueName (impl (fnExpr fn))) i, Type = params fn ! i\<rparr>
      else Inl IndexOutOfRange)"

definition MakeBody :: "aFunction \<Rightarrow> nat \<Rightarrow> aBuilder" where
  "MakeBody fn nblk = \<lparr>Func = fn\<rparr>"

definition Null :: "aType \<Rightarrow> Expr" where
  "Null t = \<lparr>impl = NullValue (ll t), Type = t\<rparr>"

definition aggregateValue :: "aType \<Rightarrow> llvalue list \<Rightarrow> Expr" where
  "aggregateValue t flds = \<lparr>impl = AggregateValue (ll t) flds, Type = t\<rparr>"

definition Builder_CStr :: "aProgram \<Rightarrow> string \<Rightarrow> Expr \<times> aProgram" where
  "Builder_CStr prog v = (case CStr prog of (t, prog') \<Rightarrow> (\<lparr>impl = CStrValue v, Type = t\<rparr>, prog'))"

definition retType :: "aProgram \<Rightarrow> var list \<Rightarrow> aType \<times> aProgram" where
  "retType prog results =
     (case results of
        [] \<Rightarrow> Void prog
      | [r] \<Rightarrow> rawType prog (snd r)
      | _ \<Rightarrow> rawType prog (Tuple results))"

definition Call ::
  "aProgram \<Rightarrow> aPackage \<Rightarrow> aBuilder \<Rightarrow> Expr \<Rightarrow> Expr list \<Rightarrow> error + (Expr \<times> aProgram \<times> aPackage)"
where
  "Call prog p b fn args =
     (case raw (Type fn) of
        Signature ps rs \<Rightarrow>
          (case findFunction (llmod p) (valueName (impl (fnExpr (Func b)))) of
             None \<Rightarrow> Inl NilDeref
           | Some d \<Rightarrow>
               (case retType prog rs of (rty, prog') \<Rightarrow>
                  Inr (\<lparr>impl = InstrValue (fname d) (length (fbody d)), Type = rty\<rparr>, prog',
                       emit p b (CallInst (impl fn) (map impl args) False))))
      | _ \<Rightarrow> Inl TypeAssertion)"

text \<open>
  Modelled from the spec: the constants \<^verbatim>\<open>ClosureStub\<close> and \<^verbatim>\<open>ClosureCtx\<close> are not under
  \<^verbatim>\<open>src/\<close>. Section 4.4: the name of a stub is the name of the closure with a fixed prefix.
\<close>

definition ClosureStub :: string where
  "ClosureStub = ''__llgo_stub.''"

definition ClosureCtx :: string where
  "ClosureCtx = ''__llgo_ctx''"

text \<open>
  Modelled from the spec: \<^verbatim>\<open>FuncAddCtx\<close> is not under \<^verbatim>\<open>src/\<close>. Section 3: the signature of
  the stub equals the original closure's signature plus exactly one trailing opaque
  context parameter.
\<close>

definition FuncAddCtx_trailing :: "var \<Rightarrow> signature \<Rightarrow> signature" where
  "FuncAddCtx_trailing ctx sig = (fst sig @ [ctx], snd sig)"

subsection \<open>Functions of the package in the given sources\<close>

definition pyFunc ::
  "aProgram \<Rightarrow> aPackage \<Rightarrow> string \<Rightarrow> signature \<Rightarrow> Expr \<times> aProgram \<times> aPackage"
where
  "pyFunc prog p fullName sig =
     (case NewFunc (prog\<lparr>needPyInit := True\<rparr>) p fullName sig InC of
        (fn, prog', p') \<Rightarrow> (fnExpr fn, prog', p'))"

text \<open>The loop \<^verbatim>\<open>for i := 0; i < n; i++ { args[i] = fn.Param(i + 1) }\<close>, over \<open>[0..<n]\<close>.\<close>

fun stubArgs :: "aFunction \<Rightarrow> nat list \<Rightarrow> error + Expr list" where
  "stubArgs fn [] = Inr []"
| "stubArgs fn (i # is) =
     (case Param fn (i + 1) of
        Inl e \<Rightarrow> Inl e
      | Inr a \<Rightarrow> (case stubArgs fn is of Inl e \<Rightarrow> Inl e | Inr as \<Rightarrow> Inr (a # as)))"

text \<open>
  \<^verbatim>\<open>closureStub\<close>. The helper \<^verbatim>\<open>FuncAddCtx\<close> is a parameter \<open>addCtx\<close>. \<open>closureStub_else\<close> is the
  else branch of the source, after the type assertion on the type of the closure: it
  declares the stub, gives it link-once linkage, collects the arguments, builds the body
  and enters the stub in the table. The source shadows the builder \<open>b\<close> of the caller by
  the builder of the stub there, here \<open>sb\<close>. The builder of the caller and the struct type
  \<open>t\<close> of the closure are used only for the closure value built at the end.
\<close>

definition closureStub_else ::
  "(var \<Rightarrow> signature \<Rightarrow> signature) \<Rightarrow> aProgram \<Rightarrow> aPackage \<Rightarrow> string \<Rightarrow> Expr \<Rightarrow>
   var list \<Rightarrow> var list \<Rightarrow> error + (Expr \<times> aProgram \<times> aPackage)"
where
  "closureStub_else addCtx prog p name v ps rs =
     (let n = length ps;
          nret = length rs;
          ctx = (ClosureCtx, Typ UnsafePointer);
          sig = addCtx ctx (ps, rs)
      in case NewFunc prog p (ClosureStub @ name) sig InC of (fn, prog2, p2) \<Rightarrow>
         let p3 = SetLinkage p2 (impl (fnExpr fn)) LinkOnceAnyLinkage in
         case stubArgs fn [0..<n] of
           Inl e \<Rightarrow> Inl e
         | Inr args \<Rightarrow>
             (let sb = MakeBody fn 1 in
              case Call prog2 p3 sb v args of
                Inl e \<Rightarrow> Inl e
              | Inr (call, prog3, p4) \<Rightarrow>
                  (let p5 = SetTailCall p4 (impl call) True;
                       p6 = (if nret = 0 then emit p5 sb RetVoidInst
                             else emit p5 sb (RetInst (impl call)))
                   in Inr (fnExpr fn, prog3, p6\<lparr>stubs := (stubs p6)(name \<mapsto> fn)\<rparr>))))"

definition closureStub ::
  "(var \<Rightarrow> signature \<Rightarrow> signature) \<Rightarrow> aProgram \<Rightarrow> aPackage \<Rightarrow> aBuilder \<Rightarrow> gotype \<Rightarrow> Expr \<Rightarrow>
   error + (Expr \<times> aProgram \<times> aPackage)"
where
  "closureStub addCtx prog p b t v =
     (let name = valueName (impl v) in
      case VoidPtr prog of (vp, prog1) \<Rightarrow>
      let nilVal = impl (Null vp) in
      case (case stubs p name of
              Some fn \<Rightarrow> Inr (fnExpr fn, prog1, p)
            | None \<Rightarrow>
                (case raw (Type v) of
                   Signature ps rs \<Rightarrow> closureStub_else addCtx prog1 p name v ps rs
                 | _ \<Rightarrow> Inl TypeAssertion)) of
        Inl e \<Rightarrow> Inl e
      | Inr (v', prog4, p7) \<Rightarrow>
          (case rawType prog4 t of (ct, prog5) \<Rightarrow>
             Inr (aggregateValue ct [impl v', nilVal], prog5, p7)))"

definition ImportPyMod ::
  "aProgram \<Rightarrow> aPackage \<Rightarrow> aBuilder \<Rightarrow> string \<Rightarrow> error + (Expr \<times> aProgram \<times> aPackage)"
where
  "ImportPyMod prog pkg b path =
     (case tyImportPyModule prog of
        Inl e \<Rightarrow> Inl e
      | Inr (sig, prog1) \<Rightarrow>
          (case pyFunc prog1 pkg ''PyImport_ImportModule'' sig of (fnImp, prog2, pkg2) \<Rightarrow>
           case Builder_CStr prog2 path of (s, prog3) \<Rightarrow>
             Call prog3 pkg2 b fnImp [s]))"

text \<open>
  \<^verbatim>\<open>pyCall\<close>. Go evaluates the arguments of a call before the call: the signature of the
  thunk before \<^verbatim>\<open>pyFunc\<close>, and \<^verbatim>\<open>args[0]\<close>, which panics on an empty slice, before \<^verbatim>\<open>b.Call\<close>.
\<close>

definition pyCall ::
  "aProgram \<Rightarrow> aPackage \<Rightarrow> aBuilder \<Rightarrow> Expr \<Rightarrow> Expr list \<Rightarrow> error + (Expr \<times> aProgram \<times> aPackage)"
where
  "pyCall prog pkg b fn args =
     (case raw (Type fn) of
        Signature ps rs \<Rightarrow>
          (let n = length ps in
           if n = 0 then
             (case tyCallNoArg prog of
                Inl e \<Rightarrow> Inl e
              | Inr (sig, prog1) \<Rightarrow>
                  (case pyFunc prog1 pkg ''PyObject_CallNoArg'' sig of (call, prog2, pkg2) \<Rightarrow>
                     Call prog2 pkg2 b call [fn]))
           else if n = 1 then
             (case tyCallOneArg prog of
                Inl e \<Rightarrow> Inl e
              | Inr (sig, prog1) \<Rightarrow>
                  (case pyFunc prog1 pkg ''PyObject_CallOneArg'' sig of (call, prog2, pkg2) \<Rightarrow>
                     (case args of
                        [] \<Rightarrow> Inl IndexOutOfRange
                      | a # _ \<Rightarrow> Call prog2 pkg2 b call [fn, a])))
           else Inl (Panic ''todo''))
      | _ \<Rightarrow> Inl TypeAssertion)"

section \<open>Notions used in the statements\<close>

text \<open>The dynamic type of an \<^verbatim>\<open>any\<close> value, as the two cases of the type switch test it.\<close>

definition isPackagePtr :: "anyval \<Rightarrow> bool" where
  "isPackagePtr a = (case a of PackagePtr v \<Rightarrow> True | _ \<Rightarrow> False)"

definition isSupplierFunc :: "anyval \<Rightarrow> bool" where
  "isSupplierFunc a = (case a of SupplierFunc v \<Rightarrow> True | _ \<Rightarrow> False)"

text \<open>\<open>n\<close> requests for the runtime-support package, one after the other.\<close>

fun runtime_times :: "nat \<Rightarrow> aProgram \<Rightarrow> error + aProgram" where
  "runtime_times 0 p = Inr p"
| "runtime_times (Suc n) p =
     (case runtime p of Inl e \<Rightarrow> Inl e | Inr (h, p') \<Rightarrow> runtime_times n p')"

text \<open>
  \<open>lowered p p'\<close>: the Program \<open>p'\<close> differs from \<open>p\<close> at most in the cache \<open>typs\<close> and in
  the allocation counter.
\<close>

definition lowered :: "aProgram \<Rightarrow> aProgram \<Rightarrow> bool" where
  "lowered p p' =
     (rt p' = rt p \<and> rtget p' = rtget p \<and> py p' = py p \<and> pyget p' = pyget p \<and>
      voidTy p' = voidTy p \<and> voidPtr p' = voidPtr p \<and> boolTy p' = boolTy p \<and>
      cstrTy p' = cstrTy p \<and> pyObjPtr p' = pyObjPtr p \<and> pyImpTy p' = pyImpTy p \<and>
      callNoArg p' = callNoArg p \<and> callOneArg p' = callOneArg p \<and>
      needRuntime p' = needRuntime p \<and> needPyInit p' = needPyInit p \<and>
      rtgetCalls p' = rtgetCalls p \<and> pygetCalls p' = pygetCalls p)"

text \<open>
  \<open>grows p p'\<close>: the Program \<open>p'\<close> has the flags, the support-package slots and the
  cached signatures of \<open>p\<close>, and every cached Type of \<open>p\<close> is still cached in \<open>p'\<close>.
\<close>

definition grows :: "aProgram \<Rightarrow> aProgram \<Rightarrow> bool" where
  "grows p p' =
     (rt p' = rt p \<and> rtget p' = rtget p \<and> py p' = py p \<and> pyget p' = pyget p \<and>
      pyObjPtr p' = pyObjPtr p \<and> pyImpTy p' = pyImpTy p \<and>
      callNoArg p' = callNoArg p \<and> callOneArg p' = callOneArg p \<and>
      needRuntime p' = needRuntime p \<and> needPyInit p' = needPyInit p \<and>
      rtgetCalls p' = rtgetCalls p \<and> pygetCalls p' = pygetCalls p \<and>
      (\<forall>t x. typs p t = Some x \<longrightarrow> typs p' t = Some x) \<and>
      (\<forall>x. voidTy p = Some x \<longrightarrow> voidTy p' = Some x) \<and>
      (\<forall>x. voidPtr p = Some x \<longrightarrow> voidPtr p' = Some x) \<and>
      (\<forall>x. boolTy p = Some x \<longrightarrow> boolTy p' = Some x) \<and>
      (\<forall>x. cstrTy p = Some x \<longrightarrow> cstrTy p' = Some x))"

text \<open>The two per-package flags are the same in both Programs.\<close>

definition same_flags :: "aProgram \<Rightarrow> aProgram \<Rightarrow> bool" where
  "same_flags p p' = (needRuntime p' = needRuntime p \<and> needPyInit p' = needPyInit p)"

text \<open>Every cached Type is the lowering of the source type it is cached under.\<close>

definition typs_ok :: "aProgram \<Rightarrow> bool" where
  "typs_ok p = (\<forall>t ty. typs p t = Some ty \<longrightarrow> raw ty = t)"

text \<open>
  The symbols of a module, and the invariant of a Package: no two functions and no two
  globals of the module have the same symbol, and the functions and globals of the
  module are those entered in the tables \<^verbatim>\<open>fns\<close> and \<^verbatim>\<open>vars\<close>.
\<close>

definition funcNames :: "aPackage \<Rightarrow> string list" where
  "funcNames p = map fname (funcs (llmod p))"

definition globalNames :: "aPackage \<Rightarrow> string list" where
  "globalNames p = map gname (globals (llmod p))"

definition pkg_inv :: "aPackage \<Rightarrow> bool" where
  "pkg_inv p =
     (distinct (funcNames p) \<and> set (funcNames p) = dom (fns p) \<and>
      distinct (globalNames p) \<and> set (globalNames p) = dom (vars p))"

text \<open>
  The operations of a Program and its current Package as a transition system: the state
  is the Program with the Package under construction, an operation that panics ends
  the run, and \<^verbatim>\<open>NewPackage\<close> replaces the Package by a new one.
\<close>

datatype op =
    OpSetPython anyval
  | OpSetRuntime anyval
  | OpRuntime
  | OpPython
  | OpNewPackage string string
  | OpRawType gotype
  | OpVoid
  | OpVoidPtr
  | OpBool
  | OpCStr
  | OpPyObjectPtr
  | OpTyImportPyModule
  | OpTyCallNoArg
  | OpTyCallOneArg
  | OpNewFunc string signature Background
  | OpNewVar string gotype Background
  | OpPyFunc string signature
  | OpClosureStub aBuilder gotype Expr
  | OpImportPyMod aBuilder string
  | OpPyCall aBuilder Expr "Expr list"

type_synonym world = "aProgram \<times> aPackage"

text \<open>Keep the states of a result and drop its value.\<close>

definition states :: "error + ('a \<times> aProgram \<times> aPackage) \<Rightarrow> error + world" where
  "states r = (case r of Inl e \<Rightarrow> Inl e | Inr (x, prog, p) \<Rightarrow> Inr (prog, p))"

definition progOnly :: "aPackage \<Rightarrow> error + ('a \<times> aProgram) \<Rightarrow> error + world" where
  "progOnly p r = (case r of Inl e \<Rightarrow> Inl e | Inr (x, prog) \<Rightarrow> Inr (prog, p))"

fun step :: "(var \<Rightarrow> signature \<Rightarrow> signature) \<Rightarrow> op \<Rightarrow> world \<Rightarrow> error + world" where
  "step addCtx (OpSetPython a) (prog, p) = Inr (SetPython prog a, p)"
| "step addCtx (OpSetRuntime a) (prog, p) = Inr (SetRuntime prog a, p)"
| "step addCtx OpRuntime (prog, p) = progOnly p (runtime prog)"
| "step addCtx OpPython (prog, p) = progOnly p (python prog)"
| "step addCtx (OpNewPackage name pkgPath) (prog, p) =
     (case NewPackage prog name pkgPath of (p', prog') \<Rightarrow> Inr (prog', p'))"
| "step addCtx (OpRawType t) (prog, p) = Inr (snd (rawType prog t), p)"
| "step addCtx OpVoid (prog, p) = Inr (snd (Void prog), p)"
| "step addCtx OpVoidPtr (prog, p) = Inr (snd (VoidPtr prog), p)"
| "step addCtx OpBool (prog, p) = Inr (snd (Bool_ty prog), p)"
| "step addCtx OpCStr (prog, p) = Inr (snd (CStr prog), p)"
| "step addCtx OpPyObjectPtr (prog, p) = progOnly p (PyObjectPtr prog)"
| "step addCtx OpTyImportPyModule (prog, p) = progOnly p (tyImportPyModule prog)"
| "step addCtx OpTyCallNoArg (prog, p) = progOnly p (tyCallNoArg prog)"
| "step addCtx OpTyCallOneArg (prog, p) = progOnly p (tyCallOneArg prog)"
| "step addCtx (OpNewFunc name sig bg) (prog, p) = Inr (snd (NewFunc prog p name sig bg))"
| "step addCtx (OpNewVar name typ bg) (prog, p) = Inr (snd (NewVar prog p name typ bg))"
| "step addCtx (OpPyFunc name sig) (prog, p) = Inr (snd (pyFunc prog p name sig))"
| "step addCtx (OpClosureStub b t v) (prog, p) = states (closureStub addCtx prog p b t v)"
| "step addCtx (OpImportPyMod b path) (prog, p) = states (ImportPyMod prog p b path)"
| "step addCtx (OpPyCall b fn args) (prog, p) = states (pyCall prog p b fn args)"

fun run :: "(var \<Rightarrow> signature \<Rightarrow> signature) \<Rightarrow> op list \<Rightarrow> world \<Rightarrow> error + world" where
  "run addCtx [] w = Inr w"
| "run addCtx (x # xs) w =
     (case step addCtx x w of Inl e \<Rightarrow> Inl e | Inr w' \<Rightarrow> run addCtx xs w')"

text \<open>The operations that declare or perform a foreign call, and the creation of a Package.\<close>

fun isForeignOp :: "op \<Rightarrow> bool" where
  "isForeignOp (OpPyFunc name sig) = True"
| "isForeignOp (OpImportPyMod b path) = True"
| "isForeignOp (OpPyCall b fn args) = True"
| "isForeignOp x = False"

fun isNewPackage :: "op \<Rightarrow> bool" where
  "isNewPackage (OpNewPackage name pkgPath) = True"
| "isNewPackage x = False"

text \<open>
  The one operation that empties the slot of the runtime-support package: \<^verbatim>\<open>SetRuntime\<close>
  given a nil pointer of type \<^verbatim>\<open>*types.Package\<close>.
\<close>

fun clearsRuntime :: "op \<Rightarrow> bool" where
  "clearsRuntime (OpSetRuntime (PackagePtr None)) = True"
| "clearsRuntime x = False"

text \<open>
  \<open>typs_kept p p'\<close>: every entry of the cache of lowered types of the Program \<open>p\<close> is, unchanged,
  an entry of the cache of \<open>p'\<close>.
\<close>

definition typs_kept :: "aProgram \<Rightarrow> aProgram \<Rightarrow> bool" where
  "typs_kept p p' = (\<forall>t x. typs p t = Some x \<longrightarrow> typs p' t = Some x)"

text \<open>
  What one operation does to the flags and to the invariant of the Package: a foreign
  operation leaves \<open>needPyInit\<close> set, any other operation leaves it as it was; the
  creation of a Package clears \<open>needRuntime\<close>, any other operation leaves it set when it
  was set; the invariant of the Package is kept.
\<close>

definition step_ok :: "op \<Rightarrow> aProgram \<Rightarrow> aPackage \<Rightarrow> aProgram \<Rightarrow> aPackage \<Rightarrow> bool" where
  "step_ok x prog p prog' p' =
     ((if isForeignOp x then needPyInit prog' else needPyInit prog' = needPyInit prog) \<and>
      (if isNewPackage x then \<not> needRuntime prog' else (needRuntime prog \<longrightarrow> needRuntime prog')) \<and>
      (pkg_inv p \<longrightarrow> pkg_inv p'))"

text \<open>A result that is not a panic.\<close>

definition succeeds :: "error + 'a \<Rightarrow> bool" where
  "succeeds r = (case r of Inl e \<Rightarrow> False | Inr x \<Rightarrow> True)"

text \<open>The body of the function \<open>f\<close> in the module of the Package that a call returns.\<close>

definition functionBody ::
  "error + (Expr \<times> aProgram \<times> aPackage) \<Rightarrow> string \<Rightarrow> instr list option" where
  "functionBody r f =
     (case r of
        Inl e \<Rightarrow> None
      | Inr (x, prog, p) \<Rightarrow> map_option fbody (findFunction (llmod p) f))"

text \<open>The thunk that \<^verbatim>\<open>pyCall\<close> uses for a callee with \<open>n\<close> parameters, \<open>n\<close> being 0 or 1.\<close>

definition thunkName :: "nat \<Rightarrow> string" where
  "thunkName n = (if n = 0 then ''PyObject_CallNoArg'' else ''PyObject_CallOneArg'')"

text \<open>
  The fixed signature of the thunk for a callee with \<open>n\<close> parameters, over the pointer type
  \<open>objPtr\<close> of foreign objects: the callee and its \<open>n\<close> arguments as parameters, one
  foreign object as result. These are the signatures that \<^verbatim>\<open>tyCallNoArg\<close> (\<open>n = 0\<close>) and
  \<^verbatim>\<open>tyCallOneArg\<close> (\<open>n = 1\<close>) build.
\<close>

definition thunkSig :: "nat \<Rightarrow> gotype \<Rightarrow> signature" where
  "thunkSig n objPtr = (replicate (Suc n) ([], objPtr), [([], objPtr)])"

text \<open>
  The state in which the bridge works. \<open>sigs_ok\<close>: a cached signature of a thunk is the
  fixed signature over the cached pointer type of foreign objects. \<open>thunk_ok\<close>: the thunk
  for \<open>n\<close> parameters, when the table of functions has it, is the function of that symbol
  with the fixed signature as source type. \<open>bridge_inv\<close> adds the consistency of the cache
  of lowered types.
\<close>

definition sigs_ok :: "aProgram \<Rightarrow> bool" where
  "sigs_ok p =
     ((case callNoArg p of
         None \<Rightarrow> True
       | Some s \<Rightarrow> (case pyObjPtr p of None \<Rightarrow> False | Some ot \<Rightarrow> s = thunkSig 0 (raw ot))) \<and>
      (case callOneArg p of
         None \<Rightarrow> True
       | Some s \<Rightarrow> (case pyObjPtr p of None \<Rightarrow> False | Some ot \<Rightarrow> s = thunkSig 1 (raw ot))))"

definition thunk_ok :: "aProgram \<Rightarrow> aPackage \<Rightarrow> nat \<Rightarrow> bool" where
  "thunk_ok prog pkg n =
     (case fns pkg (thunkName n) of
        None \<Rightarrow> True
      | Some f \<Rightarrow>
          impl (fnExpr f) = FuncValue (thunkName n) \<and>
          (case pyObjPtr prog of
             None \<Rightarrow> False
           | Some ot \<Rightarrow>
               raw (Type (fnExpr f)) =
                 Signature (fst (thunkSig n (raw ot))) (snd (thunkSig n (raw ot)))))"

definition bridge_inv :: "aProgram \<Rightarrow> aPackage \<Rightarrow> bool" where
  "bridge_inv prog pkg =
     (typs_ok prog \<and> sigs_ok prog \<and> thunk_ok prog pkg 0 \<and> thunk_ok prog pkg 1)"

text \<open>
  The stub of the closure \<open>v\<close> of name \<open>name\<close> with \<open>n\<close> parameters and \<open>nret\<close> results: a
  link-once function whose body is a tail call of \<open>v\<close> with the parameters of the stub at
  the positions 1 to \<open>n\<close>, followed by the return of the value of the call, or of nothing
  when \<open>nret\<close> is 0. \<open>withStub p name fn d\<close> is the Package \<open>p\<close> with the function \<open>d\<close>
  appended to its module and \<open>fn\<close> entered in the tables of functions and of stubs.
\<close>

definition stubFunction :: "string \<Rightarrow> lltype \<Rightarrow> Expr \<Rightarrow> nat \<Rightarrow> nat \<Rightarrow> llfunction" where
  "stubFunction name ty v n nret =
     \<lparr>fname = ClosureStub @ name, ftype = ty, flinkage = LinkOnceAnyLinkage,
      fbody = [CallInst (impl v) (map (ParamValue (ClosureStub @ name)) [1..<Suc n]) True,
               if nret = 0 then RetVoidInst else RetInst (InstrValue (ClosureStub @ name) 0)]\<rparr>"

definition withStub :: "aPackage \<Rightarrow> string \<Rightarrow> aFunction \<Rightarrow> llfunction \<Rightarrow> aPackage" where
  "withStub p name fn d =
     p\<lparr>llmod := (llmod p)\<lparr>funcs := funcs (llmod p) @ [d]\<rparr>,
       fns := (fns p)(ClosureStub @ name \<mapsto> fn),
       stubs := (stubs p)(name \<mapsto> fn)\<rparr>"

subsection \<open>Example inputs\<close>

definition example_runtime :: types_Package where
  "example_runtime = \<lparr>Path = ''github.com/goplus/llgo/internal/runtime'', Scope = []\<rparr>"

definition example_conf :: Config where
  "example_conf = \<lparr>BinPath = ''/go/bin'', AppExt = [], OutFile = [], RunArgs = [], Mode = ModeBuild\<rparr>"

definition example_pkgs :: "packages_Package list" where
  "example_pkgs =
     [\<lparr>PkgPath = ''example.com/a'', Name = ''main'', ExportFile = ''/cache/a''\<rparr>,
      \<lparr>PkgPath = ''example.com/a/b'', Name = ''b'', ExportFile = ''/cache/b''\<rparr>,
      \<lparr>PkgPath = ''unsafe'', Name = ''unsafe'', ExportFile = []\<rparr>]"

definition example_python :: types_Package where
  "example_python =
     \<lparr>Path = ''github.com/goplus/llgo/py'',
      Scope = [(''Object'', Named ''github.com/goplus/llgo/py'' ''Object'')]\<rparr>"

definition example_prog :: aProgram where
  "example_prog =
     SetPython (SetRuntime NewProgram (SupplierFunc (Some (\<lambda>u. Some example_runtime))))
       (PackagePtr (Some example_python))"

text \<open>A Package with the function \<^verbatim>\<open>main.main\<close> under construction by the builder \<open>example_b\<close>.\<close>

definition example_main :: "aFunction \<times> aProgram \<times> aPackage" where
  "example_main =
     NewFunc (snd (NewPackage example_prog ''main'' ''example.com/main''))
       (fst (NewPackage example_prog ''main'' ''example.com/main'')) ''main.main'' ([], []) InGo"

definition example_b :: aBuilder where
  "example_b = MakeBody (fst example_main) 1"

text \<open>
  The function \<^verbatim>\<open>main.f\<close> with one parameter and the results \<open>rs\<close>, declared in that
  Package and used as a closure, and the struct type of a closure value.
\<close>

definition example_f :: "var list \<Rightarrow> aFunction \<times> aProgram \<times> aPackage" where
  "example_f rs =
     NewFunc (fst (snd example_main)) (snd (snd example_main)) ''main.f''
       ([(''x'', Typ Int_t)], rs) InGo"

definition example_closure_type :: gotype where
  "example_closure_type =
     Struct [(''f'', Pointer (Typ Int8)), (''data'', Typ UnsafePointer)]"

definition example_P :: "var list \<Rightarrow> aProgram" where
  "example_P rs = fst (snd (example_f rs))"

definition example_K :: "var list \<Rightarrow> aPackage" where
  "example_K rs = snd (snd (example_f rs))"

definition example_closure :: "var list \<Rightarrow> Expr" where
  "example_closure rs = fnExpr (fst (example_f rs))"

text \<open>
  A callee of \<^verbatim>\<open>pyCall\<close>: a value whose type is the lowering of a signature with the
  parameters \<open>ps\<close> and one foreign object as result, with the Program after that lowering.
\<close>

definition example_callee :: "var list \<Rightarrow> Expr \<times> aProgram" where
  "example_callee ps =
     (case rawType (fst (snd example_main))
             (Signature ps [([], Pointer (Named ''github.com/goplus/llgo/py'' ''Object''))]) of
        (t, prog) \<Rightarrow> (\<lparr>impl = GlobalValue ''__llgo_py.math.f'', Type = t\<rparr>, prog))"

text \<open>
  An instance for the parameter \<open>addCtx\<close> of \<open>closureStub\<close> that puts the context parameter
  first, before the parameters of the closure.
\<close>

definition FuncAddCtx_leading :: "var \<Rightarrow> signature \<Rightarrow> signature" where
  "FuncAddCtx_leading ctx sig = (ctx # fst sig, snd sig)"

section \<open>Theorems\<close>

subsection \<open>Auxiliary facts\<close>

lemma lowered_refl: "lowered p p"
  by (simp add: lowered_def)

lemma lowered_trans: "lowered p q \<Longrightarrow> lowered q r \<Longrightarrow> lowered p r"
  by (simp add: lowered_def)

lemma lowered_newType: "lowered p (snd (newType p l t))"
  by (simp add: lowered_def newType_def)

lemma lowered_newType': "lowered p q \<Longrightarrow> lowered p (snd (newType q l t))"
  using lowered_trans lowered_newType by blast

lemma lowered_typs_upd: "lowered p q \<Longrightarrow> lowered p (q\<lparr>typs := m\<rparr>)"
  by (simp add: lowered_def)

lemma lowered_rawType_aux:
  "lowered p (snd (rawType p t))"
  "lowered p (snd (toType p t))"
  "lowered p (snd (rawTypes p vs))"
proof (induction p t and p t and p vs rule: rawType_toType_rawTypes.induct)
  case (1 p t)
  show ?case
  proof (cases "typs p t")
    case None
    with 1 show ?thesis
      by (simp add: rawType.simps lowered_typs_upd split_beta)
  next
    case (Some ty)
    then show ?thesis by (simp add: rawType.simps lowered_refl)
  qed
next
  case (2 p b)
  show ?case by (simp add: lowered_newType)
next
  case (3 p path name)
  show ?case by (simp add: lowered_newType)
next
  case (4 p e)
  then show ?case by (simp add: lowered_newType' split_beta)
next
  case (5 p ps rs)
  have a: "lowered p (snd (rawTypes p ps))" by (rule 5(1))
  have b: "lowered (snd (rawTypes p ps)) (snd (rawTypes (snd (rawTypes p ps)) rs))"
    by (rule 5(2)[OF prod.collapse])
  show ?case using lowered_trans[OF a b]
    by (simp add: lowered_newType' split_beta)
next
  case (6 p fs)
  then show ?case by (simp add: lowered_newType' split_beta)
next
  case (7 p fs)
  then show ?case by (simp add: lowered_newType' split_beta)
next
  case (8 p)
  show ?case by (simp add: lowered_refl)
next
  case (9 p name t vs)
  have a: "lowered p (snd (rawType p t))" by (rule 9(1))
  have b: "lowered (snd (rawType p t)) (snd (rawTypes (snd (rawType p t)) vs))"
    by (rule 9(2)[OF prod.collapse])
  show ?case using lowered_trans[OF a b]
    by (simp add: split_beta)
qed

lemma typs_newType: "typs (snd (newType p l t)) = typs p"
  by (simp add: newType_def)

lemma typs_kept_aux:
  "typs p u = Some x \<Longrightarrow> typs (snd (rawType p t)) u = Some x"
  "typs p u = Some x \<Longrightarrow> typs (snd (toType p t)) u = Some x"
  "typs p u = Some x \<Longrightarrow> typs (snd (rawTypes p vs)) u = Some x"
proof (induction p t and p t and p vs rule: rawType_toType_rawTypes.induct)
  case (1 p t)
  show ?case
  proof (cases "typs p t")
    case None
    with 1 show ?thesis
      by (auto simp: rawType.simps split_beta)
  next
    case (Some ty)
    with 1 show ?thesis by (simp add: rawType.simps)
  qed
next
  case (5 p ps rs)
  have "typs (snd (rawTypes p ps)) u = Some x" by (rule 5(1)[OF 5(3)])
  then have "typs (snd (rawTypes (snd (rawTypes p ps)) rs)) u = Some x"
    by (rule 5(2)[OF prod.collapse])
  then show ?case by (simp add: typs_newType split_beta)
next
  case (9 p name t vs)
  have "typs (snd (rawType p t)) u = Some x" by (rule 9(1)[OF 9(3)])
  then have "typs (snd (rawTypes (snd (rawType p t)) vs)) u = Some x"
    by (rule 9(2)[OF prod.collapse])
  then show ?case by (simp add: split_beta)
qed (simp_all add: typs_newType split_beta)

lemma rawType_hit: "typs p t = Some ty \<Longrightarrow> rawType p t = (ty, p)"
  by (simp add: rawType.simps)

lemma rawType_stores: "rawType p t = (ty, p') \<Longrightarrow> typs p' t = Some ty"
  by (cases "typs p t") (auto simp: rawType.simps split_beta)

lemma typs_kept_lowerAll: "typs p u = Some x \<Longrightarrow> typs (lowerAll p ts) u = Some x"
proof (induction ts arbitrary: p)
  case Nil
  then show ?case by simp
next
  case (Cons t ts)
  from Cons.prems have "typs (snd (rawType p t)) u = Some x" by (rule typs_kept_aux(1))
  then have "typs (lowerAll (snd (rawType p t)) ts) u = Some x" by (rule Cons.IH)
  then show ?case by simp
qed

lemma Bool_ty_again: "Bool_ty q = (b, q1) \<Longrightarrow> Bool_ty q1 = (b, q1)"
  by (cases "boolTy q") (auto simp: Bool_ty_def split_beta)

lemma runtime_resolved:
  "rt p = Some h \<Longrightarrow> runtime p = Inr (Some h, p\<lparr>needRuntime := True\<rparr>)"
  by (simp add: runtime_def)

lemma needRuntime_set_again: "needRuntime p \<Longrightarrow> p\<lparr>needRuntime := True\<rparr> = p"
  by (cases p) simp

lemma runtime_times_resolved:
  "rt p = Some h \<Longrightarrow> needRuntime p \<Longrightarrow> runtime_times n p = Inr p"
  by (induction n) (simp_all add: runtime_def needRuntime_set_again)

lemma buildPkgs_ModeBuild:
  "buildPkgs compile pkgs ModeBuild fs = Inr fs' \<Longrightarrow> fs' = fs"
  by (induction pkgs arbitrary: fs)
     (auto simp: buildPkg_def needLLFile_def split: if_splits sum.splits)

lemma buildPkgs_paths:
  "mode \<noteq> ModeBuild \<Longrightarrow> buildPkgs compile pkgs mode fs = Inr fs' \<Longrightarrow>
   map fst fs' =
     map fst fs @ map (\<lambda>pkg. ExportFile pkg @ ''.ll'') (filter (\<lambda>pkg. PkgPath pkg \<noteq> ''unsafe'') pkgs)"
  by (induction pkgs arbitrary: fs)
     (auto simp: buildPkg_def needLLFile_def split: if_splits sum.splits)

lemma grows_refl: "grows p p"
  by (simp add: grows_def)

lemma grows_trans: "grows p q \<Longrightarrow> grows q r \<Longrightarrow> grows p r"
  by (simp add: grows_def)

lemma lowered_grows:
  "lowered p q \<Longrightarrow> (\<And>t x. typs p t = Some x \<Longrightarrow> typs q t = Some x) \<Longrightarrow> grows p q"
  by (simp add: lowered_def grows_def)

lemma rawType_grows: "grows p (snd (rawType p t))"
  by (rule lowered_grows) (simp_all add: lowered_rawType_aux(1) typs_kept_aux(1))

lemma rawTypes_grows: "grows p (snd (rawTypes p vs))"
  by (rule lowered_grows) (simp_all add: lowered_rawType_aux(3) typs_kept_aux(3))

lemma Void_grows: "grows p (snd (Void p))"
  by (cases "voidTy p") (simp_all add: Void_def newType_def grows_def)

lemma grows_voidPtr_upd:
  "grows p q \<Longrightarrow> voidPtr p = None \<Longrightarrow> grows p (q\<lparr>voidPtr := v\<rparr>)"
  by (simp add: grows_def)

lemma grows_boolTy_upd:
  "grows p q \<Longrightarrow> boolTy p = None \<Longrightarrow> grows p (q\<lparr>boolTy := v\<rparr>)"
  by (simp add: grows_def)

lemma grows_cstrTy_upd:
  "grows p q \<Longrightarrow> cstrTy p = None \<Longrightarrow> grows p (q\<lparr>cstrTy := v\<rparr>)"
  by (simp add: grows_def)

lemma VoidPtr_grows: "grows p (snd (VoidPtr p))"
  by (cases "voidPtr p")
     (simp_all add: VoidPtr_def split_beta grows_refl grows_voidPtr_upd rawType_grows)

lemma Bool_ty_grows: "grows p (snd (Bool_ty p))"
  by (cases "boolTy p")
     (simp_all add: Bool_ty_def split_beta grows_refl grows_boolTy_upd rawType_grows)

lemma CStr_grows: "grows p (snd (CStr p))"
  by (cases "cstrTy p")
     (simp_all add: CStr_def split_beta grows_refl grows_cstrTy_upd rawType_grows)

lemma VoidPtr_cached: "voidPtr (snd (VoidPtr p)) = Some (fst (VoidPtr p))"
  by (cases "voidPtr p") (simp_all add: VoidPtr_def split_beta)

lemma VoidPtr_hit: "voidPtr p = Some vp \<Longrightarrow> VoidPtr p = (vp, p)"
  by (simp add: VoidPtr_def)

lemma retType_grows: "grows p (snd (retType p rs))"
  by (simp add: retType_def Void_grows rawType_grows split: list.splits)

lemma length_rawTypes: "length (fst (rawTypes p vs)) = length vs"
  by (induction vs arbitrary: p) (auto simp: split_beta)

lemma raw_newType: "raw (fst (newType p l t)) = t"
  by (simp add: newType_def)

lemma typs_okD: "typs_ok p \<Longrightarrow> typs p t = Some ty \<Longrightarrow> raw ty = t"
  unfolding typs_ok_def by blast

lemma typs_ok_newType: "typs_ok p \<Longrightarrow> typs_ok (snd (newType p l t))"
  unfolding typs_ok_def newType_def by simp

lemma typs_ok_upd: "typs_ok q \<Longrightarrow> raw ty = t \<Longrightarrow> typs_ok (q\<lparr>typs := (typs q)(t \<mapsto> ty)\<rparr>)"
  unfolding typs_ok_def by simp

lemma typs_ok_aux:
  "typs_ok p \<Longrightarrow> typs_ok (snd (rawType p t)) \<and> raw (fst (rawType p t)) = t"
  "typs_ok p \<Longrightarrow> typs_ok (snd (toType p t)) \<and> raw (fst (toType p t)) = t"
  "typs_ok p \<Longrightarrow> typs_ok (snd (rawTypes p vs)) \<and> map raw (fst (rawTypes p vs)) = map snd vs"
proof (induction p t and p t and p vs rule: rawType_toType_rawTypes.induct)
  case (1 p t)
  show ?case
  proof (cases "typs p t")
    case None
    from 1(1)[OF None 1(2)] have "typs_ok (snd (toType p t))" and "raw (fst (toType p t)) = t"
      by simp_all
    with None show ?thesis
      by (simp add: rawType.simps split_beta typs_ok_upd)
  next
    case (Some ty)
    with 1(2) show ?thesis by (simp add: rawType.simps typs_okD)
  qed
next
  case (2 p b)
  then show ?case by (simp add: typs_ok_newType raw_newType)
next
  case (3 p path name)
  then show ?case by (simp add: typs_ok_newType raw_newType)
next
  case (4 p e)
  from 4(1)[OF 4(2)] have "typs_ok (snd (rawType p e))" by simp
  then show ?case by (simp add: split_beta typs_ok_newType raw_newType)
next
  case (5 p ps rs)
  have a: "typs_ok (snd (rawTypes p ps))" using 5(1)[OF 5(3)] by simp
  have "typs_ok (snd (rawTypes (snd (rawTypes p ps)) rs))"
    using 5(2)[OF prod.collapse a] by simp
  then show ?case by (simp add: split_beta typs_ok_newType raw_newType)
next
  case (6 p fs)
  from 6(1)[OF 6(2)] have "typs_ok (snd (rawTypes p fs))" by simp
  then show ?case by (simp add: split_beta typs_ok_newType raw_newType)
next
  case (7 p fs)
  from 7(1)[OF 7(2)] have "typs_ok (snd (rawTypes p fs))" by simp
  then show ?case by (simp add: split_beta typs_ok_newType raw_newType)
next
  case (8 p)
  then show ?case by simp
next
  case (9 p name t vs)
  have a: "typs_ok (snd (rawType p t)) \<and> raw (fst (rawType p t)) = t" by (rule 9(1)[OF 9(3)])
  then have "typs_ok (snd (rawTypes (snd (rawType p t)) vs)) \<and>
     map raw (fst (rawTypes (snd (rawType p t)) vs)) = map snd vs"
    using 9(2)[OF prod.collapse] by simp
  with a show ?case by (simp add: split_beta)
qed

lemma upd_absent:
  "f \<notin> fname ` set fs \<Longrightarrow> map (\<lambda>d. if fname d = f then upd d else d) fs = fs"
  by (induction fs) auto

lemma find_append_absent:
  "f \<notin> fname ` set fs \<Longrightarrow> find (\<lambda>d. fname d = f) (fs @ gs) = find (\<lambda>d. fname d = f) gs"
  by (induction fs) auto

lemma find_append_present: "find P fs = Some d \<Longrightarrow> find P (fs @ gs) = Some d"
  by (induction fs) (auto split: if_splits)

lemma find_map_upd:
  "(\<And>d. fname (upd d) = fname d) \<Longrightarrow>
   find (\<lambda>d. fname d = g) (map (\<lambda>d. if fname d = f then upd d else d) fs) =
   map_option (\<lambda>d. if fname d = f then upd d else d) (find (\<lambda>d. fname d = g) fs)"
  by (induction fs) auto

lemma funcNames_updFunction:
  "(\<And>d. fname (upd d) = fname d) \<Longrightarrow> funcNames (updFunction f upd p) = funcNames p"
  by (simp add: funcNames_def updFunction_def comp_def cong: map_cong)

lemma updFunction_frame:
  "fns (updFunction f upd p) = fns p"
  "vars (updFunction f upd p) = vars p"
  "stubs (updFunction f upd p) = stubs p"
  "pyfns (updFunction f upd p) = pyfns p"
  "globalNames (updFunction f upd p) = globalNames p"
  by (simp_all add: updFunction_def globalNames_def)

lemma pkg_inv_updFunction:
  "(\<And>d. fname (upd d) = fname d) \<Longrightarrow> pkg_inv (updFunction f upd p) = pkg_inv p"
  by (simp add: pkg_inv_def funcNames_updFunction updFunction_frame)

lemma pkg_inv_SetLinkage: "pkg_inv (SetLinkage p v l) = pkg_inv p"
  by (simp add: SetLinkage_def pkg_inv_updFunction)

lemma pkg_inv_emit: "pkg_inv (emit p b i) = pkg_inv p"
  by (simp add: emit_def pkg_inv_updFunction)

lemma pkg_inv_SetTailCall: "pkg_inv (SetTailCall p v t) = pkg_inv p"
  by (cases v) (simp_all add: pkg_inv_updFunction)

lemma pkg_inv_stubs_upd: "pkg_inv (p\<lparr>stubs := s\<rparr>) = pkg_inv p"
  by (simp add: pkg_inv_def funcNames_def globalNames_def)

lemma NewFunc_hit: "fns p name = Some fn \<Longrightarrow> NewFunc prog p name sig bg = (fn, prog, p)"
  by (simp add: NewFunc_def)

lemma NewFunc_stores:
  "fns (snd (snd (NewFunc prog p name sig bg))) name = Some (fst (NewFunc prog p name sig bg))"
  by (cases "fns p name") (simp_all add: NewFunc_def split_beta Let_def)

lemma NewFunc_grows: "grows prog (fst (snd (NewFunc prog p name sig bg)))"
proof (cases "fns p name")
  case None
  have "grows prog (snd (rawTypes (snd (rawType prog (Signature (fst sig) (snd sig)))) (fst sig)))"
    by (rule grows_trans [OF rawType_grows rawTypes_grows])
  with None show ?thesis by (simp add: NewFunc_def split_beta Let_def)
next
  case (Some fn)
  then show ?thesis by (simp add: NewFunc_def grows_refl)
qed

lemma NewFunc_pkg_inv: "pkg_inv p \<Longrightarrow> pkg_inv (snd (snd (NewFunc prog p name sig bg)))"
proof (cases "fns p name")
  case None
  assume "pkg_inv p"
  with None show ?thesis
    by (auto simp: NewFunc_def split_beta Let_def pkg_inv_def funcNames_def globalNames_def)
next
  case (Some fn)
  assume "pkg_inv p"
  with Some show ?thesis by (simp add: NewFunc_def)
qed

lemma NewFunc_frame:
  "vars (snd (snd (NewFunc prog p name sig bg))) = vars p"
  "stubs (snd (snd (NewFunc prog p name sig bg))) = stubs p"
  "pyfns (snd (snd (NewFunc prog p name sig bg))) = pyfns p"
  by (cases "fns p name"; simp add: NewFunc_def split_beta Let_def)+

lemma NewVar_hit: "vars p name = Some g \<Longrightarrow> NewVar prog p name typ bg = (g, prog, p)"
  by (simp add: NewVar_def)

lemma NewVar_stores:
  "vars (snd (snd (NewVar prog p name typ bg))) name = Some (fst (NewVar prog p name typ bg))"
  by (cases "vars p name") (simp_all add: NewVar_def split_beta Let_def)

lemma NewVar_grows: "grows prog (fst (snd (NewVar prog p name typ bg)))"
  by (cases "vars p name") (simp_all add: NewVar_def split_beta Let_def grows_refl rawType_grows)

lemma NewVar_pkg_inv: "pkg_inv p \<Longrightarrow> pkg_inv (snd (snd (NewVar prog p name typ bg)))"
proof (cases "vars p name")
  case None
  assume "pkg_inv p"
  with None show ?thesis
    by (auto simp: NewVar_def split_beta Let_def pkg_inv_def funcNames_def globalNames_def)
next
  case (Some g)
  assume "pkg_inv p"
  with Some show ?thesis by (simp add: NewVar_def)
qed

lemma Call_pkg_inv: "Call prog p b fn args = Inr (r, prog', p') \<Longrightarrow> pkg_inv p' = pkg_inv p"
  by (auto simp: Call_def split_beta pkg_inv_emit split: gotype.splits option.splits)

lemma Call_grows: "Call prog p b fn args = Inr (r, prog', p') \<Longrightarrow> grows prog prog'"
  by (auto simp: Call_def split_beta retType_grows split: gotype.splits option.splits)

lemma Call_frame:
  "Call prog p b fn args = Inr (r, prog', p') \<Longrightarrow>
   fns p' = fns p \<and> vars p' = vars p \<and> stubs p' = stubs p \<and> pyfns p' = pyfns p"
  by (auto simp: Call_def split_beta emit_def updFunction_frame split: gotype.splits option.splits)

lemma stubArgs_ok:
  "(\<And>i. i \<in> set is \<Longrightarrow> Suc i < length (params fn)) \<Longrightarrow>
   stubArgs fn is =
     Inr (map (\<lambda>i. \<lparr>impl = ParamValue (valueName (impl (fnExpr fn))) (Suc i),
                       Type = params fn ! Suc i\<rparr>) is)"
  by (induction "is") (simp_all add: Param_def)

lemma updFunction_last:
  assumes "f \<notin> fname ` set fs" "fname d = f" "funcs (llmod q) = fs @ [d]"
  shows "updFunction f upd q = q\<lparr>llmod := (llmod q)\<lparr>funcs := fs @ [upd d]\<rparr>\<rparr>"
  using assms by (simp add: updFunction_def upd_absent)

lemma findFunction_last:
  assumes "f \<notin> fname ` set fs" "fname d = f" "funcs (llmod q) = fs @ [d]"
  shows "findFunction (llmod q) f = Some d"
  using assms by (simp add: findFunction_def find_append_absent)

lemma NewFunc_miss:
  assumes "fns p name = None" "NewFunc prog p name sig bg = (fn, prog2, p2)"
  shows "impl (fnExpr fn) = FuncValue name"
    and "length (params fn) = length (fst sig)"
    and "Type (fnExpr fn) = fst (rawType prog (Signature (fst sig) (snd sig)))"
    and "p2 = p\<lparr>llmod := (llmod p)\<lparr>funcs := funcs (llmod p) @
                  [\<lparr>fname = name, ftype = ll (Type (fnExpr fn)),
                    flinkage = ExternalLinkage, fbody = []\<rparr>]\<rparr>,
                 fns := (fns p)(name \<mapsto> fn)\<rparr>"
  using assms by (auto simp: NewFunc_def split_beta Let_def length_rawTypes)

lemma closureStub_else_fresh:
  assumes fresh: "ClosureStub @ name \<notin> set (funcNames p)" "fns p (ClosureStub @ name) = None"
    and v: "raw (Type v) = Signature ps rs"
    and len: "ps = [] \<or> length ps < length (fst (addCtx (ClosureCtx, Typ UnsafePointer) (ps, rs)))"
    and nf: "NewFunc prog p (ClosureStub @ name) (addCtx (ClosureCtx, Typ UnsafePointer) (ps, rs)) InC
               = (fn, prog2, p2)"
  shows "closureStub_else addCtx prog p name v ps rs =
     Inr (fnExpr fn, snd (retType prog2 rs),
          p\<lparr>llmod := (llmod p)\<lparr>funcs := funcs (llmod p) @
                 [\<lparr>fname = ClosureStub @ name, ftype = ll (Type (fnExpr fn)),
                   flinkage = LinkOnceAnyLinkage,
                   fbody = [CallInst (impl v)
                              (map (ParamValue (ClosureStub @ name)) [1..<Suc (length ps)]) True,
                            if rs = [] then RetVoidInst
                            else RetInst (InstrValue (ClosureStub @ name) 0)]\<rparr>]\<rparr>,
             fns := (fns p)(ClosureStub @ name \<mapsto> fn),
             stubs := (stubs p)(name \<mapsto> fn)\<rparr>)"
proof -
  let ?sn = "ClosureStub @ name"
  let ?fs = "funcs (llmod p)"
  note m = NewFunc_miss [OF fresh(2) nf]
  have absent: "?sn \<notin> fname ` set ?fs" using fresh(1) by (simp add: funcNames_def)
  have args: "stubArgs fn [0..<length ps] =
     Inr (map (\<lambda>i. \<lparr>impl = ParamValue ?sn (Suc i), Type = params fn ! Suc i\<rparr>) [0..<length ps])"
    using stubArgs_ok [of "[0..<length ps]" fn] len m(1,2) by auto
  let ?d0 = "\<lparr>fname = ?sn, ftype = ll (Type (fnExpr fn)), flinkage = ExternalLinkage, fbody = []\<rparr>"
  let ?d1 = "\<lparr>fname = ?sn, ftype = ll (Type (fnExpr fn)), flinkage = LinkOnceAnyLinkage, fbody = []\<rparr>"
  have p3: "SetLinkage p2 (impl (fnExpr fn)) LinkOnceAnyLinkage =
            p2\<lparr>llmod := (llmod p2)\<lparr>funcs := ?fs @ [?d1]\<rparr>\<rparr>"
    unfolding SetLinkage_def m(1) valueName.simps
    by (subst updFunction_last [OF absent, of ?d0]) (simp_all add: m(4))
  let ?p3 = "p2\<lparr>llmod := (llmod p2)\<lparr>funcs := ?fs @ [?d1]\<rparr>\<rparr>"
  let ?c = "CallInst (impl v) (map (ParamValue ?sn) [1..<Suc (length ps)])"
  let ?d2 = "\<lparr>fname = ?sn, ftype = ll (Type (fnExpr fn)), flinkage = LinkOnceAnyLinkage,
              fbody = [?c False]\<rparr>"
  let ?p4 = "p2\<lparr>llmod := (llmod p2)\<lparr>funcs := ?fs @ [?d2]\<rparr>\<rparr>"
  have mapargs: "map (impl \<circ> (\<lambda>i. \<lparr>impl = ParamValue ?sn (Suc i), Type = params fn ! Suc i\<rparr>))
                    [0..<length ps] = map (ParamValue ?sn) [Suc 0..<Suc (length ps)]"
    by (simp add: comp_def map_Suc_upt [symmetric] del: upt_Suc)
  have call: "Call prog2 ?p3 (MakeBody fn 1) v
                (map (\<lambda>i. \<lparr>impl = ParamValue ?sn (Suc i), Type = params fn ! Suc i\<rparr>) [0..<length ps])
              = Inr (\<lparr>impl = InstrValue ?sn 0, Type = fst (retType prog2 rs)\<rparr>,
                     snd (retType prog2 rs), ?p4)"
    unfolding Call_def v gotype.case MakeBody_def emit_def aBuilder.simps m(1) valueName.simps
    apply (subst findFunction_last [OF absent, of ?d1])
      apply simp
     apply simp
    apply (subst updFunction_last [OF absent, of ?d1])
      apply simp
     apply simp
    apply (simp add: split_beta mapargs del: upt_Suc)
    done
  let ?d3 = "\<lparr>fname = ?sn, ftype = ll (Type (fnExpr fn)), flinkage = LinkOnceAnyLinkage,
              fbody = [?c True]\<rparr>"
  let ?p5 = "p2\<lparr>llmod := (llmod p2)\<lparr>funcs := ?fs @ [?d3]\<rparr>\<rparr>"
  have p5: "SetTailCall ?p4 (InstrValue ?sn 0) True = ?p5"
    unfolding SetTailCall.simps
    by (subst updFunction_last [OF absent, of ?d2]) simp_all
  have p6: "emit ?p5 (MakeBody fn 1) i =
            p2\<lparr>llmod := (llmod p2)\<lparr>funcs := ?fs @
              [\<lparr>fname = ?sn, ftype = ll (Type (fnExpr fn)), flinkage = LinkOnceAnyLinkage,
                fbody = [?c True, i]\<rparr>]\<rparr>\<rparr>" for i
    unfolding emit_def MakeBody_def aBuilder.simps m(1) valueName.simps
    by (subst updFunction_last [OF absent, of ?d3]) simp_all
  show ?thesis
    unfolding closureStub_else_def Let_def nf prod.case p3 args sum.case call p5 Expr.simps p6
    by (simp add: m(4))
qed

lemma emit_frame:
  "fns (emit p b i) = fns p" "vars (emit p b i) = vars p"
  "stubs (emit p b i) = stubs p" "pyfns (emit p b i) = pyfns p"
  by (simp_all add: emit_def updFunction_frame)

lemma SetTailCall_frame:
  "fns (SetTailCall p v t) = fns p" "vars (SetTailCall p v t) = vars p"
  "stubs (SetTailCall p v t) = stubs p" "pyfns (SetTailCall p v t) = pyfns p"
  by (cases v; simp add: updFunction_frame)+

lemma SetLinkage_frame:
  "fns (SetLinkage p v l) = fns p" "vars (SetLinkage p v l) = vars p"
  "stubs (SetLinkage p v l) = stubs p" "pyfns (SetLinkage p v l) = pyfns p"
  by (simp_all add: SetLinkage_def updFunction_frame)

lemma closureStub_else_Inr:
  assumes "closureStub_else addCtx prog p name v ps rs = Inr (e, prog', p')"
  shows "\<exists>fn. e = fnExpr fn \<and> stubs p' = (stubs p)(name \<mapsto> fn)"
    and "grows prog prog'"
    and "pkg_inv p \<Longrightarrow> pkg_inv p'"
    and "vars p' = vars p" and "pyfns p' = pyfns p"
proof -
  let ?nf = "NewFunc prog p (ClosureStub @ name) (addCtx (ClosureCtx, Typ UnsafePointer) (ps, rs)) InC"
  let ?fn = "fst ?nf"
  let ?p3 = "SetLinkage (snd (snd ?nf)) (impl (fnExpr ?fn)) LinkOnceAnyLinkage"
  from assms obtain args where a: "stubArgs ?fn [0..<length ps] = Inr args"
    by (auto simp: closureStub_else_def Let_def split_beta split: sum.splits)
  from assms a obtain call p4 where
    c: "Call (fst (snd ?nf)) ?p3 (MakeBody ?fn 1) v args = Inr (call, prog', p4)"
    and e: "e = fnExpr ?fn"
    and p': "p' = (if length rs = 0 then emit (SetTailCall p4 (impl call) True) (MakeBody ?fn 1) RetVoidInst
                   else emit (SetTailCall p4 (impl call) True) (MakeBody ?fn 1) (RetInst (impl call)))
                  \<lparr>stubs := (stubs (if length rs = 0
                       then emit (SetTailCall p4 (impl call) True) (MakeBody ?fn 1) RetVoidInst
                       else emit (SetTailCall p4 (impl call) True) (MakeBody ?fn 1) (RetInst (impl call))))
                     (name \<mapsto> ?fn)\<rparr>"
    by (auto simp: closureStub_else_def Let_def split_beta split: sum.splits)
  note cf = Call_frame [OF c]
  from p' cf show "\<exists>fn. e = fnExpr fn \<and> stubs p' = (stubs p)(name \<mapsto> fn)"
    by (auto simp: e emit_frame SetTailCall_frame SetLinkage_frame NewFunc_frame)
  show "grows prog prog'"
    by (rule grows_trans [OF NewFunc_grows Call_grows [OF c]])
  from p' cf show "vars p' = vars p"
    by (auto simp: emit_frame SetTailCall_frame SetLinkage_frame NewFunc_frame)
  from p' cf show "pyfns p' = pyfns p"
    by (auto simp: emit_frame SetTailCall_frame SetLinkage_frame NewFunc_frame)
  assume "pkg_inv p"
  then have "pkg_inv ?p3" by (simp add: pkg_inv_SetLinkage NewFunc_pkg_inv)
  with Call_pkg_inv [OF c] have "pkg_inv p4" by simp
  with p' show "pkg_inv p'"
    by (auto simp: pkg_inv_stubs_upd pkg_inv_emit pkg_inv_SetTailCall)
qed

lemma closureStub_hit:
  "stubs p (valueName (impl v)) = Some fn \<Longrightarrow>
   closureStub addCtx prog p b t v =
     Inr (aggregateValue (fst (rawType (snd (VoidPtr prog)) t))
            [impl (fnExpr fn), impl (Null (fst (VoidPtr prog)))],
          snd (rawType (snd (VoidPtr prog)) t), p)"
  by (simp add: closureStub_def Let_def split_beta)

lemma closureStub_miss:
  "stubs p (valueName (impl v)) = None \<Longrightarrow> raw (Type v) = Signature ps rs \<Longrightarrow>
   closureStub addCtx prog p b t v =
     (case closureStub_else addCtx (snd (VoidPtr prog)) p (valueName (impl v)) v ps rs of
        Inl e \<Rightarrow> Inl e
      | Inr (v', prog4, p7) \<Rightarrow>
          Inr (aggregateValue (fst (rawType prog4 t)) [impl v', impl (Null (fst (VoidPtr prog)))],
               snd (rawType prog4 t), p7))"
  by (simp add: closureStub_def Let_def split_beta split: sum.splits)

lemma closureStub_miss_not_sig:
  "stubs p (valueName (impl v)) = None \<Longrightarrow> closureStub addCtx prog p b t v = Inr r \<Longrightarrow>
   \<exists>ps rs. raw (Type v) = Signature ps rs"
  by (cases "raw (Type v)") (simp_all add: closureStub_def Let_def split_beta)

lemma grows_voidPtr: "grows p q \<Longrightarrow> voidPtr p = Some x \<Longrightarrow> voidPtr q = Some x"
  by (simp add: grows_def)

lemma reuse_types:
  assumes "grows (snd (VoidPtr prog)) prog4"
  shows "VoidPtr (snd (rawType prog4 t)) = (fst (VoidPtr prog), snd (rawType prog4 t))"
    and "rawType (snd (rawType prog4 t)) t = (fst (rawType prog4 t), snd (rawType prog4 t))"
proof -
  have "grows (snd (VoidPtr prog)) (snd (rawType prog4 t))"
    by (rule grows_trans [OF assms rawType_grows])
  then have "voidPtr (snd (rawType prog4 t)) = Some (fst (VoidPtr prog))"
    by (rule grows_voidPtr) (rule VoidPtr_cached)
  then show "VoidPtr (snd (rawType prog4 t)) = (fst (VoidPtr prog), snd (rawType prog4 t))"
    by (rule VoidPtr_hit)
  have "typs (snd (rawType prog4 t)) t = Some (fst (rawType prog4 t))"
    by (rule rawType_stores) simp
  then show "rawType (snd (rawType prog4 t)) t = (fst (rawType prog4 t), snd (rawType prog4 t))"
    by (rule rawType_hit)
qed

lemma closureStub_again:
  assumes "closureStub addCtx prog p b t v = Inr (e, prog', p')"
  shows "closureStub addCtx' prog' p' b' t v = Inr (e, prog', p')"
proof (cases "stubs p (valueName (impl v))")
  case (Some fn)
  from assms have e: "e = aggregateValue (fst (rawType (snd (VoidPtr prog)) t))
            [impl (fnExpr fn), impl (Null (fst (VoidPtr prog)))]"
    and prog': "prog' = snd (rawType (snd (VoidPtr prog)) t)" and p': "p' = p"
    by (simp_all add: closureStub_hit [OF Some])
  show ?thesis
    unfolding p' closureStub_hit [OF Some] prog' e
    by (simp add: reuse_types [OF grows_refl])
next
  case None
  from closureStub_miss_not_sig [OF None assms] obtain ps rs
    where sig: "raw (Type v) = Signature ps rs" by blast
  note eq = closureStub_miss [OF None sig, of addCtx prog b t]
  from assms eq obtain v' prog4 where
    el: "closureStub_else addCtx (snd (VoidPtr prog)) p (valueName (impl v)) v ps rs = Inr (v', prog4, p')"
    and e: "e = aggregateValue (fst (rawType prog4 t)) [impl v', impl (Null (fst (VoidPtr prog)))]"
    and prog': "prog' = snd (rawType prog4 t)"
    by (auto split: sum.splits)
  from closureStub_else_Inr(1) [OF el] obtain fn where
    v': "v' = fnExpr fn" and st: "stubs p' (valueName (impl v)) = Some fn" by auto
  note g = closureStub_else_Inr(2) [OF el]
  show ?thesis
    unfolding closureStub_hit [OF st] prog' e v'
    by (simp add: reuse_types [OF g])
qed

lemma closureStub_frames:
  assumes "closureStub addCtx prog p b t v = Inr (e, prog', p')"
  shows "grows prog prog'" and "pkg_inv p \<Longrightarrow> pkg_inv p'"
    and "vars p' = vars p" and "pyfns p' = pyfns p"
    and "\<exists>fn. stubs p' (valueName (impl v)) = Some fn \<and>
              (stubs p' = stubs p \<or> stubs p' = (stubs p)(valueName (impl v) \<mapsto> fn))"
proof -
  have all: "grows prog prog' \<and> (pkg_inv p \<longrightarrow> pkg_inv p') \<and> vars p' = vars p \<and> pyfns p' = pyfns p \<and>
     (\<exists>fn. stubs p' (valueName (impl v)) = Some fn \<and>
              (stubs p' = stubs p \<or> stubs p' = (stubs p)(valueName (impl v) \<mapsto> fn)))"
  proof (cases "stubs p (valueName (impl v))")
    case (Some fn)
    from assms have prog': "prog' = snd (rawType (snd (VoidPtr prog)) t)" and p': "p' = p"
      by (simp_all add: closureStub_hit [OF Some])
    have "grows prog prog'" unfolding prog'
      by (rule grows_trans [OF VoidPtr_grows rawType_grows])
    with Some p' show ?thesis by simp
  next
    case None
    from closureStub_miss_not_sig [OF None assms] obtain ps rs
      where sig: "raw (Type v) = Signature ps rs" by blast
    note eq = closureStub_miss [OF None sig, of addCtx prog b t]
    from assms eq obtain v' prog4 where
      el: "closureStub_else addCtx (snd (VoidPtr prog)) p (valueName (impl v)) v ps rs = Inr (v', prog4, p')"
      and prog': "prog' = snd (rawType prog4 t)"
      by (auto split: sum.splits)
    note f = closureStub_else_Inr [OF el]
    have "grows prog prog'" unfolding prog'
      by (rule grows_trans [OF VoidPtr_grows grows_trans [OF f(2) rawType_grows]])
    with f(1,3,4,5) show ?thesis by auto
  qed
  then show "grows prog prog'" and "pkg_inv p \<Longrightarrow> pkg_inv p'"
    and "vars p' = vars p" and "pyfns p' = pyfns p"
    and "\<exists>fn. stubs p' (valueName (impl v)) = Some fn \<and>
              (stubs p' = stubs p \<or> stubs p' = (stubs p)(valueName (impl v) \<mapsto> fn))"
    by blast+
qed

lemma same_flags_refl: "same_flags p p"
  by (simp add: same_flags_def)

lemma same_flags_trans: "same_flags p q \<Longrightarrow> same_flags q r \<Longrightarrow> same_flags p r"
  by (simp add: same_flags_def)

lemma grows_same_flags: "grows p q \<Longrightarrow> same_flags p q"
  by (simp add: grows_def same_flags_def)

lemma python_same_flags: "python p = Inr (h, p') \<Longrightarrow> same_flags p p'"
  by (auto simp: python_def same_flags_def split: option.splits)

lemma python_typs: "python p = Inr (h, p') \<Longrightarrow> typs p' = typs p"
  by (auto simp: python_def split: option.splits)

lemma pyNamed_same_flags: "pyNamed p name = Inr (t, p') \<Longrightarrow> same_flags p p'"
  by (auto simp: pyNamed_def split: sum.splits option.splits gotype.splits
           dest: python_same_flags)

lemma pyNamed_typs: "pyNamed p name = Inr (t, p') \<Longrightarrow> typs p' = typs p"
  by (auto simp: pyNamed_def split: sum.splits option.splits gotype.splits
           dest: python_typs)

lemma typs_ok_cong: "typs q = typs p \<Longrightarrow> typs_ok q = typs_ok p"
  unfolding typs_ok_def by simp

lemma typs_ok_fields:
  "typs_ok (p\<lparr>pyObjPtr := a\<rparr>) = typs_ok p"
  "typs_ok (p\<lparr>pyImpTy := b\<rparr>) = typs_ok p"
  "typs_ok (p\<lparr>callNoArg := b\<rparr>) = typs_ok p"
  "typs_ok (p\<lparr>callOneArg := b\<rparr>) = typs_ok p"
  "typs_ok (p\<lparr>needPyInit := c\<rparr>) = typs_ok p"
  by (rule typs_ok_cong, simp)+

lemma PyObjectPtr_miss:
  "pyObjPtr p = None \<Longrightarrow>
   PyObjectPtr p =
     (case pyNamed p ''Object'' of
        Inl e \<Rightarrow> Inl e
      | Inr x \<Rightarrow> Inr (fst (rawType (snd x) (Pointer (fst x))),
                       (snd (rawType (snd x) (Pointer (fst x))))
                         \<lparr>pyObjPtr := Some (fst (rawType (snd x) (Pointer (fst x))))\<rparr>))"
  by (simp add: PyObjectPtr_def split_beta split: sum.splits)

lemma PyObjectPtr_Inr:
  assumes "PyObjectPtr p = Inr (ty, p')"
  shows "same_flags p p' \<and> (typs_ok p \<longrightarrow> typs_ok p')"
proof (cases "pyObjPtr p")
  case None
  show ?thesis
  proof (cases "pyNamed p ''Object''")
    case (Inl a)
    with assms None show ?thesis by (simp add: PyObjectPtr_miss)
  next
    case (Inr x)
    with assms None have p': "p' = (snd (rawType (snd x) (Pointer (fst x))))\<lparr>pyObjPtr := Some ty\<rparr>"
      by (auto simp add: PyObjectPtr_miss)
    from Inr have n: "pyNamed p ''Object'' = Inr (fst x, snd x)" by simp
    have "same_flags (snd x) (snd (rawType (snd x) (Pointer (fst x))))"
      by (rule grows_same_flags [OF rawType_grows])
    with pyNamed_same_flags [OF n] have sf: "same_flags p p'" by (simp add: p' same_flags_def)
    have "typs_ok p \<Longrightarrow> typs_ok p'"
    proof -
      assume "typs_ok p"
      with typs_ok_cong [OF pyNamed_typs [OF n]] have "typs_ok (snd x)" by simp
      then have "typs_ok (snd (rawType (snd x) (Pointer (fst x))))" by (simp add: typs_ok_aux(1))
      then show "typs_ok p'" by (simp add: p' typs_ok_fields)
    qed
    with sf show ?thesis by blast
  qed
next
  case (Some a)
  with assms show ?thesis by (simp add: PyObjectPtr_def same_flags_refl)
qed

lemma tyImportPyModule_miss:
  "pyImpTy p = None \<Longrightarrow>
   tyImportPyModule p =
     (case PyObjectPtr p of
        Inl e \<Rightarrow> Inl e
      | Inr x \<Rightarrow> Inr (([([], Pointer (Typ Int8))], [([], raw (fst x))]),
                       (snd x)\<lparr>pyImpTy := Some ([([], Pointer (Typ Int8))], [([], raw (fst x))])\<rparr>))"
  by (simp add: tyImportPyModule_def Let_def split_beta split: sum.splits)

lemma tyCallNoArg_miss:
  "callNoArg p = None \<Longrightarrow>
   tyCallNoArg p =
     (case PyObjectPtr p of
        Inl e \<Rightarrow> Inl e
      | Inr x \<Rightarrow> Inr (([([], raw (fst x))], [([], raw (fst x))]),
                       (snd x)\<lparr>callNoArg := Some ([([], raw (fst x))], [([], raw (fst x))])\<rparr>))"
  by (simp add: tyCallNoArg_def Let_def split_beta split: sum.splits)

lemma tyCallOneArg_miss:
  "callOneArg p = None \<Longrightarrow>
   tyCallOneArg p =
     (case PyObjectPtr p of
        Inl e \<Rightarrow> Inl e
      | Inr x \<Rightarrow> Inr (([([], raw (fst x)), ([], raw (fst x))], [([], raw (fst x))]),
                       (snd x)\<lparr>callOneArg :=
                           Some ([([], raw (fst x)), ([], raw (fst x))], [([], raw (fst x))])\<rparr>))"
  by (simp add: tyCallOneArg_def Let_def split_beta split: sum.splits)

lemma tyImportPyModule_Inr:
  assumes "tyImportPyModule p = Inr (sig, p')"
  shows "same_flags p p' \<and> (typs_ok p \<longrightarrow> typs_ok p')"
proof (cases "pyImpTy p")
  case None
  show ?thesis
  proof (cases "PyObjectPtr p")
    case (Inl a)
    with assms None show ?thesis by (simp add: tyImportPyModule_miss)
  next
    case (Inr x)
    with assms None have p': "p' = (snd x)\<lparr>pyImpTy := Some sig\<rparr>"
      by (auto simp add: tyImportPyModule_miss)
    from Inr have "PyObjectPtr p = Inr (fst x, snd x)" by simp
    from PyObjectPtr_Inr [OF this] show ?thesis by (simp add: p' same_flags_def typs_ok_fields)
  qed
next
  case (Some a)
  with assms show ?thesis by (simp add: tyImportPyModule_def same_flags_refl)
qed

lemma tyCallNoArg_Inr:
  assumes "tyCallNoArg p = Inr (sig, p')"
  shows "same_flags p p' \<and> (typs_ok p \<longrightarrow> typs_ok p')"
proof (cases "callNoArg p")
  case None
  show ?thesis
  proof (cases "PyObjectPtr p")
    case (Inl a)
    with assms None show ?thesis by (simp add: tyCallNoArg_miss)
  next
    case (Inr x)
    with assms None have p': "p' = (snd x)\<lparr>callNoArg := Some sig\<rparr>"
      by (auto simp add: tyCallNoArg_miss)
    from Inr have "PyObjectPtr p = Inr (fst x, snd x)" by simp
    from PyObjectPtr_Inr [OF this] show ?thesis by (simp add: p' same_flags_def typs_ok_fields)
  qed
next
  case (Some a)
  with assms show ?thesis by (simp add: tyCallNoArg_def same_flags_refl)
qed

lemma tyCallOneArg_Inr:
  assumes "tyCallOneArg p = Inr (sig, p')"
  shows "same_flags p p' \<and> (typs_ok p \<longrightarrow> typs_ok p')"
proof (cases "callOneArg p")
  case None
  show ?thesis
  proof (cases "PyObjectPtr p")
    case (Inl a)
    with assms None show ?thesis by (simp add: tyCallOneArg_miss)
  next
    case (Inr x)
    with assms None have p': "p' = (snd x)\<lparr>callOneArg := Some sig\<rparr>"
      by (auto simp add: tyCallOneArg_miss)
    from Inr have "PyObjectPtr p = Inr (fst x, snd x)" by simp
    from PyObjectPtr_Inr [OF this] show ?thesis by (simp add: p' same_flags_def typs_ok_fields)
  qed
next
  case (Some a)
  with assms show ?thesis by (simp add: tyCallOneArg_def same_flags_refl)
qed

lemma tyCallNoArg_ok:
  assumes "PyObjectPtr p = Inr (ty, p1)"
  shows "\<exists>sig p'. tyCallNoArg p = Inr (sig, p')"
  using assms by (cases "callNoArg p") (simp_all add: tyCallNoArg_def Let_def)

lemma tyCallOneArg_ok:
  assumes "PyObjectPtr p = Inr (ty, p1)"
  shows "\<exists>sig p'. tyCallOneArg p = Inr (sig, p')"
  using assms by (cases "callOneArg p") (simp_all add: tyCallOneArg_def Let_def)

lemma needPyInit_set_again: "needPyInit p \<Longrightarrow> p\<lparr>needPyInit := True\<rparr> = p"
  by (cases p) simp

lemma pyFunc_eq:
  "pyFunc prog p name sig =
     (fnExpr (fst (NewFunc (prog\<lparr>needPyInit := True\<rparr>) p name sig InC)),
      snd (NewFunc (prog\<lparr>needPyInit := True\<rparr>) p name sig InC))"
  by (simp add: pyFunc_def split_beta)

lemma pyFunc_flags:
  "needPyInit (fst (snd (pyFunc prog p name sig)))"
  "needRuntime (fst (snd (pyFunc prog p name sig))) = needRuntime prog"
  using NewFunc_grows [of "prog\<lparr>needPyInit := True\<rparr>" p name sig InC]
  by (simp_all add: pyFunc_eq grows_def)

lemma pyFunc_pkg_inv: "pkg_inv p \<Longrightarrow> pkg_inv (snd (snd (pyFunc prog p name sig)))"
  by (simp add: pyFunc_eq NewFunc_pkg_inv)

lemma pyFunc_again:
  assumes "pyFunc prog p name sig = (e, prog', p')"
  shows "pyFunc prog' p' name sig' = (e, prog', p')"
proof -
  let ?nf = "NewFunc (prog\<lparr>needPyInit := True\<rparr>) p name sig InC"
  from assms have e: "e = fnExpr (fst ?nf)" and prog': "prog' = fst (snd ?nf)" and p': "p' = snd (snd ?nf)"
    by (simp_all add: pyFunc_eq)
  have st: "fns p' name = Some (fst ?nf)" unfolding p' by (rule NewFunc_stores)
  have "needPyInit prog'" using pyFunc_flags(1) [of prog p name sig] assms by simp
  then have "prog'\<lparr>needPyInit := True\<rparr> = prog'" by (rule needPyInit_set_again)
  then show ?thesis by (simp add: pyFunc_eq NewFunc_hit [OF st] e)
qed

lemma Builder_CStr_grows: "grows prog (snd (Builder_CStr prog v))"
  by (simp add: Builder_CStr_def split_beta CStr_grows)

lemma pyCall_todo:
  "raw (Type fn) = Signature ps rs \<Longrightarrow> 2 \<le> length ps \<Longrightarrow>
   pyCall prog pkg b fn args = Inl (Panic ''todo'')"
  by (cases ps) (auto simp: pyCall_def Let_def)

lemma pyCall_0:
  "raw (Type fn) = Signature [] rs \<Longrightarrow>
   pyCall prog pkg b fn args =
     (case tyCallNoArg prog of
        Inl e \<Rightarrow> Inl e
      | Inr x \<Rightarrow>
          Call (fst (snd (pyFunc (snd x) pkg ''PyObject_CallNoArg'' (fst x))))
               (snd (snd (pyFunc (snd x) pkg ''PyObject_CallNoArg'' (fst x)))) b
               (fst (pyFunc (snd x) pkg ''PyObject_CallNoArg'' (fst x))) [fn])"
  by (simp add: pyCall_def Let_def split_beta split: sum.splits)

lemma pyCall_1:
  "raw (Type fn) = Signature [q] rs \<Longrightarrow>
   pyCall prog pkg b fn args =
     (case tyCallOneArg prog of
        Inl e \<Rightarrow> Inl e
      | Inr x \<Rightarrow>
          (case args of
             [] \<Rightarrow> Inl IndexOutOfRange
           | a # as \<Rightarrow>
               Call (fst (snd (pyFunc (snd x) pkg ''PyObject_CallOneArg'' (fst x))))
                    (snd (snd (pyFunc (snd x) pkg ''PyObject_CallOneArg'' (fst x)))) b
                    (fst (pyFunc (snd x) pkg ''PyObject_CallOneArg'' (fst x))) [fn, a]))"
  by (simp add: pyCall_def Let_def split_beta split: sum.splits list.splits)

lemma pyCall_not_sig:
  "pyCall prog pkg b fn args = Inr r \<Longrightarrow> \<exists>ps rs. raw (Type fn) = Signature ps rs \<and> length ps < 2"
  by (cases "raw (Type fn)") (auto simp: pyCall_def Let_def split: if_splits)

lemma pyFunc_fns:
  "fns (snd (snd (pyFunc prog p name sig))) name \<noteq> None"
  by (simp add: pyFunc_eq NewFunc_stores)

lemma thunk_call_Inr:
  assumes c: "Call (fst (snd (pyFunc q pkg name sig))) (snd (snd (pyFunc q pkg name sig))) b
                (fst (pyFunc q pkg name sig)) as = Inr (r, prog', pkg')"
    and q: "same_flags prog q"
  shows "needPyInit prog' \<and> needRuntime prog' = needRuntime prog \<and>
         (pkg_inv pkg \<longrightarrow> pkg_inv pkg') \<and> fns pkg' name \<noteq> None"
proof -
  have "same_flags (fst (snd (pyFunc q pkg name sig))) prog'"
    by (rule grows_same_flags [OF Call_grows [OF c]])
  with pyFunc_flags [of q pkg name sig] q
  have "needPyInit prog' \<and> needRuntime prog' = needRuntime prog"
    by (simp add: same_flags_def)
  moreover have "pkg_inv pkg \<longrightarrow> pkg_inv pkg'"
    using Call_pkg_inv [OF c] pyFunc_pkg_inv [of pkg q name sig] by simp
  moreover have "fns pkg' name \<noteq> None"
    using Call_frame [OF c] pyFunc_fns [of q pkg name sig] by simp
  ultimately show ?thesis by blast
qed

lemma pyCall_Inr:
  assumes "pyCall prog pkg b fn args = Inr (r, prog', pkg')"
    and sig: "raw (Type fn) = Signature ps rs"
  shows "length ps < 2 \<and> needPyInit prog' \<and> needRuntime prog' = needRuntime prog \<and>
         (pkg_inv pkg \<longrightarrow> pkg_inv pkg') \<and> fns pkg' (thunkName (length ps)) \<noteq> None"
proof -
  from pyCall_not_sig [OF assms(1)] sig have len: "length ps < 2" by simp
  show ?thesis
  proof (cases ps)
    case Nil
    note eq = pyCall_0 [OF sig [unfolded Nil], of prog pkg b args]
    show ?thesis
    proof (cases "tyCallNoArg prog")
      case (Inl a)
      with assms(1) eq show ?thesis by simp
    next
      case (Inr x)
      then have "tyCallNoArg prog = Inr (fst x, snd x)" by simp
      from tyCallNoArg_Inr [OF this] have sf: "same_flags prog (snd x)" by simp
      from assms(1) eq Inr
      have "Call (fst (snd (pyFunc (snd x) pkg ''PyObject_CallNoArg'' (fst x))))
               (snd (snd (pyFunc (snd x) pkg ''PyObject_CallNoArg'' (fst x)))) b
               (fst (pyFunc (snd x) pkg ''PyObject_CallNoArg'' (fst x))) [fn] = Inr (r, prog', pkg')"
        by simp
      from thunk_call_Inr [OF this sf] Nil show ?thesis by (simp add: thunkName_def)
    qed
  next
    case (Cons q qs)
    with len have ps: "ps = [q]" by simp
    note eq = pyCall_1 [OF sig [unfolded ps], of prog pkg b args]
    show ?thesis
    proof (cases "tyCallOneArg prog")
      case (Inl a)
      with assms(1) eq show ?thesis by simp
    next
      case (Inr x)
      then have "tyCallOneArg prog = Inr (fst x, snd x)" by simp
      from tyCallOneArg_Inr [OF this] have sf: "same_flags prog (snd x)" by simp
      show ?thesis
      proof (cases args)
        case Nil
        with assms(1) eq Inr show ?thesis by simp
      next
        case (Cons a as)
        with assms(1) eq Inr
        have "Call (fst (snd (pyFunc (snd x) pkg ''PyObject_CallOneArg'' (fst x))))
                 (snd (snd (pyFunc (snd x) pkg ''PyObject_CallOneArg'' (fst x)))) b
                 (fst (pyFunc (snd x) pkg ''PyObject_CallOneArg'' (fst x))) [fn, a] = Inr (r, prog', pkg')"
          by simp
        from thunk_call_Inr [OF this sf] ps show ?thesis by (simp add: thunkName_def)
      qed
    qed
  qed
qed

lemma ImportPyMod_Inr:
  assumes "ImportPyMod prog pkg b path = Inr (r, prog', pkg')"
  shows "needPyInit prog' \<and> needRuntime prog' = needRuntime prog \<and> (pkg_inv pkg \<longrightarrow> pkg_inv pkg')"
proof (cases "tyImportPyModule prog")
  case (Inl a)
  with assms show ?thesis by (simp add: ImportPyMod_def)
next
  case (Inr x)
  let ?pf = "pyFunc (snd x) pkg ''PyImport_ImportModule'' (fst x)"
  let ?cs = "Builder_CStr (fst (snd ?pf)) path"
  from Inr have "tyImportPyModule prog = Inr (fst x, snd x)" by simp
  from tyImportPyModule_Inr [OF this] have sf: "same_flags prog (snd x)" by simp
  from assms Inr have c: "Call (snd ?cs) (snd (snd ?pf)) b (fst ?pf) [fst ?cs] = Inr (r, prog', pkg')"
    by (simp add: ImportPyMod_def split_beta)
  have "same_flags (fst (snd ?pf)) prog'"
    by (rule grows_same_flags [OF grows_trans [OF Builder_CStr_grows Call_grows [OF c]]])
  with pyFunc_flags [of "snd x" pkg "''PyImport_ImportModule''" "fst x"] sf
  have "needPyInit prog' \<and> needRuntime prog' = needRuntime prog"
    by (simp add: same_flags_def)
  moreover have "pkg_inv pkg \<longrightarrow> pkg_inv pkg'"
    using Call_pkg_inv [OF c] pyFunc_pkg_inv [of pkg "snd x" "''PyImport_ImportModule''" "fst x"] by simp
  ultimately show ?thesis by blast
qed

lemma progOnly_Inr: "progOnly p r = Inr (prog', p') \<Longrightarrow> \<exists>v. r = Inr (v, prog') \<and> p' = p"
  by (cases r) (auto simp: progOnly_def)

lemma states_Inr: "states r = Inr (prog', p') \<Longrightarrow> \<exists>v. r = Inr (v, prog', p')"
  by (cases r) (auto simp: states_def)

lemma runtime_flags:
  "runtime p = Inr (h, p') \<Longrightarrow> needRuntime p' \<and> needPyInit p' = needPyInit p"
  by (auto simp: runtime_def split: option.splits)

lemma Set_flags:
  "same_flags p (SetPython p a)" "same_flags p (SetRuntime p a)"
  by (cases a; simp add: SetPython_def SetRuntime_def same_flags_def)+

lemma NewPackage_flags:
  "\<not> needRuntime (snd (NewPackage prog name path))"
  "needPyInit (snd (NewPackage prog name path)) = needPyInit prog"
  by (simp_all add: NewPackage_def)

lemma NewPackage_pkg_inv: "pkg_inv (fst (NewPackage prog name path))"
  by (simp add: NewPackage_def pkg_inv_def funcNames_def globalNames_def)

lemma step_okI_same:
  "same_flags prog prog' \<Longrightarrow> \<not> isForeignOp x \<Longrightarrow> \<not> isNewPackage x \<Longrightarrow> (pkg_inv p \<Longrightarrow> pkg_inv p')
   \<Longrightarrow> step_ok x prog p prog' p'"
  by (simp add: step_ok_def same_flags_def)

lemma step_okI_foreign:
  "needPyInit prog' \<and> needRuntime prog' = needRuntime prog \<and> (pkg_inv p \<longrightarrow> pkg_inv p') \<Longrightarrow>
   isForeignOp x \<Longrightarrow> \<not> isNewPackage x \<Longrightarrow> step_ok x prog p prog' p'"
  by (simp add: step_ok_def)

lemma step_step_ok:
  assumes "step addCtx x (prog, p) = Inr (prog', p')"
  shows "step_ok x prog p prog' p'"
proof (cases x)
  case (OpSetPython a)
  with assms show ?thesis by (auto intro!: step_okI_same Set_flags)
next
  case (OpSetRuntime a)
  with assms show ?thesis by (auto intro!: step_okI_same Set_flags)
next
  case OpRuntime
  with assms obtain h where "runtime prog = Inr (h, prog')" and "p' = p"
    by (auto dest: progOnly_Inr)
  with runtime_flags [of prog h prog'] OpRuntime show ?thesis by (simp add: step_ok_def)
next
  case OpPython
  with assms obtain h where "python prog = Inr (h, prog')" and "p' = p"
    by (auto dest: progOnly_Inr)
  with python_same_flags [of prog h prog'] OpPython show ?thesis
    by (auto intro!: step_okI_same)
next
  case (OpNewPackage name path)
  with assms have "prog' = snd (NewPackage prog name path)" and "p' = fst (NewPackage prog name path)"
    by (simp_all add: split_beta)
  with OpNewPackage show ?thesis
    by (simp add: step_ok_def NewPackage_flags NewPackage_pkg_inv)
next
  case (OpRawType t)
  with assms show ?thesis
    by (auto intro!: step_okI_same grows_same_flags rawType_grows)
next
  case OpVoid
  with assms show ?thesis
    by (auto intro!: step_okI_same grows_same_flags Void_grows)
next
  case OpVoidPtr
  with assms show ?thesis
    by (auto intro!: step_okI_same grows_same_flags VoidPtr_grows)
next
  case OpBool
  with assms show ?thesis
    by (auto intro!: step_okI_same grows_same_flags Bool_ty_grows)
next
  case OpCStr
  with assms show ?thesis
    by (auto intro!: step_okI_same grows_same_flags CStr_grows)
next
  case OpPyObjectPtr
  with assms obtain v where "PyObjectPtr prog = Inr (v, prog')" and "p' = p"
    by (auto dest: progOnly_Inr)
  with PyObjectPtr_Inr [of prog v prog'] OpPyObjectPtr show ?thesis
    by (auto intro!: step_okI_same)
next
  case OpTyImportPyModule
  with assms obtain v where "tyImportPyModule prog = Inr (v, prog')" and "p' = p"
    by (auto dest: progOnly_Inr)
  with tyImportPyModule_Inr [of prog v prog'] OpTyImportPyModule show ?thesis
    by (auto intro!: step_okI_same)
next
  case OpTyCallNoArg
  with assms obtain v where "tyCallNoArg prog = Inr (v, prog')" and "p' = p"
    by (auto dest: progOnly_Inr)
  with tyCallNoArg_Inr [of prog v prog'] OpTyCallNoArg show ?thesis
    by (auto intro!: step_okI_same)
next
  case OpTyCallOneArg
  with assms obtain v where "tyCallOneArg prog = Inr (v, prog')" and "p' = p"
    by (auto dest: progOnly_Inr)
  with tyCallOneArg_Inr [of prog v prog'] OpTyCallOneArg show ?thesis
    by (auto intro!: step_okI_same)
next
  case (OpNewFunc name sig bg)
  with assms have "prog' = fst (snd (NewFunc prog p name sig bg))"
    and "p' = snd (snd (NewFunc prog p name sig bg))" by simp_all
  with OpNewFunc show ?thesis
    by (auto intro!: step_okI_same grows_same_flags NewFunc_grows NewFunc_pkg_inv)
next
  case (OpNewVar name ty bg)
  with assms have "prog' = fst (snd (NewVar prog p name ty bg))"
    and "p' = snd (snd (NewVar prog p name ty bg))" by simp_all
  with OpNewVar show ?thesis
    by (auto intro!: step_okI_same grows_same_flags NewVar_grows NewVar_pkg_inv)
next
  case (OpPyFunc name sig)
  with assms have "prog' = fst (snd (pyFunc prog p name sig))"
    and "p' = snd (snd (pyFunc prog p name sig))" by simp_all
  with OpPyFunc show ?thesis
    by (simp add: step_ok_def pyFunc_flags pyFunc_pkg_inv)
next
  case (OpClosureStub b t v)
  with assms obtain e where c: "closureStub addCtx prog p b t v = Inr (e, prog', p')"
    by (auto dest: states_Inr)
  from closureStub_frames(1,2) [OF c] OpClosureStub show ?thesis
    by (auto intro!: step_okI_same grows_same_flags)
next
  case (OpImportPyMod b path)
  with assms obtain e where c: "ImportPyMod prog p b path = Inr (e, prog', p')"
    by (auto dest: states_Inr)
  from ImportPyMod_Inr [OF c] OpImportPyMod show ?thesis
    by (auto intro!: step_okI_foreign)
next
  case (OpPyCall b fn args)
  with assms obtain e where c: "pyCall prog p b fn args = Inr (e, prog', p')"
    by (auto dest: states_Inr)
  from pyCall_not_sig [OF c] obtain ps rs where "raw (Type fn) = Signature ps rs" by blast
  from pyCall_Inr [OF c this] OpPyCall show ?thesis
    by (auto intro!: step_okI_foreign)
qed

lemma run_pkg_inv:
  "run addCtx ops (prog, p) = Inr (prog', p') \<Longrightarrow> pkg_inv p \<Longrightarrow> pkg_inv p'"
proof (induction ops arbitrary: prog p)
  case Nil
  then show ?case by simp
next
  case (Cons x xs)
  from Cons.prems(1) obtain prog1 p1 where s: "step addCtx x (prog, p) = Inr (prog1, p1)"
    and r: "run addCtx xs (prog1, p1) = Inr (prog', p')"
    by (cases "step addCtx x (prog, p)") auto
  from step_step_ok [OF s] Cons.prems(2) have "pkg_inv p1" by (simp add: step_ok_def)
  with Cons.IH [OF r] show ?case .
qed

lemma run_needPyInit:
  "run addCtx ops (prog, p) = Inr (prog', p') \<Longrightarrow> needPyInit prog \<Longrightarrow> needPyInit prog'"
proof (induction ops arbitrary: prog p)
  case Nil
  then show ?case by simp
next
  case (Cons x xs)
  from Cons.prems(1) obtain prog1 p1 where s: "step addCtx x (prog, p) = Inr (prog1, p1)"
    and r: "run addCtx xs (prog1, p1) = Inr (prog', p')"
    by (cases "step addCtx x (prog, p)") auto
  from step_step_ok [OF s] Cons.prems(2) have "needPyInit prog1"
    by (simp add: step_ok_def split: if_splits)
  with Cons.IH [OF r] show ?case .
qed

lemma run_needRuntime:
  "run addCtx ops (prog, p) = Inr (prog', p') \<Longrightarrow> \<not> list_ex isNewPackage ops \<Longrightarrow>
   needRuntime prog \<Longrightarrow> needRuntime prog'"
proof (induction ops arbitrary: prog p)
  case Nil
  then show ?case by simp
next
  case (Cons x xs)
  from Cons.prems(1) obtain prog1 p1 where s: "step addCtx x (prog, p) = Inr (prog1, p1)"
    and r: "run addCtx xs (prog1, p1) = Inr (prog', p')"
    by (cases "step addCtx x (prog, p)") auto
  from step_step_ok [OF s] Cons.prems(2,3) have "needRuntime prog1"
    by (simp add: step_ok_def split: if_splits)
  with Cons.IH [OF r] Cons.prems(2) show ?case by simp
qed

lemma typs_ok_NewProgram: "typs_ok NewProgram"
  unfolding typs_ok_def NewProgram_def by simp

lemma typs_ok_VoidPtr: "typs_ok p \<Longrightarrow> typs_ok (snd (VoidPtr p))"
proof (cases "voidPtr p")
  case None
  assume "typs_ok p"
  then have "typs_ok (snd (rawType p (Typ UnsafePointer)))" by (simp add: typs_ok_aux(1))
  then have "typs_ok ((snd (rawType p (Typ UnsafePointer)))\<lparr>voidPtr := Some (fst (rawType p (Typ UnsafePointer)))\<rparr>)"
    by (rule iffD2 [OF typs_ok_cong, rotated]) simp
  with None show ?thesis by (simp add: VoidPtr_def split_beta)
next
  case (Some a)
  assume "typs_ok p"
  with Some show ?thesis by (simp add: VoidPtr_def)
qed

lemma NewFunc_again:
  assumes "NewFunc prog p name sig bg = (fn, prog1, p1)"
  shows "NewFunc prog2 p1 name sig' bg' = (fn, prog2, p1)"
proof -
  from NewFunc_stores [of prog p name sig bg] assms have "fns p1 name = Some fn" by simp
  then show ?thesis by (rule NewFunc_hit)
qed

lemma NewVar_again:
  assumes "NewVar prog p name ty bg = (g, prog1, p1)"
  shows "NewVar prog2 p1 name ty' bg' = (g, prog2, p1)"
proof -
  from NewVar_stores [of prog p name ty bg] assms have "vars p1 name = Some g" by simp
  then show ?thesis by (rule NewVar_hit)
qed

lemma closureStub_fresh:
  assumes inv: "pkg_inv p"
    and st: "stubs p (valueName (impl v)) = None"
    and fresh: "fns p (ClosureStub @ valueName (impl v)) = None"
    and sig: "raw (Type v) = Signature ps rs"
    and len: "ps = [] \<or> length ps < length (fst (addCtx (ClosureCtx, Typ UnsafePointer) (ps, rs)))"
    and nf: "NewFunc (snd (VoidPtr prog)) p (ClosureStub @ valueName (impl v))
               (addCtx (ClosureCtx, Typ UnsafePointer) (ps, rs)) InC = (fn, prog2, p2)"
  shows "closureStub addCtx prog p b t v =
     Inr (aggregateValue (fst (rawType (snd (retType prog2 rs)) t))
            [impl (fnExpr fn), impl (Null (fst (VoidPtr prog)))],
          snd (rawType (snd (retType prog2 rs)) t),
          withStub p (valueName (impl v)) fn
            (stubFunction (valueName (impl v)) (ll (Type (fnExpr fn))) v (length ps) (length rs)))"
proof -
  from inv fresh have absent: "ClosureStub @ valueName (impl v) \<notin> set (funcNames p)"
    by (auto simp: pkg_inv_def)
  show ?thesis
    unfolding closureStub_miss [OF st sig] closureStub_else_fresh [where name = "valueName (impl v)" and addCtx = addCtx and v = v, OF absent fresh sig len nf]
    by (simp add: withStub_def stubFunction_def)
qed

lemma find_SomeD: "find P xs = Some x \<Longrightarrow> P x"
  by (induction xs) (auto split: if_splits)

lemma findFunction_emit:
  assumes "findFunction (llmod p) (valueName (impl (fnExpr (Func b)))) = Some d"
  shows "findFunction (llmod (emit p b i)) (valueName (impl (fnExpr (Func b)))) =
           Some (d\<lparr>fbody := fbody d @ [i]\<rparr>)"
proof -
  from assms have "fname d = valueName (impl (fnExpr (Func b)))"
    unfolding findFunction_def by (rule find_SomeD)
  with assms show ?thesis
    by (simp add: findFunction_def emit_def updFunction_def find_map_upd)
qed

lemma thunk_call_ok:
  assumes ok: "typs_ok q" and fresh: "fns pkg name = None"
    and found: "findFunction (llmod pkg) (valueName (impl (fnExpr (Func b)))) = Some d"
  shows "\<exists>r prog' pkg'.
     Call (fst (snd (pyFunc q pkg name sig))) (snd (snd (pyFunc q pkg name sig))) b
          (fst (pyFunc q pkg name sig)) as = Inr (r, prog', pkg') \<and>
     findFunction (llmod pkg') (valueName (impl (fnExpr (Func b)))) =
       Some (d\<lparr>fbody := fbody d @ [CallInst (FuncValue name) (map impl as) False]\<rparr>)"
proof -
  obtain fn prog2 p2 where nf: "NewFunc (q\<lparr>needPyInit := True\<rparr>) pkg name sig InC = (fn, prog2, p2)"
    by (metis prod_cases3)
  note m = NewFunc_miss [OF fresh nf]
  from ok have "typs_ok (q\<lparr>needPyInit := True\<rparr>)" by (simp add: typs_ok_fields)
  from typs_ok_aux(1) [OF this] m(3)
  have rawfn: "raw (Type (fnExpr fn)) = Signature (fst sig) (snd sig)" by simp
  from found have f2: "findFunction (llmod p2) (valueName (impl (fnExpr (Func b)))) = Some d"
    by (simp add: m(4) findFunction_def find_append_present)
  have pf: "pyFunc q pkg name sig = (fnExpr fn, prog2, p2)"
    by (simp add: pyFunc_eq nf)
  have "Call prog2 p2 b (fnExpr fn) as =
          Inr (\<lparr>impl = InstrValue (fname d) (length (fbody d)), Type = fst (retType prog2 (snd sig))\<rparr>,
               snd (retType prog2 (snd sig)),
               emit p2 b (CallInst (impl (fnExpr fn)) (map impl as) False))"
    by (simp add: Call_def rawfn f2 split_beta)
  with findFunction_emit [OF f2] show ?thesis by (simp add: pf m(1))
qed

lemma pyCall_ok:
  assumes sig: "raw (Type fn) = Signature ps rs" and len: "length ps < 2"
    and ok: "typs_ok prog" and fresh: "fns pkg (thunkName (length ps)) = None"
    and py: "succeeds (PyObjectPtr prog)"
    and found: "findFunction (llmod pkg) (valueName (impl (fnExpr (Func b)))) = Some d"
    and args: "length ps \<le> length args"
  shows "\<exists>r prog' pkg'. pyCall prog pkg b fn args = Inr (r, prog', pkg') \<and>
     findFunction (llmod pkg') (valueName (impl (fnExpr (Func b)))) =
       Some (d\<lparr>fbody := fbody d @
                 [CallInst (FuncValue (thunkName (length ps)))
                           (map impl (fn # take (length ps) args)) False]\<rparr>)"
proof -
  from py obtain ty prog1 where o: "PyObjectPtr prog = Inr (ty, prog1)"
    by (cases "PyObjectPtr prog") (auto simp: succeeds_def)
  show ?thesis
  proof (cases ps)
    case Nil
    from tyCallNoArg_ok [OF o] obtain s q where t: "tyCallNoArg prog = Inr (s, q)" by blast
    from tyCallNoArg_Inr [OF t] ok have okq: "typs_ok q" by simp
    from fresh Nil have fr: "fns pkg ''PyObject_CallNoArg'' = None" by (simp add: thunkName_def)
    from thunk_call_ok [OF okq fr found, of s "[fn]"] Nil show ?thesis
      by (simp add: pyCall_0 [OF sig [unfolded Nil]] t thunkName_def)
  next
    case (Cons x xs)
    with len have ps: "ps = [x]" by simp
    from args ps obtain a as where a: "args = a # as" by (cases args) auto
    from tyCallOneArg_ok [OF o] obtain s q where t: "tyCallOneArg prog = Inr (s, q)" by blast
    from tyCallOneArg_Inr [OF t] ok have okq: "typs_ok q" by simp
    from fresh ps have fr: "fns pkg ''PyObject_CallOneArg'' = None" by (simp add: thunkName_def)
    from thunk_call_ok [OF okq fr found, of s "[fn, a]"] ps a show ?thesis
      by (simp add: pyCall_1 [OF sig [unfolded ps]] t thunkName_def)
  qed
qed

lemma NewFunc_typs_ok: "typs_ok prog \<Longrightarrow> typs_ok (fst (snd (NewFunc prog p name sig bg)))"
proof (cases "fns p name")
  case None
  assume "typs_ok prog"
  then have "typs_ok (snd (rawType prog (Signature (fst sig) (snd sig))))"
    by (simp add: typs_ok_aux(1))
  then have "typs_ok (snd (rawTypes (snd (rawType prog (Signature (fst sig) (snd sig)))) (fst sig)))"
    by (simp add: typs_ok_aux(3))
  with None show ?thesis by (simp add: NewFunc_def split_beta Let_def)
next
  case (Some a)
  assume "typs_ok prog"
  with Some show ?thesis by (simp add: NewFunc_def)
qed

lemma succeeds_Inr: "succeeds r \<Longrightarrow> r = Inr (projr r)"
  by (cases r) (simp_all add: succeeds_def)

lemma typs_ok_example_prog: "typs_ok example_prog"
  unfolding typs_ok_def example_prog_def SetPython_def SetRuntime_def NewProgram_def by simp

lemma example_main_facts:
  "impl (fnExpr (fst example_main)) = FuncValue ''main.main''"
  "typs_ok (fst (snd example_main))"
  "pkg_inv (snd (snd example_main))"
  "stubs (snd (snd example_main)) = Map.empty"
  "fns (snd (snd example_main)) = [''main.main'' \<mapsto> fst example_main]"
  "findFunction (llmod (snd (snd example_main))) ''main.main'' =
     Some \<lparr>fname = ''main.main'', ftype = ll (Type (fnExpr (fst example_main))),
           flinkage = ExternalLinkage, fbody = []\<rparr>"
proof -
  have fr: "fns (fst (NewPackage example_prog ''main'' ''example.com/main'')) ''main.main'' = None"
    by (simp add: NewPackage_def)
  have nf: "NewFunc (snd (NewPackage example_prog ''main'' ''example.com/main''))
       (fst (NewPackage example_prog ''main'' ''example.com/main'')) ''main.main'' ([], []) InGo =
     (fst example_main, fst (snd example_main), snd (snd example_main))"
    by (simp add: example_main_def)
  note m = NewFunc_miss [OF fr nf]
  show "impl (fnExpr (fst example_main)) = FuncValue ''main.main''" by (rule m(1)) 
  show "typs_ok (fst (snd example_main))"
    unfolding example_main_def
    by (rule NewFunc_typs_ok) (simp add: NewPackage_def typs_ok_example_prog [unfolded typs_ok_def] typs_ok_def)
  show "pkg_inv (snd (snd example_main))"
    unfolding example_main_def by (rule NewFunc_pkg_inv) (rule NewPackage_pkg_inv)
  show "stubs (snd (snd example_main)) = Map.empty"
    by (simp add: example_main_def NewFunc_frame NewPackage_def)
  show "fns (snd (snd example_main)) = [''main.main'' \<mapsto> fst example_main]"
    by (subst m(4)) (simp add: NewPackage_def)
  show "findFunction (llmod (snd (snd example_main))) ''main.main'' =
     Some \<lparr>fname = ''main.main'', ftype = ll (Type (fnExpr (fst example_main))),
           flinkage = ExternalLinkage, fbody = []\<rparr>"
    by (subst m(4)) (simp add: NewPackage_def findFunction_def)
qed

lemma example_f_facts:
  "impl (fnExpr (fst (example_f rs))) = FuncValue ''main.f''"
  "raw (Type (fnExpr (fst (example_f rs)))) = Signature [(''x'', Typ Int_t)] rs"
  "typs_ok (fst (snd (example_f rs)))"
  "pkg_inv (snd (snd (example_f rs)))"
  "stubs (snd (snd (example_f rs))) = Map.empty"
  "fns (snd (snd (example_f rs))) =
     [''main.main'' \<mapsto> fst example_main, ''main.f'' \<mapsto> fst (example_f rs)]"
  "findFunction (llmod (snd (snd (example_f rs)))) ''main.main'' =
     Some \<lparr>fname = ''main.main'', ftype = ll (Type (fnExpr (fst example_main))),
           flinkage = ExternalLinkage, fbody = []\<rparr>"
proof -
  have fr: "fns (snd (snd example_main)) ''main.f'' = None"
    by (simp add: example_main_facts(5))
  have nf: "NewFunc (fst (snd example_main)) (snd (snd example_main)) ''main.f''
              ([(''x'', Typ Int_t)], rs) InGo =
            (fst (example_f rs), fst (snd (example_f rs)), snd (snd (example_f rs)))"
    by (simp add: example_f_def)
  note m = NewFunc_miss [OF fr nf]
  show "impl (fnExpr (fst (example_f rs))) = FuncValue ''main.f''" by (rule m(1))
  show "raw (Type (fnExpr (fst (example_f rs)))) = Signature [(''x'', Typ Int_t)] rs"
    using typs_ok_aux(1) [OF example_main_facts(2), of "Signature [(''x'', Typ Int_t)] rs"]
    by (simp add: m(3))
  show "typs_ok (fst (snd (example_f rs)))"
    unfolding example_f_def by (rule NewFunc_typs_ok) (rule example_main_facts(2))
  show "pkg_inv (snd (snd (example_f rs)))"
    unfolding example_f_def by (rule NewFunc_pkg_inv) (rule example_main_facts(3))
  show "stubs (snd (snd (example_f rs))) = Map.empty"
    by (simp add: example_f_def NewFunc_frame example_main_facts(4))
  show "fns (snd (snd (example_f rs))) =
     [''main.main'' \<mapsto> fst example_main, ''main.f'' \<mapsto> fst (example_f rs)]"
    by (subst m(4)) (simp add: example_main_facts(5))
  show "findFunction (llmod (snd (snd (example_f rs)))) ''main.main'' =
     Some \<lparr>fname = ''main.main'', ftype = ll (Type (fnExpr (fst example_main))),
           flinkage = ExternalLinkage, fbody = []\<rparr>"
    using example_main_facts(6)
    by (subst m(4)) (simp add: findFunction_def find_append_present)
qed

lemma nth_tail_params: "map ((!) (c # ps)) [1..<Suc (length ps)] = ps"
proof -
  have "map ((!) (c # ps)) [1..<Suc (length ps)] = map ((!) (c # ps) \<circ> Suc) [0..<length ps]"
    by (simp add: map_Suc_upt [symmetric] del: upt_Suc)
  also have "\<dots> = map ((!) ps) [0..<length ps]" by (simp add: comp_def)
  also have "\<dots> = ps" by (rule map_nth)
  finally show ?thesis .
qed

lemmas example_defs =
  example_P_def example_K_def example_closure_def example_f_def example_main_def
  example_prog_def example_b_def example_closure_type_def example_runtime_def example_python_def

lemmas eval_defs =
  functionBody_def succeeds_def closureStub_def closureStub_else_def NewFunc_def NewPackage_def
  SetPython_def SetRuntime_def NewProgram_def rawType.simps newType_def VoidPtr_def Null_def
  MakeBody_def Call_def retType_def Void_def emit_def updFunction_def SetLinkage_def
  findFunction_def Param_def aggregateValue_def ClosureStub_def ClosureCtx_def
  FuncAddCtx_trailing_def FuncAddCtx_leading_def Let_def

lemmas eval_py_defs =
  pyCall_def ImportPyMod_def pyFunc_def tyCallNoArg_def tyCallOneArg_def tyImportPyModule_def
  PyObjectPtr_def pyNamed_def python_def Lookup_def Builder_CStr_def CStr_def example_callee_def

lemma step_total:
  "step addCtx (OpNewVar n t bg) w = Inr (snd (NewVar (fst w) (snd w) n t bg))"
  "step addCtx (OpNewFunc n s bg) w = Inr (snd (NewFunc (fst w) (snd w) n s bg))"
  "step addCtx (OpPyFunc n s) w = Inr (snd (pyFunc (fst w) (snd w) n s))"
  "step addCtx (OpRawType u) w = Inr (snd (rawType (fst w) u), snd w)"
  by (cases w; simp)+

lemma example_callee_facts:
  "raw (Type (fst (example_callee ps))) =
     Signature ps [([], Pointer (Named ''github.com/goplus/llgo/py'' ''Object''))]"
  "typs_ok (snd (example_callee ps))"
  using typs_ok_aux(1) [OF example_main_facts(2),
          of "Signature ps [([], Pointer (Named ''github.com/goplus/llgo/py'' ''Object''))]"]
  by (simp_all add: example_callee_def split_beta)

lemma example_b_name: "valueName (impl (fnExpr (Func example_b))) = ''main.main''"
  by (simp add: example_b_def MakeBody_def example_main_facts(1))

lemma typs_kept_refl: "typs_kept p p"
  unfolding typs_kept_def by simp

lemma typs_kept_trans: "typs_kept p q \<Longrightarrow> typs_kept q r \<Longrightarrow> typs_kept p r"
  unfolding typs_kept_def by blast

lemma typs_kept_eq: "typs q = typs p \<Longrightarrow> typs_kept p q"
  unfolding typs_kept_def by simp

lemma typs_kept_eq_right: "typs_kept p q \<Longrightarrow> typs r = typs q \<Longrightarrow> typs_kept p r"
  unfolding typs_kept_def by simp

lemma typs_kept_eq_left: "typs_kept q r \<Longrightarrow> typs q = typs p \<Longrightarrow> typs_kept p r"
  unfolding typs_kept_def by simp

lemma grows_typs_kept: "grows p q \<Longrightarrow> typs_kept p q"
  unfolding grows_def typs_kept_def by blast

lemma typs_keptD: "typs_kept p q \<Longrightarrow> typs p t = Some x \<Longrightarrow> typs q t = Some x"
  unfolding typs_kept_def by blast

lemma runtime_typs: "runtime p = Inr (h, p') \<Longrightarrow> typs p' = typs p"
  by (auto simp: runtime_def split: option.splits)

lemma Set_typs: "typs (SetPython p a) = typs p" "typs (SetRuntime p a) = typs p"
  by (cases a; simp add: SetPython_def SetRuntime_def)+

lemma PyObjectPtr_typs_kept:
  assumes "PyObjectPtr p = Inr (ty, p')"
  shows "typs_kept p p'"
proof (cases "pyObjPtr p")
  case None
  show ?thesis
  proof (cases "pyNamed p ''Object''")
    case (Inl a)
    with assms None show ?thesis by (simp add: PyObjectPtr_miss)
  next
    case (Inr x)
    with assms None have p': "p' = (snd (rawType (snd x) (Pointer (fst x))))\<lparr>pyObjPtr := Some ty\<rparr>"
      by (auto simp add: PyObjectPtr_miss)
    from Inr have n: "pyNamed p ''Object'' = Inr (fst x, snd x)" by simp
    have "typs_kept (snd x) (snd (rawType (snd x) (Pointer (fst x))))"
      by (rule grows_typs_kept [OF rawType_grows])
    then have "typs_kept p (snd (rawType (snd x) (Pointer (fst x))))"
      by (rule typs_kept_eq_left) (rule pyNamed_typs [OF n])
    then show ?thesis by (rule typs_kept_eq_right) (simp add: p')
  qed
next
  case (Some a)
  with assms show ?thesis by (simp add: PyObjectPtr_def typs_kept_refl)
qed

lemma tyImportPyModule_typs_kept:
  assumes "tyImportPyModule p = Inr (sig, p')"
  shows "typs_kept p p'"
proof (cases "pyImpTy p")
  case None
  show ?thesis
  proof (cases "PyObjectPtr p")
    case (Inl a)
    with assms None show ?thesis by (simp add: tyImportPyModule_miss)
  next
    case (Inr x)
    with assms None have p': "p' = (snd x)\<lparr>pyImpTy := Some sig\<rparr>"
      by (auto simp add: tyImportPyModule_miss)
    from Inr have "PyObjectPtr p = Inr (fst x, snd x)" by simp
    from PyObjectPtr_typs_kept [OF this] show ?thesis
      by (rule typs_kept_eq_right) (simp add: p')
  qed
next
  case (Some a)
  with assms show ?thesis by (simp add: tyImportPyModule_def typs_kept_refl)
qed

lemma tyCallNoArg_typs_kept:
  assumes "tyCallNoArg p = Inr (sig, p')"
  shows "typs_kept p p'"
proof (cases "callNoArg p")
  case None
  show ?thesis
  proof (cases "PyObjectPtr p")
    case (Inl a)
    with assms None show ?thesis by (simp add: tyCallNoArg_miss)
  next
    case (Inr x)
    with assms None have p': "p' = (snd x)\<lparr>callNoArg := Some sig\<rparr>"
      by (auto simp add: tyCallNoArg_miss)
    from Inr have "PyObjectPtr p = Inr (fst x, snd x)" by simp
    from PyObjectPtr_typs_kept [OF this] show ?thesis
      by (rule typs_kept_eq_right) (simp add: p')
  qed
next
  case (Some a)
  with assms show ?thesis by (simp add: tyCallNoArg_def typs_kept_refl)
qed

lemma tyCallOneArg_typs_kept:
  assumes "tyCallOneArg p = Inr (sig, p')"
  shows "typs_kept p p'"
proof (cases "callOneArg p")
  case None
  show ?thesis
  proof (cases "PyObjectPtr p")
    case (Inl a)
    with assms None show ?thesis by (simp add: tyCallOneArg_miss)
  next
    case (Inr x)
    with assms None have p': "p' = (snd x)\<lparr>callOneArg := Some sig\<rparr>"
      by (auto simp add: tyCallOneArg_miss)
    from Inr have "PyObjectPtr p = Inr (fst x, snd x)" by simp
    from PyObjectPtr_typs_kept [OF this] show ?thesis
      by (rule typs_kept_eq_right) (simp add: p')
  qed
next
  case (Some a)
  with assms show ?thesis by (simp add: tyCallOneArg_def typs_kept_refl)
qed

lemma pyFunc_typs_kept: "typs_kept prog (fst (snd (pyFunc prog p name sig)))"
proof -
  have "typs_kept (prog\<lparr>needPyInit := True\<rparr>) (fst (snd (NewFunc (prog\<lparr>needPyInit := True\<rparr>) p name sig InC)))"
    by (rule grows_typs_kept [OF NewFunc_grows])
  then show ?thesis by (simp add: pyFunc_eq typs_kept_def)
qed

lemma thunk_call_typs_kept:
  assumes c: "Call (fst (snd (pyFunc q pkg name sig))) (snd (snd (pyFunc q pkg name sig))) b
                (fst (pyFunc q pkg name sig)) as = Inr (r, prog', pkg')"
    and q: "typs_kept prog q"
  shows "typs_kept prog prog'"
  by (rule typs_kept_trans [OF q typs_kept_trans [OF pyFunc_typs_kept grows_typs_kept [OF Call_grows [OF c]]]])

lemma pyCall_typs_kept:
  assumes "pyCall prog pkg b fn args = Inr (r, prog', pkg')"
  shows "typs_kept prog prog'"
proof -
  from pyCall_not_sig [OF assms] obtain ps rs
    where sig: "raw (Type fn) = Signature ps rs" and len: "length ps < 2" by blast
  show ?thesis
  proof (cases ps)
    case Nil
    note eq = pyCall_0 [OF sig [unfolded Nil], of prog pkg b args]
    show ?thesis
    proof (cases "tyCallNoArg prog")
      case (Inl a)
      with assms eq show ?thesis by simp
    next
      case (Inr x)
      then have "tyCallNoArg prog = Inr (fst x, snd x)" by simp
      note k = tyCallNoArg_typs_kept [OF this]
      from assms eq Inr
      have "Call (fst (snd (pyFunc (snd x) pkg ''PyObject_CallNoArg'' (fst x))))
               (snd (snd (pyFunc (snd x) pkg ''PyObject_CallNoArg'' (fst x)))) b
               (fst (pyFunc (snd x) pkg ''PyObject_CallNoArg'' (fst x))) [fn] = Inr (r, prog', pkg')"
        by simp
      from thunk_call_typs_kept [OF this k] show ?thesis .
    qed
  next
    case (Cons q qs)
    with len have ps: "ps = [q]" by simp
    note eq = pyCall_1 [OF sig [unfolded ps], of prog pkg b args]
    show ?thesis
    proof (cases "tyCallOneArg prog")
      case (Inl a)
      with assms eq show ?thesis by simp
    next
      case (Inr x)
      then have "tyCallOneArg prog = Inr (fst x, snd x)" by simp
      note k = tyCallOneArg_typs_kept [OF this]
      show ?thesis
      proof (cases args)
        case Nil
        with assms eq Inr show ?thesis by simp
      next
        case (Cons a as)
        with assms eq Inr
        have "Call (fst (snd (pyFunc (snd x) pkg ''PyObject_CallOneArg'' (fst x))))
                 (snd (snd (pyFunc (snd x) pkg ''PyObject_CallOneArg'' (fst x)))) b
                 (fst (pyFunc (snd x) pkg ''PyObject_CallOneArg'' (fst x))) [fn, a] = Inr (r, prog', pkg')"
          by simp
        from thunk_call_typs_kept [OF this k] show ?thesis .
      qed
    qed
  qed
qed

lemma ImportPyMod_typs_kept:
  assumes "ImportPyMod prog pkg b path = Inr (r, prog', pkg')"
  shows "typs_kept prog prog'"
proof (cases "tyImportPyModule prog")
  case (Inl a)
  with assms show ?thesis by (simp add: ImportPyMod_def)
next
  case (Inr x)
  let ?pf = "pyFunc (snd x) pkg ''PyImport_ImportModule'' (fst x)"
  let ?cs = "Builder_CStr (fst (snd ?pf)) path"
  from Inr have "tyImportPyModule prog = Inr (fst x, snd x)" by simp
  note k = tyImportPyModule_typs_kept [OF this]
  from assms Inr have c: "Call (snd ?cs) (snd (snd ?pf)) b (fst ?pf) [fst ?cs] = Inr (r, prog', pkg')"
    by (simp add: ImportPyMod_def split_beta)
  have "typs_kept (fst (snd ?pf)) prog'"
    by (rule grows_typs_kept [OF grows_trans [OF Builder_CStr_grows Call_grows [OF c]]])
  with k pyFunc_typs_kept [of "snd x" pkg "''PyImport_ImportModule''" "fst x"]
  show ?thesis by (blast intro: typs_kept_trans)
qed

lemma step_typs_kept:
  assumes "step addCtx x (prog, p) = Inr (prog', p')"
  shows "typs_kept prog prog'"
proof (cases x)
  case (OpSetPython a)
  with assms show ?thesis by (auto intro!: typs_kept_eq Set_typs)
next
  case (OpSetRuntime a)
  with assms show ?thesis by (auto intro!: typs_kept_eq Set_typs)
next
  case OpRuntime
  with assms obtain h where "runtime prog = Inr (h, prog')"
    by (auto dest: progOnly_Inr)
  then show ?thesis by (auto intro!: typs_kept_eq dest: runtime_typs)
next
  case OpPython
  with assms obtain h where "python prog = Inr (h, prog')"
    by (auto dest: progOnly_Inr)
  then show ?thesis by (auto intro!: typs_kept_eq dest: python_typs)
next
  case (OpNewPackage name path)
  with assms have "prog' = snd (NewPackage prog name path)" by (simp add: split_beta)
  then show ?thesis by (simp add: NewPackage_def typs_kept_def)
next
  case (OpRawType t)
  with assms show ?thesis by (auto intro!: grows_typs_kept rawType_grows)
next
  case OpVoid
  with assms show ?thesis by (auto intro!: grows_typs_kept Void_grows)
next
  case OpVoidPtr
  with assms show ?thesis by (auto intro!: grows_typs_kept VoidPtr_grows)
next
  case OpBool
  with assms show ?thesis by (auto intro!: grows_typs_kept Bool_ty_grows)
next
  case OpCStr
  with assms show ?thesis by (auto intro!: grows_typs_kept CStr_grows)
next
  case OpPyObjectPtr
  with assms obtain v where "PyObjectPtr prog = Inr (v, prog')"
    by (auto dest: progOnly_Inr)
  then show ?thesis by (rule PyObjectPtr_typs_kept)
next
  case OpTyImportPyModule
  with assms obtain v where "tyImportPyModule prog = Inr (v, prog')"
    by (auto dest: progOnly_Inr)
  then show ?thesis by (rule tyImportPyModule_typs_kept)
next
  case OpTyCallNoArg
  with assms obtain v where "tyCallNoArg prog = Inr (v, prog')"
    by (auto dest: progOnly_Inr)
  then show ?thesis by (rule tyCallNoArg_typs_kept)
next
  case OpTyCallOneArg
  with assms obtain v where "tyCallOneArg prog = Inr (v, prog')"
    by (auto dest: progOnly_Inr)
  then show ?thesis by (rule tyCallOneArg_typs_kept)
next
  case (OpNewFunc name sig bg)
  with assms have "prog' = fst (snd (NewFunc prog p name sig bg))" by simp
  then show ?thesis by (simp add: grows_typs_kept NewFunc_grows)
next
  case (OpNewVar name ty bg)
  with assms have "prog' = fst (snd (NewVar prog p name ty bg))" by simp
  then show ?thesis by (simp add: grows_typs_kept NewVar_grows)
next
  case (OpPyFunc name sig)
  with assms have "prog' = fst (snd (pyFunc prog p name sig))" by simp
  then show ?thesis by (simp add: pyFunc_typs_kept)
next
  case (OpClosureStub b t v)
  with assms obtain e where c: "closureStub addCtx prog p b t v = Inr (e, prog', p')"
    by (auto dest: states_Inr)
  from closureStub_frames(1) [OF c] show ?thesis by (rule grows_typs_kept)
next
  case (OpImportPyMod b path)
  with assms obtain e where c: "ImportPyMod prog p b path = Inr (e, prog', p')"
    by (auto dest: states_Inr)
  then show ?thesis by (rule ImportPyMod_typs_kept)
next
  case (OpPyCall b fn args)
  with assms obtain e where c: "pyCall prog p b fn args = Inr (e, prog', p')"
    by (auto dest: states_Inr)
  then show ?thesis by (rule pyCall_typs_kept)
qed

lemma run_typs_kept:
  "run addCtx ops (prog, p) = Inr (prog', p') \<Longrightarrow> typs_kept prog prog'"
proof (induction ops arbitrary: prog p)
  case Nil
  then show ?case by (simp add: typs_kept_refl)
next
  case (Cons x xs)
  from Cons.prems(1) obtain prog1 p1 where s: "step addCtx x (prog, p) = Inr (prog1, p1)"
    and r: "run addCtx xs (prog1, p1) = Inr (prog', p')"
    by (cases "step addCtx x (prog, p)") auto
  from step_typs_kept [OF s] Cons.IH [OF r] show ?case by (rule typs_kept_trans)
qed

lemma grows_rt: "grows p q \<Longrightarrow> rt q = rt p \<and> rtgetCalls q = rtgetCalls p"
  by (simp add: grows_def)

lemma python_rt: "python p = Inr (h, p') \<Longrightarrow> rt p' = rt p \<and> rtgetCalls p' = rtgetCalls p"
  by (auto simp: python_def split: option.splits)

lemma pyNamed_rt: "pyNamed p name = Inr (t, p') \<Longrightarrow> rt p' = rt p \<and> rtgetCalls p' = rtgetCalls p"
  by (auto simp: pyNamed_def split: sum.splits option.splits gotype.splits dest: python_rt)

lemma PyObjectPtr_rt:
  assumes "PyObjectPtr p = Inr (ty, p')"
  shows "rt p' = rt p \<and> rtgetCalls p' = rtgetCalls p"
proof (cases "pyObjPtr p")
  case None
  show ?thesis
  proof (cases "pyNamed p ''Object''")
    case (Inl a)
    with assms None show ?thesis by (simp add: PyObjectPtr_miss)
  next
    case (Inr x)
    with assms None have p': "p' = (snd (rawType (snd x) (Pointer (fst x))))\<lparr>pyObjPtr := Some ty\<rparr>"
      by (auto simp add: PyObjectPtr_miss)
    from Inr have n: "pyNamed p ''Object'' = Inr (fst x, snd x)" by simp
    from grows_rt [OF rawType_grows, of "snd x" "Pointer (fst x)"] pyNamed_rt [OF n]
    show ?thesis by (simp add: p')
  qed
next
  case (Some a)
  with assms show ?thesis by (simp add: PyObjectPtr_def)
qed

lemma tyImportPyModule_rt:
  assumes "tyImportPyModule p = Inr (sig, p')"
  shows "rt p' = rt p \<and> rtgetCalls p' = rtgetCalls p"
proof (cases "pyImpTy p")
  case None
  show ?thesis
  proof (cases "PyObjectPtr p")
    case (Inl a)
    with assms None show ?thesis by (simp add: tyImportPyModule_miss)
  next
    case (Inr x)
    with assms None have p': "p' = (snd x)\<lparr>pyImpTy := Some sig\<rparr>"
      by (auto simp add: tyImportPyModule_miss)
    from Inr have "PyObjectPtr p = Inr (fst x, snd x)" by simp
    from PyObjectPtr_rt [OF this] show ?thesis by (simp add: p')
  qed
next
  case (Some a)
  with assms show ?thesis by (simp add: tyImportPyModule_def)
qed

lemma tyCallNoArg_rt:
  assumes "tyCallNoArg p = Inr (sig, p')"
  shows "rt p' = rt p \<and> rtgetCalls p' = rtgetCalls p"
proof (cases "callNoArg p")
  case None
  show ?thesis
  proof (cases "PyObjectPtr p")
    case (Inl a)
    with assms None show ?thesis by (simp add: tyCallNoArg_miss)
  next
    case (Inr x)
    with assms None have p': "p' = (snd x)\<lparr>callNoArg := Some sig\<rparr>"
      by (auto simp add: tyCallNoArg_miss)
    from Inr have "PyObjectPtr p = Inr (fst x, snd x)" by simp
    from PyObjectPtr_rt [OF this] show ?thesis by (simp add: p')
  qed
next
  case (Some a)
  with assms show ?thesis by (simp add: tyCallNoArg_def)
qed

lemma tyCallOneArg_rt:
  assumes "tyCallOneArg p = Inr (sig, p')"
  shows "rt p' = rt p \<and> rtgetCalls p' = rtgetCalls p"
proof (cases "callOneArg p")
  case None
  show ?thesis
  proof (cases "PyObjectPtr p")
    case (Inl a)
    with assms None show ?thesis by (simp add: tyCallOneArg_miss)
  next
    case (Inr x)
    with assms None have p': "p' = (snd x)\<lparr>callOneArg := Some sig\<rparr>"
      by (auto simp add: tyCallOneArg_miss)
    from Inr have "PyObjectPtr p = Inr (fst x, snd x)" by simp
    from PyObjectPtr_rt [OF this] show ?thesis by (simp add: p')
  qed
next
  case (Some a)
  with assms show ?thesis by (simp add: tyCallOneArg_def)
qed

lemma pyFunc_rt:
  "rt (fst (snd (pyFunc prog p name sig))) = rt prog \<and>
   rtgetCalls (fst (snd (pyFunc prog p name sig))) = rtgetCalls prog"
  using NewFunc_grows [of "prog\<lparr>needPyInit := True\<rparr>" p name sig InC]
  by (simp add: pyFunc_eq grows_def)

lemma thunk_call_rt:
  assumes c: "Call (fst (snd (pyFunc q pkg name sig))) (snd (snd (pyFunc q pkg name sig))) b
                (fst (pyFunc q pkg name sig)) as = Inr (r, prog', pkg')"
    and q: "rt q = rt prog \<and> rtgetCalls q = rtgetCalls prog"
  shows "rt prog' = rt prog \<and> rtgetCalls prog' = rtgetCalls prog"
  using grows_rt [OF Call_grows [OF c]] pyFunc_rt [of q pkg name sig] q by simp

lemma pyCall_rt:
  assumes "pyCall prog pkg b fn args = Inr (r, prog', pkg')"
  shows "rt prog' = rt prog \<and> rtgetCalls prog' = rtgetCalls prog"
proof -
  from pyCall_not_sig [OF assms] obtain ps rs
    where sig: "raw (Type fn) = Signature ps rs" and len: "length ps < 2" by blast
  show ?thesis
  proof (cases ps)
    case Nil
    note eq = pyCall_0 [OF sig [unfolded Nil], of prog pkg b args]
    show ?thesis
    proof (cases "tyCallNoArg prog")
      case (Inl a)
      with assms eq show ?thesis by simp
    next
      case (Inr x)
      then have "tyCallNoArg prog = Inr (fst x, snd x)" by simp
      note k = tyCallNoArg_rt [OF this]
      from assms eq Inr
      have "Call (fst (snd (pyFunc (snd x) pkg ''PyObject_CallNoArg'' (fst x))))
               (snd (snd (pyFunc (snd x) pkg ''PyObject_CallNoArg'' (fst x)))) b
               (fst (pyFunc (snd x) pkg ''PyObject_CallNoArg'' (fst x))) [fn] = Inr (r, prog', pkg')"
        by simp
      from thunk_call_rt [OF this k] show ?thesis .
    qed
  next
    case (Cons q qs)
    with len have ps: "ps = [q]" by simp
    note eq = pyCall_1 [OF sig [unfolded ps], of prog pkg b args]
    show ?thesis
    proof (cases "tyCallOneArg prog")
      case (Inl a)
      with assms eq show ?thesis by simp
    next
      case (Inr x)
      then have "tyCallOneArg prog = Inr (fst x, snd x)" by simp
      note k = tyCallOneArg_rt [OF this]
      show ?thesis
      proof (cases args)
        case Nil
        with assms eq Inr show ?thesis by simp
      next
        case (Cons a as)
        with assms eq Inr
        have "Call (fst (snd (pyFunc (snd x) pkg ''PyObject_CallOneArg'' (fst x))))
                 (snd (snd (pyFunc (snd x) pkg ''PyObject_CallOneArg'' (fst x)))) b
                 (fst (pyFunc (snd x) pkg ''PyObject_CallOneArg'' (fst x))) [fn, a] = Inr (r, prog', pkg')"
          by simp
        from thunk_call_rt [OF this k] show ?thesis .
      qed
    qed
  qed
qed

lemma ImportPyMod_rt:
  assumes "ImportPyMod prog pkg b path = Inr (r, prog', pkg')"
  shows "rt prog' = rt prog \<and> rtgetCalls prog' = rtgetCalls prog"
proof (cases "tyImportPyModule prog")
  case (Inl a)
  with assms show ?thesis by (simp add: ImportPyMod_def)
next
  case (Inr x)
  let ?pf = "pyFunc (snd x) pkg ''PyImport_ImportModule'' (fst x)"
  let ?cs = "Builder_CStr (fst (snd ?pf)) path"
  from Inr have "tyImportPyModule prog = Inr (fst x, snd x)" by simp
  note k = tyImportPyModule_rt [OF this]
  from assms Inr have c: "Call (snd ?cs) (snd (snd ?pf)) b (fst ?pf) [fst ?cs] = Inr (r, prog', pkg')"
    by (simp add: ImportPyMod_def split_beta)
  from grows_rt [OF grows_trans [OF Builder_CStr_grows Call_grows [OF c]]]
       pyFunc_rt [of "snd x" pkg "''PyImport_ImportModule''" "fst x"] k
  show ?thesis by simp
qed

lemma Set_rt:
  "rt (SetPython p a) = rt p" "rtgetCalls (SetPython p a) = rtgetCalls p"
  "rtgetCalls (SetRuntime p a) = rtgetCalls p"
  by (cases a; simp add: SetPython_def SetRuntime_def)+

lemma SetRuntime_rt:
  "\<not> clearsRuntime (OpSetRuntime a) \<Longrightarrow> rt p \<noteq> None \<Longrightarrow> rt (SetRuntime p a) \<noteq> None"
proof (cases a)
  case (PackagePtr v)
  assume "\<not> clearsRuntime (OpSetRuntime a)" "rt p \<noteq> None"
  with PackagePtr show ?thesis by (cases v) (simp_all add: SetRuntime_def)
qed (simp_all add: SetRuntime_def)

lemma step_rt:
  assumes s: "step addCtx x (prog, p) = Inr (prog', p')"
    and nc: "\<not> clearsRuntime x" and r: "rt prog \<noteq> None"
  shows "rt prog' \<noteq> None \<and> rtgetCalls prog' = rtgetCalls prog"
proof (cases x)
  case (OpSetPython a)
  with s r show ?thesis by (auto simp: Set_rt)
next
  case (OpSetRuntime a)
  with s have "prog' = SetRuntime prog a" by simp
  with SetRuntime_rt [of a prog] nc r OpSetRuntime show ?thesis by (simp add: Set_rt)
next
  case OpRuntime
  with s obtain h where rn: "runtime prog = Inr (h, prog')"
    by (auto dest: progOnly_Inr)
  from r obtain h0 where h0: "rt prog = Some h0" by blast
  from runtime_resolved [OF h0] rn have "prog' = prog\<lparr>needRuntime := True\<rparr>" by simp
  with h0 show ?thesis by simp
next
  case OpPython
  with s obtain h where "python prog = Inr (h, prog')"
    by (auto dest: progOnly_Inr)
  from python_rt [OF this] r show ?thesis by simp
next
  case (OpNewPackage name path)
  with s have "prog' = snd (NewPackage prog name path)" by (simp add: split_beta)
  with r show ?thesis by (simp add: NewPackage_def)
next
  case (OpRawType t)
  with s have "prog' = snd (rawType prog t)" by simp
  with grows_rt [OF rawType_grows, of prog t] r show ?thesis by simp
next
  case OpVoid
  with s have "prog' = snd (Void prog)" by simp
  with grows_rt [OF Void_grows, of prog] r show ?thesis by simp
next
  case OpVoidPtr
  with s have "prog' = snd (VoidPtr prog)" by simp
  with grows_rt [OF VoidPtr_grows, of prog] r show ?thesis by simp
next
  case OpBool
  with s have "prog' = snd (Bool_ty prog)" by simp
  with grows_rt [OF Bool_ty_grows, of prog] r show ?thesis by simp
next
  case OpCStr
  with s have "prog' = snd (CStr prog)" by simp
  with grows_rt [OF CStr_grows, of prog] r show ?thesis by simp
next
  case OpPyObjectPtr
  with s obtain v where "PyObjectPtr prog = Inr (v, prog')"
    by (auto dest: progOnly_Inr)
  from PyObjectPtr_rt [OF this] r show ?thesis by simp
next
  case OpTyImportPyModule
  with s obtain v where "tyImportPyModule prog = Inr (v, prog')"
    by (auto dest: progOnly_Inr)
  from tyImportPyModule_rt [OF this] r show ?thesis by simp
next
  case OpTyCallNoArg
  with s obtain v where "tyCallNoArg prog = Inr (v, prog')"
    by (auto dest: progOnly_Inr)
  from tyCallNoArg_rt [OF this] r show ?thesis by simp
next
  case OpTyCallOneArg
  with s obtain v where "tyCallOneArg prog = Inr (v, prog')"
    by (auto dest: progOnly_Inr)
  from tyCallOneArg_rt [OF this] r show ?thesis by simp
next
  case (OpNewFunc name sig bg)
  with s have "prog' = fst (snd (NewFunc prog p name sig bg))" by simp
  with grows_rt [OF NewFunc_grows, of prog p name sig bg] r show ?thesis by simp
next
  case (OpNewVar name ty bg)
  with s have "prog' = fst (snd (NewVar prog p name ty bg))" by simp
  with grows_rt [OF NewVar_grows, of prog p name ty bg] r show ?thesis by simp
next
  case (OpPyFunc name sig)
  with s have "prog' = fst (snd (pyFunc prog p name sig))" by simp
  with pyFunc_rt [of prog p name sig] r show ?thesis by simp
next
  case (OpClosureStub b t v)
  with s obtain e where c: "closureStub addCtx prog p b t v = Inr (e, prog', p')"
    by (auto dest: states_Inr)
  from grows_rt [OF closureStub_frames(1) [OF c]] r show ?thesis by simp
next
  case (OpImportPyMod b path)
  with s obtain e where c: "ImportPyMod prog p b path = Inr (e, prog', p')"
    by (auto dest: states_Inr)
  from ImportPyMod_rt [OF c] r show ?thesis by simp
next
  case (OpPyCall b fn args)
  with s obtain e where c: "pyCall prog p b fn args = Inr (e, prog', p')"
    by (auto dest: states_Inr)
  from pyCall_rt [OF c] r show ?thesis by simp
qed

lemma run_rt:
  "run addCtx ops (prog, p) = Inr (prog', p') \<Longrightarrow> \<not> list_ex clearsRuntime ops \<Longrightarrow>
   rt prog \<noteq> None \<Longrightarrow> rt prog' \<noteq> None \<and> rtgetCalls prog' = rtgetCalls prog"
proof (induction ops arbitrary: prog p)
  case Nil
  then show ?case by simp
next
  case (Cons x xs)
  from Cons.prems(1) obtain prog1 p1 where s: "step addCtx x (prog, p) = Inr (prog1, p1)"
    and r: "run addCtx xs (prog1, p1) = Inr (prog', p')"
    by (cases "step addCtx x (prog, p)") auto
  from Cons.prems(2) have nx: "\<not> clearsRuntime x" and nxs: "\<not> list_ex clearsRuntime xs" by simp_all
  from step_rt [OF s nx Cons.prems(3)]
  have a: "rt prog1 \<noteq> None" and b: "rtgetCalls prog1 = rtgetCalls prog" by simp_all
  from Cons.IH [OF r nxs a] b show ?case by simp
qed

lemma rt_None_again: "rt p = None \<Longrightarrow> p\<lparr>rt := None\<rparr> = p"
  by (cases p) simp

lemma runtime_times_nil:
  "rt p = None \<Longrightarrow> rtget p = Some get \<Longrightarrow> get () = None \<Longrightarrow>
   runtime_times (Suc n) p = Inr (p\<lparr>needRuntime := True, rtgetCalls := rtgetCalls p + Suc n\<rparr>)"
proof (induction n arbitrary: p)
  case 0
  then show ?case by (simp add: runtime_def rt_None_again)
next
  case (Suc n)
  let ?p1 = "p\<lparr>needRuntime := True, rtgetCalls := Suc (rtgetCalls p)\<rparr>"
  from Suc.prems have r: "runtime p = Inr (None, ?p1)" by (simp add: runtime_def rt_None_again)
  from Suc.prems have "runtime_times (Suc n) ?p1 =
      Inr (?p1\<lparr>needRuntime := True, rtgetCalls := rtgetCalls ?p1 + Suc n\<rparr>)"
    by (intro Suc.IH) simp_all
  with r show ?case by simp
qed

lemma grows_py:
  "grows p q \<Longrightarrow>
   pyObjPtr q = pyObjPtr p \<and> callNoArg q = callNoArg p \<and> callOneArg q = callOneArg p"
  by (simp add: grows_def)

lemma python_py:
  "python p = Inr (h, p') \<Longrightarrow>
   pyObjPtr p' = pyObjPtr p \<and> callNoArg p' = callNoArg p \<and> callOneArg p' = callOneArg p"
  by (auto simp: python_def split: option.splits)

lemma pyNamed_py:
  "pyNamed p name = Inr (t, p') \<Longrightarrow>
   pyObjPtr p' = pyObjPtr p \<and> callNoArg p' = callNoArg p \<and> callOneArg p' = callOneArg p"
  by (auto simp: pyNamed_def split: sum.splits option.splits gotype.splits dest: python_py)

lemma PyObjectPtr_py:
  assumes "PyObjectPtr p = Inr (ty, p')"
  shows "pyObjPtr p' = Some ty \<and> callNoArg p' = callNoArg p \<and> callOneArg p' = callOneArg p \<and>
         (\<forall>x. pyObjPtr p = Some x \<longrightarrow> x = ty)"
proof (cases "pyObjPtr p")
  case None
  show ?thesis
  proof (cases "pyNamed p ''Object''")
    case (Inl a)
    with assms None show ?thesis by (simp add: PyObjectPtr_miss)
  next
    case (Inr x)
    with assms None have p': "p' = (snd (rawType (snd x) (Pointer (fst x))))\<lparr>pyObjPtr := Some ty\<rparr>"
      by (auto simp add: PyObjectPtr_miss)
    from Inr have n: "pyNamed p ''Object'' = Inr (fst x, snd x)" by simp
    from grows_py [OF rawType_grows, of "snd x" "Pointer (fst x)"] pyNamed_py [OF n] None
    show ?thesis by (simp add: p')
  qed
next
  case (Some a)
  with assms show ?thesis by (simp add: PyObjectPtr_def)
qed

lemma thunkSig_simps:
  "thunkSig 0 t = ([([], t)], [([], t)])"
  "thunkSig 1 t = ([([], t), ([], t)], [([], t)])"
  by (simp_all add: thunkSig_def)

lemma thunk_ok_mono:
  "thunk_ok p k n \<Longrightarrow> (\<forall>x. pyObjPtr p = Some x \<longrightarrow> pyObjPtr q = Some x) \<Longrightarrow> fns k' = fns k \<Longrightarrow>
   thunk_ok q k' n"
  by (auto simp: thunk_ok_def split: option.splits)

lemma tyCallNoArg_sig:
  assumes t: "tyCallNoArg p = Inr (sig, p')" and ok: "sigs_ok p"
  shows "\<exists>ot. pyObjPtr p' = Some ot \<and> sig = thunkSig 0 (raw ot) \<and> sigs_ok p' \<and>
              (\<forall>x. pyObjPtr p = Some x \<longrightarrow> x = ot)"
proof (cases "callNoArg p")
  case None
  show ?thesis
  proof (cases "PyObjectPtr p")
    case (Inl a)
    with t None show ?thesis by (simp add: tyCallNoArg_miss)
  next
    case (Inr x)
    with t None have sg: "sig = thunkSig 0 (raw (fst x))"
      and p': "p' = (snd x)\<lparr>callNoArg := Some sig\<rparr>"
      by (auto simp add: tyCallNoArg_miss thunkSig_def)
    from Inr have "PyObjectPtr p = Inr (fst x, snd x)" by simp
    note o = PyObjectPtr_py [OF this]
    from o ok have "sigs_ok p'"
      by (auto simp: p' sg sigs_ok_def split: option.splits)
    with o sg show ?thesis by (simp add: p')
  qed
next
  case (Some s)
  with t have "sig = s" and "p' = p" by (simp_all add: tyCallNoArg_def)
  with Some ok show ?thesis by (auto simp: sigs_ok_def split: option.splits)
qed

lemma tyCallOneArg_sig:
  assumes t: "tyCallOneArg p = Inr (sig, p')" and ok: "sigs_ok p"
  shows "\<exists>ot. pyObjPtr p' = Some ot \<and> sig = thunkSig 1 (raw ot) \<and> sigs_ok p' \<and>
              (\<forall>x. pyObjPtr p = Some x \<longrightarrow> x = ot)"
proof (cases "callOneArg p")
  case None
  show ?thesis
  proof (cases "PyObjectPtr p")
    case (Inl a)
    with t None show ?thesis by (simp add: tyCallOneArg_miss)
  next
    case (Inr x)
    with t None have sg: "sig = thunkSig 1 (raw (fst x))"
      and p': "p' = (snd x)\<lparr>callOneArg := Some sig\<rparr>"
      by (auto simp add: tyCallOneArg_miss thunkSig_def)
    from Inr have "PyObjectPtr p = Inr (fst x, snd x)" by simp
    note o = PyObjectPtr_py [OF this]
    from o ok have "sigs_ok p'"
      by (auto simp: p' sg sigs_ok_def split: option.splits)
    with o sg show ?thesis by (simp add: p')
  qed
next
  case (Some s)
  with t have "sig = s" and "p' = p" by (simp_all add: tyCallOneArg_def)
  with Some ok show ?thesis by (auto simp: sigs_ok_def split: option.splits)
qed

lemma typs_ok_Void: "typs_ok p \<Longrightarrow> typs_ok (snd (Void p))"
  by (cases "voidTy p") (simp_all add: Void_def newType_def typs_ok_def)

lemma retType_typs_ok: "typs_ok p \<Longrightarrow> typs_ok (snd (retType p rs))"
  by (simp add: retType_def typs_ok_Void typs_ok_aux(1) split: list.splits)

lemma Call_typs_ok:
  "Call prog p b fn args = Inr (r, prog', p') \<Longrightarrow> typs_ok prog \<Longrightarrow> typs_ok prog'"
  by (auto simp: Call_def split_beta retType_typs_ok split: gotype.splits option.splits)

lemma thunkName_inj: "m < 2 \<Longrightarrow> n < 2 \<Longrightarrow> thunkName m = thunkName n \<Longrightarrow> m = n"
  by (auto simp: thunkName_def split: if_splits)

lemma thunk_call_bridge:
  assumes c: "Call (fst (snd (pyFunc q pkg name sig))) (snd (snd (pyFunc q pkg name sig))) b
                (fst (pyFunc q pkg name sig)) as = Inr (r, prog', pkg')"
    and ot: "pyObjPtr q = Some ot" and s: "sig = thunkSig n (raw ot)"
    and name: "name = thunkName n" and n: "n < 2"
    and inv: "bridge_inv q pkg"
  shows "bridge_inv prog' pkg' \<and> pyObjPtr prog' = Some ot \<and>
         (\<exists>f. fns pkg' name = Some f \<and> impl (fnExpr f) = FuncValue name \<and>
              raw (Type (fnExpr f)) = Signature (fst sig) (snd sig))"
proof -
  let ?q = "q\<lparr>needPyInit := True\<rparr>"
  obtain fn prog2 p2 where nf: "NewFunc ?q pkg name sig InC = (fn, prog2, p2)"
    by (metis prod_cases3)
  have pf: "pyFunc q pkg name sig = (fnExpr fn, prog2, p2)"
    by (simp add: pyFunc_eq nf)
  from c have c': "Call prog2 p2 b (fnExpr fn) as = Inr (r, prog', pkg')" by (simp add: pf)
  from NewFunc_grows [of ?q pkg name sig InC] have g1: "grows ?q prog2" by (simp add: nf)
  note g2 = Call_grows [OF c']
  from grows_py [OF g1] grows_py [OF g2]
  have py: "pyObjPtr prog' = pyObjPtr q" "callNoArg prog' = callNoArg q"
    "callOneArg prog' = callOneArg q" by simp_all
  from inv have tq: "typs_ok q" and sq: "sigs_ok q"
    and k0: "thunk_ok q pkg 0" and k1: "thunk_ok q pkg 1"
    by (simp_all add: bridge_inv_def)
  from tq have tq': "typs_ok ?q" by (simp add: typs_ok_fields)
  from NewFunc_typs_ok [OF tq', of pkg name sig InC] have "typs_ok prog2" by (simp add: nf)
  then have t': "typs_ok prog'" by (rule Call_typs_ok [OF c'])
  from sq py have s': "sigs_ok prog'" by (auto simp: sigs_ok_def split: option.splits)
  from Call_frame [OF c'] have fr: "fns pkg' = fns p2" by simp
  have kn: "thunk_ok q pkg n" using n k0 k1 by (cases "n = 0") (auto simp: numeral_2_eq_2 less_Suc_eq)
  show ?thesis
  proof (cases "fns pkg name")
    case None
    note m = NewFunc_miss [OF None nf]
    from typs_ok_aux(1) [OF tq', of "Signature (fst sig) (snd sig)"] m(3)
    have rw: "raw (Type (fnExpr fn)) = Signature (fst sig) (snd sig)" by simp
    have fp: "fns pkg' = (fns pkg)(name \<mapsto> fn)" by (simp add: fr m(4))
    have th: "thunk_ok prog' pkg' m" if "m < 2" and "thunk_ok q pkg m" for m
    proof (cases "m = n")
      case True
      with py(1) ot rw m(1) show ?thesis
        by (auto simp: thunk_ok_def fp name s split: option.splits)
    next
      case False
      with thunkName_inj [OF that(1) n] have "thunkName m \<noteq> name" by (auto simp: name)
      with that(2) py(1) show ?thesis by (auto simp: thunk_ok_def fp split: option.splits)
    qed
    from th [of 0] th [of 1] k0 k1 t' s' have "bridge_inv prog' pkg'"
      by (simp add: bridge_inv_def)
    with py(1) ot rw m(1) fp show ?thesis by simp
  next
    case (Some f)
    from NewFunc_hit [OF Some, of ?q sig InC] nf have e: "fn = f" "p2 = pkg" by simp_all
    from fr e have fp: "fns pkg' = fns pkg" by simp
    have th: "thunk_ok prog' pkg' m" if "thunk_ok q pkg m" for m
      using that py(1) by (auto simp: thunk_ok_def fp split: option.splits)
    from th [of 0] th [of 1] k0 k1 t' s' have "bridge_inv prog' pkg'"
      by (simp add: bridge_inv_def)
    moreover from kn Some ot have "impl (fnExpr f) = FuncValue name"
      and "raw (Type (fnExpr f)) = Signature (fst sig) (snd sig)"
      by (auto simp: thunk_ok_def name s split: option.splits)
    ultimately show ?thesis using py(1) ot Some fp by simp
  qed
qed

lemma pyObjPtr_succeeds: "pyObjPtr p = Some ot \<Longrightarrow> succeeds (PyObjectPtr p)"
  by (simp add: PyObjectPtr_def succeeds_def)

lemma pyCall_bridge:
  assumes c: "pyCall prog pkg b fn args = Inr (r, prog', pkg')"
    and sig: "raw (Type fn) = Signature ps rs"
    and inv: "bridge_inv prog pkg"
  shows "bridge_inv prog' pkg' \<and> succeeds (PyObjectPtr prog') \<and>
         (\<exists>f ot. fns pkg' (thunkName (length ps)) = Some f \<and> pyObjPtr prog' = Some ot \<and>
                 impl (fnExpr f) = FuncValue (thunkName (length ps)) \<and>
                 raw (Type (fnExpr f)) =
                   Signature (replicate (Suc (length ps)) ([], raw ot)) [([], raw ot)])"
proof -
  from pyCall_not_sig [OF c] sig have len: "length ps < 2" by simp
  from inv have tq: "typs_ok prog" and sq: "sigs_ok prog"
    and k0: "thunk_ok prog pkg 0" and k1: "thunk_ok prog pkg 1"
    by (simp_all add: bridge_inv_def)
  show ?thesis
  proof (cases ps)
    case Nil
    note eq = pyCall_0 [OF sig [unfolded Nil], of prog pkg b args]
    show ?thesis
    proof (cases "tyCallNoArg prog")
      case (Inl a)
      with c eq show ?thesis by simp
    next
      case (Inr x)
      then have t: "tyCallNoArg prog = Inr (fst x, snd x)" by simp
      from tyCallNoArg_sig [OF t sq] obtain ot where ot: "pyObjPtr (snd x) = Some ot"
        and sg: "fst x = thunkSig 0 (raw ot)" and sx: "sigs_ok (snd x)"
        and keep: "\<forall>y. pyObjPtr prog = Some y \<longrightarrow> y = ot" by blast
      from tyCallNoArg_Inr [OF t] tq have tx: "typs_ok (snd x)" by simp
      from keep ot have mono: "\<forall>y. pyObjPtr prog = Some y \<longrightarrow> pyObjPtr (snd x) = Some y" by simp
      from thunk_ok_mono [OF k0 mono refl] thunk_ok_mono [OF k1 mono refl] tx sx
      have ix: "bridge_inv (snd x) pkg" by (simp add: bridge_inv_def)
      from c eq Inr
      have cl: "Call (fst (snd (pyFunc (snd x) pkg ''PyObject_CallNoArg'' (fst x))))
               (snd (snd (pyFunc (snd x) pkg ''PyObject_CallNoArg'' (fst x)))) b
               (fst (pyFunc (snd x) pkg ''PyObject_CallNoArg'' (fst x))) [fn] = Inr (r, prog', pkg')"
        by simp
      have nm: "''PyObject_CallNoArg'' = thunkName 0" by (simp add: thunkName_def)
      from thunk_call_bridge [OF cl ot sg nm _ ix]
      have "bridge_inv prog' pkg' \<and> pyObjPtr prog' = Some ot \<and>
         (\<exists>f. fns pkg' ''PyObject_CallNoArg'' = Some f \<and>
              impl (fnExpr f) = FuncValue ''PyObject_CallNoArg'' \<and>
              raw (Type (fnExpr f)) = Signature (fst (fst x)) (snd (fst x)))" by simp
      with Nil sg pyObjPtr_succeeds [of prog' ot] show ?thesis
        by (auto simp: thunkName_def thunkSig_def)
    qed
  next
    case (Cons q qs)
    with len have ps: "ps = [q]" by simp
    note eq = pyCall_1 [OF sig [unfolded ps], of prog pkg b args]
    show ?thesis
    proof (cases "tyCallOneArg prog")
      case (Inl a)
      with c eq show ?thesis by simp
    next
      case (Inr x)
      then have t: "tyCallOneArg prog = Inr (fst x, snd x)" by simp
      from tyCallOneArg_sig [OF t sq] obtain ot where ot: "pyObjPtr (snd x) = Some ot"
        and sg: "fst x = thunkSig 1 (raw ot)" and sx: "sigs_ok (snd x)"
        and keep: "\<forall>y. pyObjPtr prog = Some y \<longrightarrow> y = ot" by blast
      from tyCallOneArg_Inr [OF t] tq have tx: "typs_ok (snd x)" by simp
      from keep ot have mono: "\<forall>y. pyObjPtr prog = Some y \<longrightarrow> pyObjPtr (snd x) = Some y" by simp
      from thunk_ok_mono [OF k0 mono refl] thunk_ok_mono [OF k1 mono refl] tx sx
      have ix: "bridge_inv (snd x) pkg" by (simp add: bridge_inv_def)
      show ?thesis
      proof (cases args)
        case Nil
        with c eq Inr show ?thesis by simp
      next
        case (Cons a as)
        with c eq Inr
        have cl: "Call (fst (snd (pyFunc (snd x) pkg ''PyObject_CallOneArg'' (fst x))))
                 (snd (snd (pyFunc (snd x) pkg ''PyObject_CallOneArg'' (fst x)))) b
                 (fst (pyFunc (snd x) pkg ''PyObject_CallOneArg'' (fst x))) [fn, a] = Inr (r, prog', pkg')"
          by simp
        have nm: "''PyObject_CallOneArg'' = thunkName 1" by (simp add: thunkName_def)
        from thunk_call_bridge [OF cl ot sg nm _ ix]
        have "bridge_inv prog' pkg' \<and> pyObjPtr prog' = Some ot \<and>
           (\<exists>f. fns pkg' ''PyObject_CallOneArg'' = Some f \<and>
                impl (fnExpr f) = FuncValue ''PyObject_CallOneArg'' \<and>
                raw (Type (fnExpr f)) = Signature (fst (fst x)) (snd (fst x)))" by simp
        with ps sg pyObjPtr_succeeds [of prog' ot] show ?thesis
          by (auto simp: thunkName_def thunkSig_def)
      qed
    qed
  qed
qed

lemma NewFunc_funcNames:
  "funcNames (snd (snd (NewFunc prog p name sig bg))) =
     (if fns p name = None then funcNames p @ [name] else funcNames p)"
  by (cases "fns p name") (simp_all add: NewFunc_def split_beta Let_def funcNames_def)

lemma Call_funcNames:
  "Call prog p b fn args = Inr (r, prog', p') \<Longrightarrow> funcNames p' = funcNames p"
  by (auto simp: Call_def split_beta emit_def funcNames_updFunction
           split: gotype.splits option.splits)

lemma thunk_call_funcNames:
  assumes c: "Call (fst (snd (pyFunc q pkg name sig))) (snd (snd (pyFunc q pkg name sig))) b
                (fst (pyFunc q pkg name sig)) as = Inr (r, prog', pkg')"
  shows "funcNames pkg' = (if fns pkg name = None then funcNames pkg @ [name] else funcNames pkg)"
  using Call_funcNames [OF c] NewFunc_funcNames [of "q\<lparr>needPyInit := True\<rparr>" pkg name sig InC]
  by (simp add: pyFunc_eq)

lemma pyCall_funcNames:
  assumes c: "pyCall prog pkg b fn args = Inr (r, prog', pkg')"
    and sig: "raw (Type fn) = Signature ps rs"
  shows "funcNames pkg' =
           (if fns pkg (thunkName (length ps)) = None
            then funcNames pkg @ [thunkName (length ps)] else funcNames pkg)"
proof -
  from pyCall_not_sig [OF c] sig have len: "length ps < 2" by simp
  show ?thesis
  proof (cases ps)
    case Nil
    note eq = pyCall_0 [OF sig [unfolded Nil], of prog pkg b args]
    show ?thesis
    proof (cases "tyCallNoArg prog")
      case (Inl a)
      with c eq show ?thesis by simp
    next
      case (Inr x)
      with c eq
      have "Call (fst (snd (pyFunc (snd x) pkg ''PyObject_CallNoArg'' (fst x))))
               (snd (snd (pyFunc (snd x) pkg ''PyObject_CallNoArg'' (fst x)))) b
               (fst (pyFunc (snd x) pkg ''PyObject_CallNoArg'' (fst x))) [fn] = Inr (r, prog', pkg')"
        by simp
      from thunk_call_funcNames [OF this] Nil show ?thesis by (simp add: thunkName_def)
    qed
  next
    case (Cons q qs)
    with len have ps: "ps = [q]" by simp
    note eq = pyCall_1 [OF sig [unfolded ps], of prog pkg b args]
    show ?thesis
    proof (cases "tyCallOneArg prog")
      case (Inl a)
      with c eq show ?thesis by simp
    next
      case (Inr x)
      show ?thesis
      proof (cases args)
        case Nil
        with c eq Inr show ?thesis by simp
      next
        case (Cons a as)
        with c eq Inr
        have "Call (fst (snd (pyFunc (snd x) pkg ''PyObject_CallOneArg'' (fst x))))
                 (snd (snd (pyFunc (snd x) pkg ''PyObject_CallOneArg'' (fst x)))) b
                 (fst (pyFunc (snd x) pkg ''PyObject_CallOneArg'' (fst x))) [fn, a] = Inr (r, prog', pkg')"
          by simp
        from thunk_call_funcNames [OF this] ps show ?thesis by (simp add: thunkName_def)
      qed
    qed
  qed
qed

lemma thunk_call_ok_hit:
  assumes hit: "fns pkg name = Some f" and im: "impl (fnExpr f) = FuncValue name"
    and rw: "raw (Type (fnExpr f)) = Signature a c"
    and found: "findFunction (llmod pkg) (valueName (impl (fnExpr (Func b)))) = Some d"
  shows "\<exists>r prog' pkg'.
     Call (fst (snd (pyFunc q pkg name sig))) (snd (snd (pyFunc q pkg name sig))) b
          (fst (pyFunc q pkg name sig)) as = Inr (r, prog', pkg') \<and>
     findFunction (llmod pkg') (valueName (impl (fnExpr (Func b)))) =
       Some (d\<lparr>fbody := fbody d @ [CallInst (FuncValue name) (map impl as) False]\<rparr>)"
proof -
  let ?q = "q\<lparr>needPyInit := True\<rparr>"
  have pf: "pyFunc q pkg name sig = (fnExpr f, ?q, pkg)"
    by (simp add: pyFunc_eq NewFunc_hit [OF hit])
  have "Call ?q pkg b (fnExpr f) as =
          Inr (\<lparr>impl = InstrValue (fname d) (length (fbody d)), Type = fst (retType ?q c)\<rparr>,
               snd (retType ?q c),
               emit pkg b (CallInst (impl (fnExpr f)) (map impl as) False))"
    by (simp add: Call_def rw found split_beta)
  with findFunction_emit [OF found] show ?thesis by (simp add: pf im)
qed

lemma pyCall_ok_inv:
  assumes sig: "raw (Type fn) = Signature ps rs" and len: "length ps < 2"
    and inv: "bridge_inv prog pkg"
    and py: "succeeds (PyObjectPtr prog)"
    and found: "findFunction (llmod pkg) (valueName (impl (fnExpr (Func b)))) = Some d"
    and args: "length ps \<le> length args"
  shows "\<exists>r prog' pkg'. pyCall prog pkg b fn args = Inr (r, prog', pkg') \<and>
     findFunction (llmod pkg') (valueName (impl (fnExpr (Func b)))) =
       Some (d\<lparr>fbody := fbody d @
                 [CallInst (FuncValue (thunkName (length ps)))
                           (map impl (fn # take (length ps) args)) False]\<rparr>)"
proof (cases "fns pkg (thunkName (length ps))")
  case None
  from inv have "typs_ok prog" by (simp add: bridge_inv_def)
  from pyCall_ok [OF sig len this None py found args] show ?thesis .
next
  case (Some f)
  from inv len have "thunk_ok prog pkg (length ps)"
    by (cases "length ps = 0") (auto simp: bridge_inv_def numeral_2_eq_2 less_Suc_eq)
  with Some obtain a c where im: "impl (fnExpr f) = FuncValue (thunkName (length ps))"
    and rw: "raw (Type (fnExpr f)) = Signature a c"
    by (auto simp: thunk_ok_def split: option.splits)
  from py obtain ty prog1 where o: "PyObjectPtr prog = Inr (ty, prog1)"
    by (cases "PyObjectPtr prog") (auto simp: succeeds_def)
  show ?thesis
  proof (cases ps)
    case Nil
    from tyCallNoArg_ok [OF o] obtain s q where t: "tyCallNoArg prog = Inr (s, q)" by blast
    from Some Nil have h: "fns pkg ''PyObject_CallNoArg'' = Some f" by (simp add: thunkName_def)
    from im Nil have i: "impl (fnExpr f) = FuncValue ''PyObject_CallNoArg''"
      by (simp add: thunkName_def)
    from thunk_call_ok_hit [OF h i rw found, of q s "[fn]"] Nil show ?thesis
      by (simp add: pyCall_0 [OF sig [unfolded Nil]] t thunkName_def)
  next
    case (Cons x xs)
    with len have ps: "ps = [x]" by simp
    from args ps obtain a' as where a: "args = a' # as" by (cases args) auto
    from tyCallOneArg_ok [OF o] obtain s q where t: "tyCallOneArg prog = Inr (s, q)" by blast
    from Some ps have h: "fns pkg ''PyObject_CallOneArg'' = Some f" by (simp add: thunkName_def)
    from im ps have i: "impl (fnExpr f) = FuncValue ''PyObject_CallOneArg''"
      by (simp add: thunkName_def)
    from thunk_call_ok_hit [OF h i rw found, of q s "[fn, a']"] ps a show ?thesis
      by (simp add: pyCall_1 [OF sig [unfolded ps]] t thunkName_def)
  qed
qed

lemma pyCall_cases:
  assumes c: "pyCall prog pkg b fn args = Inr (r, prog', pkg')"
    and sig: "raw (Type fn) = Signature ps rs"
  shows "(\<exists>s q. ps = [] \<and> tyCallNoArg prog = Inr (s, q) \<and>
            Call (fst (snd (pyFunc q pkg ''PyObject_CallNoArg'' s)))
                 (snd (snd (pyFunc q pkg ''PyObject_CallNoArg'' s))) b
                 (fst (pyFunc q pkg ''PyObject_CallNoArg'' s)) [fn] = Inr (r, prog', pkg')) \<or>
         (\<exists>x a as s q. ps = [x] \<and> args = a # as \<and> tyCallOneArg prog = Inr (s, q) \<and>
            Call (fst (snd (pyFunc q pkg ''PyObject_CallOneArg'' s)))
                 (snd (snd (pyFunc q pkg ''PyObject_CallOneArg'' s))) b
                 (fst (pyFunc q pkg ''PyObject_CallOneArg'' s)) [fn, a] = Inr (r, prog', pkg'))"
proof -
  from pyCall_not_sig [OF c] sig have len: "length ps < 2" by simp
  show ?thesis
  proof (cases ps)
    case Nil
    note eq = pyCall_0 [OF sig [unfolded Nil], of prog pkg b args]
    show ?thesis
    proof (cases "tyCallNoArg prog")
      case (Inl a)
      with c eq show ?thesis by simp
    next
      case (Inr x)
      then have t: "tyCallNoArg prog = Inr (fst x, snd x)" by simp
      from c eq Inr
      have "Call (fst (snd (pyFunc (snd x) pkg ''PyObject_CallNoArg'' (fst x))))
               (snd (snd (pyFunc (snd x) pkg ''PyObject_CallNoArg'' (fst x)))) b
               (fst (pyFunc (snd x) pkg ''PyObject_CallNoArg'' (fst x))) [fn] = Inr (r, prog', pkg')"
        by simp
      with Nil t show ?thesis by blast
    qed
  next
    case (Cons q qs)
    with len have ps: "ps = [q]" by simp
    note eq = pyCall_1 [OF sig [unfolded ps], of prog pkg b args]
    show ?thesis
    proof (cases "tyCallOneArg prog")
      case (Inl a)
      with c eq show ?thesis by simp
    next
      case (Inr x)
      then have t: "tyCallOneArg prog = Inr (fst x, snd x)" by simp
      show ?thesis
      proof (cases args)
        case Nil
        with c eq Inr show ?thesis by simp
      next
        case (Cons a as)
        with c eq Inr
        have "Call (fst (snd (pyFunc (snd x) pkg ''PyObject_CallOneArg'' (fst x))))
                 (snd (snd (pyFunc (snd x) pkg ''PyObject_CallOneArg'' (fst x)))) b
                 (fst (pyFunc (snd x) pkg ''PyObject_CallOneArg'' (fst x))) [fn, a] = Inr (r, prog', pkg')"
          by simp
        with ps Cons t show ?thesis by blast
      qed
    qed
  qed
qed

lemma typs_ok_fields2:
  "typs_ok (p\<lparr>voidTy := a\<rparr>) = typs_ok p"
  "typs_ok (p\<lparr>voidPtr := a\<rparr>) = typs_ok p"
  "typs_ok (p\<lparr>boolTy := a\<rparr>) = typs_ok p"
  "typs_ok (p\<lparr>cstrTy := a\<rparr>) = typs_ok p"
  "typs_ok (p\<lparr>needRuntime := c\<rparr>) = typs_ok p"
  by (rule typs_ok_cong, simp)+

lemma typs_ok_Bool_ty: "typs_ok p \<Longrightarrow> typs_ok (snd (Bool_ty p))"
  by (cases "boolTy p") (simp_all add: Bool_ty_def split_beta typs_ok_fields2 typs_ok_aux(1))

lemma typs_ok_CStr: "typs_ok p \<Longrightarrow> typs_ok (snd (CStr p))"
  by (cases "cstrTy p") (simp_all add: CStr_def split_beta typs_ok_fields2 typs_ok_aux(1))

lemma NewVar_typs_ok: "typs_ok prog \<Longrightarrow> typs_ok (fst (snd (NewVar prog p name ty bg)))"
  by (cases "vars p name") (simp_all add: NewVar_def split_beta Let_def typs_ok_aux(1))

lemma Builder_CStr_typs_ok: "typs_ok prog \<Longrightarrow> typs_ok (snd (Builder_CStr prog v))"
  by (simp add: Builder_CStr_def split_beta typs_ok_CStr)

lemma pyFunc_typs_ok: "typs_ok prog \<Longrightarrow> typs_ok (fst (snd (pyFunc prog p name sig)))"
  by (simp add: pyFunc_eq NewFunc_typs_ok typs_ok_fields)

lemma thunk_call_typs_ok:
  assumes c: "Call (fst (snd (pyFunc q pkg name sig))) (snd (snd (pyFunc q pkg name sig))) b
                (fst (pyFunc q pkg name sig)) as = Inr (r, prog', pkg')"
    and q: "typs_ok q"
  shows "typs_ok prog'"
  by (rule Call_typs_ok [OF c pyFunc_typs_ok [OF q]])

lemma pyCall_typs_ok:
  assumes c: "pyCall prog pkg b fn args = Inr (r, prog', pkg')" and ok: "typs_ok prog"
  shows "typs_ok prog'"
proof -
  from pyCall_not_sig [OF c] obtain ps rs where sig: "raw (Type fn) = Signature ps rs" by blast
  from pyCall_cases [OF c sig] show ?thesis
  proof (elim disjE exE conjE)
    fix s q
    assume t: "tyCallNoArg prog = Inr (s, q)"
      and cl: "Call (fst (snd (pyFunc q pkg ''PyObject_CallNoArg'' s)))
                 (snd (snd (pyFunc q pkg ''PyObject_CallNoArg'' s))) b
                 (fst (pyFunc q pkg ''PyObject_CallNoArg'' s)) [fn] = Inr (r, prog', pkg')"
    from tyCallNoArg_Inr [OF t] ok have "typs_ok q" by simp
    then show ?thesis by (rule thunk_call_typs_ok [OF cl])
  next
    fix x a as s q
    assume t: "tyCallOneArg prog = Inr (s, q)"
      and cl: "Call (fst (snd (pyFunc q pkg ''PyObject_CallOneArg'' s)))
                 (snd (snd (pyFunc q pkg ''PyObject_CallOneArg'' s))) b
                 (fst (pyFunc q pkg ''PyObject_CallOneArg'' s)) [fn, a] = Inr (r, prog', pkg')"
    from tyCallOneArg_Inr [OF t] ok have "typs_ok q" by simp
    then show ?thesis by (rule thunk_call_typs_ok [OF cl])
  qed
qed

lemma ImportPyMod_typs_ok:
  assumes "ImportPyMod prog pkg b path = Inr (r, prog', pkg')" and ok: "typs_ok prog"
  shows "typs_ok prog'"
proof (cases "tyImportPyModule prog")
  case (Inl a)
  with assms show ?thesis by (simp add: ImportPyMod_def)
next
  case (Inr x)
  let ?pf = "pyFunc (snd x) pkg ''PyImport_ImportModule'' (fst x)"
  let ?cs = "Builder_CStr (fst (snd ?pf)) path"
  from Inr have "tyImportPyModule prog = Inr (fst x, snd x)" by simp
  from tyImportPyModule_Inr [OF this] ok have "typs_ok (snd x)" by simp
  then have "typs_ok (snd ?cs)" by (intro Builder_CStr_typs_ok pyFunc_typs_ok)
  moreover from assms Inr
  have c: "Call (snd ?cs) (snd (snd ?pf)) b (fst ?pf) [fst ?cs] = Inr (r, prog', pkg')"
    by (simp add: ImportPyMod_def split_beta)
  ultimately show ?thesis by (rule Call_typs_ok [rotated])
qed

lemma closureStub_else_typs_ok:
  assumes "closureStub_else addCtx prog p name v ps rs = Inr (e, prog', p')" and ok: "typs_ok prog"
  shows "typs_ok prog'"
proof -
  let ?nf = "NewFunc prog p (ClosureStub @ name) (addCtx (ClosureCtx, Typ UnsafePointer) (ps, rs)) InC"
  let ?fn = "fst ?nf"
  let ?p3 = "SetLinkage (snd (snd ?nf)) (impl (fnExpr ?fn)) LinkOnceAnyLinkage"
  from assms obtain args where a: "stubArgs ?fn [0..<length ps] = Inr args"
    by (auto simp: closureStub_else_def Let_def split_beta split: sum.splits)
  from assms a obtain call p4 where
    c: "Call (fst (snd ?nf)) ?p3 (MakeBody ?fn 1) v args = Inr (call, prog', p4)"
    by (auto simp: closureStub_else_def Let_def split_beta split: sum.splits)
  from Call_typs_ok [OF c NewFunc_typs_ok [OF ok]] show ?thesis .
qed

lemma closureStub_typs_ok:
  assumes "closureStub addCtx prog p b t v = Inr (e, prog', p')" and ok: "typs_ok prog"
  shows "typs_ok prog'"
proof (cases "stubs p (valueName (impl v))")
  case (Some fn)
  from assms have prog': "prog' = snd (rawType (snd (VoidPtr prog)) t)"
    by (simp_all add: closureStub_hit [OF Some])
  from typs_ok_VoidPtr [OF ok] show ?thesis unfolding prog' by (simp add: typs_ok_aux(1))
next
  case None
  from closureStub_miss_not_sig [OF None assms(1)] obtain ps rs
    where sig: "raw (Type v) = Signature ps rs" by blast
  note eq = closureStub_miss [OF None sig, of addCtx prog b t]
  from assms eq obtain v' prog4 where
    el: "closureStub_else addCtx (snd (VoidPtr prog)) p (valueName (impl v)) v ps rs = Inr (v', prog4, p')"
    and prog': "prog' = snd (rawType prog4 t)"
    by (auto split: sum.splits)
  from closureStub_else_typs_ok [OF el typs_ok_VoidPtr [OF ok]] show ?thesis
    unfolding prog' by (simp add: typs_ok_aux(1))
qed

lemma sigs_ok_cong:
  "pyObjPtr q = pyObjPtr p \<Longrightarrow> callNoArg q = callNoArg p \<Longrightarrow> callOneArg q = callOneArg p \<Longrightarrow>
   sigs_ok p \<Longrightarrow> sigs_ok q"
  by (auto simp: sigs_ok_def split: option.splits)

lemma sigs_ok_grows: "grows p q \<Longrightarrow> sigs_ok p \<Longrightarrow> sigs_ok q"
  using grows_py [of p q] by (auto intro: sigs_ok_cong)

lemma PyObjectPtr_sigs_ok:
  assumes "PyObjectPtr p = Inr (ty, p')" and "sigs_ok p"
  shows "sigs_ok p'"
  using PyObjectPtr_py [OF assms(1)] assms(2)
  by (auto simp: sigs_ok_def split: option.splits)

lemma tyImportPyModule_sigs_ok:
  assumes "tyImportPyModule p = Inr (sig, p')" and ok: "sigs_ok p"
  shows "sigs_ok p'"
proof (cases "pyImpTy p")
  case None
  show ?thesis
  proof (cases "PyObjectPtr p")
    case (Inl a)
    with assms None show ?thesis by (simp add: tyImportPyModule_miss)
  next
    case (Inr x)
    with assms None have p': "p' = (snd x)\<lparr>pyImpTy := Some sig\<rparr>"
      by (auto simp add: tyImportPyModule_miss)
    from Inr have "PyObjectPtr p = Inr (fst x, snd x)" by simp
    from PyObjectPtr_sigs_ok [OF this ok] show ?thesis
      by (rule sigs_ok_cong [rotated 3]) (simp_all add: p')
  qed
next
  case (Some a)
  with assms show ?thesis by (simp add: tyImportPyModule_def)
qed

lemma pyFunc_sigs_ok: "sigs_ok prog \<Longrightarrow> sigs_ok (fst (snd (pyFunc prog p name sig)))"
proof -
  assume "sigs_ok prog"
  then have "sigs_ok (prog\<lparr>needPyInit := True\<rparr>)" by (rule sigs_ok_cong [rotated 3]) simp_all
  with NewFunc_grows [of "prog\<lparr>needPyInit := True\<rparr>" p name sig InC] show ?thesis
    by (simp add: pyFunc_eq sigs_ok_grows)
qed

lemma thunk_call_sigs_ok:
  assumes c: "Call (fst (snd (pyFunc q pkg name sig))) (snd (snd (pyFunc q pkg name sig))) b
                (fst (pyFunc q pkg name sig)) as = Inr (r, prog', pkg')"
    and q: "sigs_ok q"
  shows "sigs_ok prog'"
  by (rule sigs_ok_grows [OF Call_grows [OF c] pyFunc_sigs_ok [OF q]])

lemma pyCall_sigs_ok:
  assumes c: "pyCall prog pkg b fn args = Inr (r, prog', pkg')" and ok: "sigs_ok prog"
  shows "sigs_ok prog'"
proof -
  from pyCall_not_sig [OF c] obtain ps rs where sig: "raw (Type fn) = Signature ps rs" by blast
  from pyCall_cases [OF c sig] show ?thesis
  proof (elim disjE exE conjE)
    fix s q
    assume t: "tyCallNoArg prog = Inr (s, q)"
      and cl: "Call (fst (snd (pyFunc q pkg ''PyObject_CallNoArg'' s)))
                 (snd (snd (pyFunc q pkg ''PyObject_CallNoArg'' s))) b
                 (fst (pyFunc q pkg ''PyObject_CallNoArg'' s)) [fn] = Inr (r, prog', pkg')"
    from tyCallNoArg_sig [OF t ok] have "sigs_ok q" by blast
    then show ?thesis by (rule thunk_call_sigs_ok [OF cl])
  next
    fix x a as s q
    assume t: "tyCallOneArg prog = Inr (s, q)"
      and cl: "Call (fst (snd (pyFunc q pkg ''PyObject_CallOneArg'' s)))
                 (snd (snd (pyFunc q pkg ''PyObject_CallOneArg'' s))) b
                 (fst (pyFunc q pkg ''PyObject_CallOneArg'' s)) [fn, a] = Inr (r, prog', pkg')"
    from tyCallOneArg_sig [OF t ok] have "sigs_ok q" by blast
    then show ?thesis by (rule thunk_call_sigs_ok [OF cl])
  qed
qed

lemma ImportPyMod_sigs_ok:
  assumes "ImportPyMod prog pkg b path = Inr (r, prog', pkg')" and ok: "sigs_ok prog"
  shows "sigs_ok prog'"
proof (cases "tyImportPyModule prog")
  case (Inl a)
  with assms show ?thesis by (simp add: ImportPyMod_def)
next
  case (Inr x)
  let ?pf = "pyFunc (snd x) pkg ''PyImport_ImportModule'' (fst x)"
  let ?cs = "Builder_CStr (fst (snd ?pf)) path"
  from Inr have "tyImportPyModule prog = Inr (fst x, snd x)" by simp
  from tyImportPyModule_sigs_ok [OF this ok] have "sigs_ok (fst (snd ?pf))" by (rule pyFunc_sigs_ok)
  moreover from assms Inr
  have c: "Call (snd ?cs) (snd (snd ?pf)) b (fst ?pf) [fst ?cs] = Inr (r, prog', pkg')"
    by (simp add: ImportPyMod_def split_beta)
  ultimately show ?thesis
    by (intro sigs_ok_grows [OF grows_trans [OF Builder_CStr_grows Call_grows [OF c]]])
qed

lemma sigs_ok_NewProgram: "sigs_ok NewProgram"
  by (simp add: sigs_ok_def NewProgram_def)

lemma step_prog_inv:
  assumes s: "step addCtx x (prog, p) = Inr (prog', p')"
    and t: "typs_ok prog" and g: "sigs_ok prog"
  shows "typs_ok prog' \<and> sigs_ok prog'"
proof (cases x)
  case (OpSetPython a)
  with s have e: "prog' = SetPython prog a" by simp
  from t have "typs_ok prog'" unfolding e by (simp add: typs_ok_cong [OF Set_typs(1)])
  moreover from g have "sigs_ok prog'" unfolding e
    by (rule sigs_ok_cong [rotated 3]) (cases a; simp add: SetPython_def)+
  ultimately show ?thesis ..
next
  case (OpSetRuntime a)
  with s have e: "prog' = SetRuntime prog a" by simp
  from t have "typs_ok prog'" unfolding e by (simp add: typs_ok_cong [OF Set_typs(2)])
  moreover from g have "sigs_ok prog'" unfolding e
    by (rule sigs_ok_cong [rotated 3]) (cases a; simp add: SetRuntime_def)+
  ultimately show ?thesis ..
next
  case OpRuntime
  with s obtain h where r: "runtime prog = Inr (h, prog')"
    by (auto dest: progOnly_Inr)
  from t have "typs_ok prog'" by (simp add: typs_ok_cong [OF runtime_typs [OF r]])
  moreover from r have "pyObjPtr prog' = pyObjPtr prog \<and> callNoArg prog' = callNoArg prog \<and>
      callOneArg prog' = callOneArg prog"
    by (auto simp: runtime_def split: option.splits)
  with g have "sigs_ok prog'" by (auto intro: sigs_ok_cong)
  ultimately show ?thesis ..
next
  case OpPython
  with s obtain h where r: "python prog = Inr (h, prog')"
    by (auto dest: progOnly_Inr)
  from t have "typs_ok prog'" by (simp add: typs_ok_cong [OF python_typs [OF r]])
  moreover from g python_py [OF r] have "sigs_ok prog'"
    by (auto intro: sigs_ok_cong)
  ultimately show ?thesis ..
next
  case (OpNewPackage name path)
  with s have e: "prog' = prog\<lparr>needRuntime := False\<rparr>" by (simp add: NewPackage_def)
  from t have "typs_ok prog'" unfolding e by (simp add: typs_ok_fields2)
  moreover from g have "sigs_ok prog'" unfolding e by (rule sigs_ok_cong [rotated 3]) simp_all
  ultimately show ?thesis ..
next
  case (OpRawType u)
  with s have e: "prog' = snd (rawType prog u)" by simp
  from t g show ?thesis unfolding e by (simp add: typs_ok_aux(1) sigs_ok_grows [OF rawType_grows])
next
  case OpVoid
  with s have e: "prog' = snd (Void prog)" by simp
  from t g show ?thesis unfolding e by (simp add: typs_ok_Void sigs_ok_grows [OF Void_grows])
next
  case OpVoidPtr
  with s have e: "prog' = snd (VoidPtr prog)" by simp
  from t g show ?thesis unfolding e by (simp add: typs_ok_VoidPtr sigs_ok_grows [OF VoidPtr_grows])
next
  case OpBool
  with s have e: "prog' = snd (Bool_ty prog)" by simp
  from t g show ?thesis unfolding e by (simp add: typs_ok_Bool_ty sigs_ok_grows [OF Bool_ty_grows])
next
  case OpCStr
  with s have e: "prog' = snd (CStr prog)" by simp
  from t g show ?thesis unfolding e by (simp add: typs_ok_CStr sigs_ok_grows [OF CStr_grows])
next
  case OpPyObjectPtr
  with s obtain v where r: "PyObjectPtr prog = Inr (v, prog')"
    by (auto dest: progOnly_Inr)
  from PyObjectPtr_Inr [OF r] t PyObjectPtr_sigs_ok [OF r g] show ?thesis by simp
next
  case OpTyImportPyModule
  with s obtain v where r: "tyImportPyModule prog = Inr (v, prog')"
    by (auto dest: progOnly_Inr)
  from tyImportPyModule_Inr [OF r] t tyImportPyModule_sigs_ok [OF r g] show ?thesis by simp
next
  case OpTyCallNoArg
  with s obtain v where r: "tyCallNoArg prog = Inr (v, prog')"
    by (auto dest: progOnly_Inr)
  from tyCallNoArg_Inr [OF r] t tyCallNoArg_sig [OF r g] show ?thesis by blast
next
  case OpTyCallOneArg
  with s obtain v where r: "tyCallOneArg prog = Inr (v, prog')"
    by (auto dest: progOnly_Inr)
  from tyCallOneArg_Inr [OF r] t tyCallOneArg_sig [OF r g] show ?thesis by blast
next
  case (OpNewFunc name sig bg)
  with s have e: "prog' = fst (snd (NewFunc prog p name sig bg))" by simp
  from t g show ?thesis unfolding e by (simp add: NewFunc_typs_ok sigs_ok_grows [OF NewFunc_grows])
next
  case (OpNewVar name ty bg)
  with s have e: "prog' = fst (snd (NewVar prog p name ty bg))" by simp
  from t g show ?thesis unfolding e by (simp add: NewVar_typs_ok sigs_ok_grows [OF NewVar_grows])
next
  case (OpPyFunc name sig)
  with s have e: "prog' = fst (snd (pyFunc prog p name sig))" by simp
  from t g show ?thesis unfolding e by (simp add: pyFunc_typs_ok pyFunc_sigs_ok)
next
  case (OpClosureStub b u v)
  with s obtain e where c: "closureStub addCtx prog p b u v = Inr (e, prog', p')"
    by (auto dest: states_Inr)
  from closureStub_typs_ok [OF c t] sigs_ok_grows [OF closureStub_frames(1) [OF c] g]
  show ?thesis by simp
next
  case (OpImportPyMod b path)
  with s obtain e where c: "ImportPyMod prog p b path = Inr (e, prog', p')"
    by (auto dest: states_Inr)
  from ImportPyMod_typs_ok [OF c t] ImportPyMod_sigs_ok [OF c g] show ?thesis by simp
next
  case (OpPyCall b fn args)
  with s obtain e where c: "pyCall prog p b fn args = Inr (e, prog', p')"
    by (auto dest: states_Inr)
  from pyCall_typs_ok [OF c t] pyCall_sigs_ok [OF c g] show ?thesis by simp
qed

lemma run_prog_inv:
  "run addCtx ops (prog, p) = Inr (prog', p') \<Longrightarrow> typs_ok prog \<Longrightarrow> sigs_ok prog \<Longrightarrow>
   typs_ok prog' \<and> sigs_ok prog'"
proof (induction ops arbitrary: prog p)
  case Nil
  then show ?case by simp
next
  case (Cons x xs)
  from Cons.prems(1) obtain prog1 p1 where s: "step addCtx x (prog, p) = Inr (prog1, p1)"
    and r: "run addCtx xs (prog1, p1) = Inr (prog', p')"
    by (cases "step addCtx x (prog, p)") auto
  from step_prog_inv [OF s Cons.prems(2,3)] have "typs_ok prog1" "sigs_ok prog1" by simp_all
  from Cons.IH [OF r this] show ?case .
qed

lemma thunk_call_decl:
  assumes c: "Call (fst (snd (pyFunc q pkg name sig))) (snd (snd (pyFunc q pkg name sig))) b
                (fst (pyFunc q pkg name sig)) as = Inr (r, prog', pkg')"
    and tq: "typs_ok q" and fresh: "fns pkg name = None"
  shows "pyObjPtr prog' = pyObjPtr q \<and>
         (\<exists>f. fns pkg' name = Some f \<and> impl (fnExpr f) = FuncValue name \<and>
              raw (Type (fnExpr f)) = Signature (fst sig) (snd sig))"
proof -
  let ?q = "q\<lparr>needPyInit := True\<rparr>"
  obtain fn prog2 p2 where nf: "NewFunc ?q pkg name sig InC = (fn, prog2, p2)"
    by (metis prod_cases3)
  have pf: "pyFunc q pkg name sig = (fnExpr fn, prog2, p2)"
    by (simp add: pyFunc_eq nf)
  from c have c': "Call prog2 p2 b (fnExpr fn) as = Inr (r, prog', pkg')" by (simp add: pf)
  from NewFunc_grows [of ?q pkg name sig InC] have g1: "grows ?q prog2" by (simp add: nf)
  from grows_py [OF g1] grows_py [OF Call_grows [OF c']]
  have py: "pyObjPtr prog' = pyObjPtr q" by simp
  from tq have tq': "typs_ok ?q" by (simp add: typs_ok_fields)
  note m = NewFunc_miss [OF fresh nf]
  from typs_ok_aux(1) [OF tq', of "Signature (fst sig) (snd sig)"] m(3)
  have rw: "raw (Type (fnExpr fn)) = Signature (fst sig) (snd sig)" by simp
  from Call_frame [OF c'] have "fns pkg' name = Some fn" by (simp add: m(4))
  with py rw m(1) show ?thesis by simp
qed

lemma pyCall_decl:
  assumes c: "pyCall prog pkg b fn args = Inr (r, prog', pkg')"
    and sig: "raw (Type fn) = Signature ps rs"
    and tq: "typs_ok prog" and sq: "sigs_ok prog"
    and fresh: "fns pkg (thunkName (length ps)) = None"
  shows "\<exists>f ot. fns pkg' (thunkName (length ps)) = Some f \<and> pyObjPtr prog' = Some ot \<and>
                impl (fnExpr f) = FuncValue (thunkName (length ps)) \<and>
                raw (Type (fnExpr f)) =
                  Signature (replicate (Suc (length ps)) ([], raw ot)) [([], raw ot)]"
  using pyCall_cases [OF c sig]
proof (elim disjE exE conjE)
  fix s q
  assume ps: "ps = []" and t: "tyCallNoArg prog = Inr (s, q)"
    and cl: "Call (fst (snd (pyFunc q pkg ''PyObject_CallNoArg'' s)))
               (snd (snd (pyFunc q pkg ''PyObject_CallNoArg'' s))) b
               (fst (pyFunc q pkg ''PyObject_CallNoArg'' s)) [fn] = Inr (r, prog', pkg')"
  from tyCallNoArg_sig [OF t sq] obtain ot where ot: "pyObjPtr q = Some ot"
    and sg: "s = thunkSig 0 (raw ot)" by blast
  from tyCallNoArg_Inr [OF t] tq have tx: "typs_ok q" by simp
  from fresh ps have fr: "fns pkg ''PyObject_CallNoArg'' = None" by (simp add: thunkName_def)
  from thunk_call_decl [OF cl tx fr] ot sg ps show ?thesis
    by (auto simp: thunkName_def thunkSig_def)
next
  fix x a as s q
  assume ps: "ps = [x]" and t: "tyCallOneArg prog = Inr (s, q)"
    and cl: "Call (fst (snd (pyFunc q pkg ''PyObject_CallOneArg'' s)))
               (snd (snd (pyFunc q pkg ''PyObject_CallOneArg'' s))) b
               (fst (pyFunc q pkg ''PyObject_CallOneArg'' s)) [fn, a] = Inr (r, prog', pkg')"
  from tyCallOneArg_sig [OF t sq] obtain ot where ot: "pyObjPtr q = Some ot"
    and sg: "s = thunkSig 1 (raw ot)" by blast
  from tyCallOneArg_Inr [OF t] tq have tx: "typs_ok q" by simp
  from fresh ps have fr: "fns pkg ''PyObject_CallOneArg'' = None" by (simp add: thunkName_def)
  from thunk_call_decl [OF cl tx fr] ot sg ps show ?thesis
    by (auto simp: thunkName_def thunkSig_def)
qed

lemma thunk_call_reuse:
  assumes c: "Call (fst (snd (pyFunc q pkg name sig))) (snd (snd (pyFunc q pkg name sig))) b
                (fst (pyFunc q pkg name sig)) as = Inr (r, prog', pkg')"
    and hit: "fns pkg name \<noteq> None"
  shows "fns pkg' = fns pkg"
proof -
  from hit obtain f where f: "fns pkg name = Some f" by blast
  have pf: "pyFunc q pkg name sig = (fnExpr f, q\<lparr>needPyInit := True\<rparr>, pkg)"
    by (simp add: pyFunc_eq NewFunc_hit [OF f])
  from c have "Call (q\<lparr>needPyInit := True\<rparr>) pkg b (fnExpr f) as = Inr (r, prog', pkg')"
    by (simp add: pf)
  from Call_frame [OF this] show ?thesis by simp
qed

lemma pyCall_reuse:
  assumes c: "pyCall prog pkg b fn args = Inr (r, prog', pkg')"
    and sig: "raw (Type fn) = Signature ps rs"
    and hit: "fns pkg (thunkName (length ps)) \<noteq> None"
  shows "fns pkg' = fns pkg"
  using pyCall_cases [OF c sig]
proof (elim disjE exE conjE)
  fix s q
  assume ps: "ps = []"
    and cl: "Call (fst (snd (pyFunc q pkg ''PyObject_CallNoArg'' s)))
               (snd (snd (pyFunc q pkg ''PyObject_CallNoArg'' s))) b
               (fst (pyFunc q pkg ''PyObject_CallNoArg'' s)) [fn] = Inr (r, prog', pkg')"
  from hit ps have "fns pkg ''PyObject_CallNoArg'' \<noteq> None" by (simp add: thunkName_def)
  with cl show ?thesis by (rule thunk_call_reuse)
next
  fix x a as s q
  assume ps: "ps = [x]"
    and cl: "Call (fst (snd (pyFunc q pkg ''PyObject_CallOneArg'' s)))
               (snd (snd (pyFunc q pkg ''PyObject_CallOneArg'' s))) b
               (fst (pyFunc q pkg ''PyObject_CallOneArg'' s)) [fn, a] = Inr (r, prog', pkg')"
  from hit ps have "fns pkg ''PyObject_CallOneArg'' \<noteq> None" by (simp add: thunkName_def)
  with cl show ?thesis by (rule thunk_call_reuse)
qed

subsection \<open>The claims\<close>

text \<open>
  Claim C1. Two lowering requests for the same source type \<open>T\<close> within one Program
  return the identical Type. The first request stores its result in the cache under
  \<open>T\<close>; a later request returns the same \<^verbatim>\<open>aType\<close> object (the same \<open>ident\<close>) and leaves the
  Program as it was, so nothing is computed or allocated again. This holds after any
  sequence \<open>ts\<close> of other lowering requests, and after any run \<open>ops\<close> of operations on the
  Program and its Packages that returns. The accessor \<^verbatim>\<open>Bool\<close> of the source returns on
  its second call what it returned on its first.
\<close>

theorem type_identity:
  assumes "rawType p T = (ty, p1)"
  shows "typs p1 T = Some ty \<and>
         rawType (lowerAll p1 ts) T = (ty, lowerAll p1 ts) \<and>
         (run addCtx ops (p1, k) = Inr (p2, k2) \<longrightarrow> rawType p2 T = (ty, p2)) \<and>
         (Bool_ty q = (b, q1) \<longrightarrow> Bool_ty q1 = (b, q1))"
proof -
  from assms have c: "typs p1 T = Some ty" by (rule rawType_stores)
  then have "typs (lowerAll p1 ts) T = Some ty" by (rule typs_kept_lowerAll)
  then have l: "rawType (lowerAll p1 ts) T = (ty, lowerAll p1 ts)" by (rule rawType_hit)
  have r: "run addCtx ops (p1, k) = Inr (p2, k2) \<longrightarrow> rawType p2 T = (ty, p2)"
  proof
    assume "run addCtx ops (p1, k) = Inr (p2, k2)"
    from typs_keptD [OF run_typs_kept [OF this] c] show "rawType p2 T = (ty, p2)"
      by (rule rawType_hit)
  qed
  from c l r show ?thesis by (simp add: Bool_ty_again)
qed

text \<open>
  The pointer to \<^verbatim>\<open>int8\<close>, lowered in a new Program and requested again after the lowering
  of two other types, one of which contains it, and after a run that lowers a type and
  declares a foreign thunk.
\<close>

theorem type_identity_witness:
  "rawType NewProgram (Pointer (Typ Int8)) =
     (\<lparr>ident = 1, ll = LPointer (LBasic Int8), raw = Pointer (Typ Int8)\<rparr>,
      snd (rawType NewProgram (Pointer (Typ Int8)))) \<and>
   rawType (lowerAll (snd (rawType NewProgram (Pointer (Typ Int8)))) [Typ Bool, Pointer (Pointer (Typ Int8))])
       (Pointer (Typ Int8)) =
     (\<lparr>ident = 1, ll = LPointer (LBasic Int8), raw = Pointer (Typ Int8)\<rparr>,
      lowerAll (snd (rawType NewProgram (Pointer (Typ Int8)))) [Typ Bool, Pointer (Pointer (Typ Int8))]) \<and>
   run FuncAddCtx_leading [OpRawType (Typ Bool), OpPyFunc ''PyObject_CallNoArg'' ([], [])]
       (snd (rawType NewProgram (Pointer (Typ Int8))), snd (snd example_main)) =
     Inr (snd (pyFunc (snd (rawType (snd (rawType NewProgram (Pointer (Typ Int8)))) (Typ Bool)))
                 (snd (snd example_main)) ''PyObject_CallNoArg'' ([], []))) \<and>
   rawType (fst (snd (pyFunc (snd (rawType (snd (rawType NewProgram (Pointer (Typ Int8)))) (Typ Bool)))
                        (snd (snd example_main)) ''PyObject_CallNoArg'' ([], []))))
       (Pointer (Typ Int8)) =
     (\<lparr>ident = 1, ll = LPointer (LBasic Int8), raw = Pointer (Typ Int8)\<rparr>,
      fst (snd (pyFunc (snd (rawType (snd (rawType NewProgram (Pointer (Typ Int8)))) (Typ Bool)))
                  (snd (snd example_main)) ''PyObject_CallNoArg'' ([], [])))) \<and>
   Bool_ty (snd (Bool_ty NewProgram)) = Bool_ty NewProgram"
proof -
  let ?T = "Pointer (Typ Int8)"
  let ?p1 = "snd (rawType NewProgram ?T)"
  let ?ops = "[OpRawType (Typ Bool), OpPyFunc ''PyObject_CallNoArg'' ([], [])]"
  let ?pf = "pyFunc (snd (rawType ?p1 (Typ Bool))) (snd (snd example_main)) ''PyObject_CallNoArg'' ([], [])"
  have e: "rawType NewProgram ?T =
     (\<lparr>ident = 1, ll = LPointer (LBasic Int8), raw = Pointer (Typ Int8)\<rparr>, ?p1)"
    by (simp add: rawType.simps NewProgram_def newType_def)
  have r: "run FuncAddCtx_leading ?ops (?p1, snd (snd example_main)) = Inr (fst (snd ?pf), snd (snd ?pf))"
    by (simp add: step_total)
  have b: "Bool_ty NewProgram = (fst (Bool_ty NewProgram), snd (Bool_ty NewProgram))" by simp
  from type_identity [OF e, of "[Typ Bool, Pointer (Pointer (Typ Int8))]" FuncAddCtx_leading ?ops
      "snd (snd example_main)" "fst (snd ?pf)" "snd (snd ?pf)" NewProgram
      "fst (Bool_ty NewProgram)" "snd (Bool_ty NewProgram)"] e r b
  show ?thesis by simp
qed

text \<open>
  Claim C2. A second request for a name returns the entry that the first request
  created, and the constructor is not invoked again: the Package, with its module, is the
  one the first request left. This holds for the table of functions (\<^verbatim>\<open>NewFunc\<close>), the table
  of globals (\<^verbatim>\<open>NewVar\<close>), the foreign thunks (\<^verbatim>\<open>pyFunc\<close>) and the closure stubs
  (\<^verbatim>\<open>closureStub\<close>, whatever builder and helper the second request comes with). A new
  Package satisfies the invariant \<open>pkg_inv\<close>, and every run of operations keeps it: the
  module never contains two functions or two globals of the same name.
\<close>

theorem symbol_tables_idempotent:
  "(NewFunc prog p name sig bg = (fn, prog1, p1) \<longrightarrow>
      NewFunc prog2 p1 name sig' bg' = (fn, prog2, p1)) \<and>
   (NewVar prog p name ty bg = (g, prog1, p1) \<longrightarrow>
      NewVar prog2 p1 name ty' bg' = (g, prog2, p1)) \<and>
   (pyFunc prog p name sig = (e, prog1, p1) \<longrightarrow>
      pyFunc prog1 p1 name sig' = (e, prog1, p1)) \<and>
   (closureStub addCtx prog p b t v = Inr (c, prog1, p1) \<longrightarrow>
      closureStub addCtx' prog1 p1 b' t v = Inr (c, prog1, p1)) \<and>
   pkg_inv (fst (NewPackage prog name pkgPath)) \<and>
   (pkg_inv p \<and> run addCtx ops (prog, p) = Inr (prog', p') \<longrightarrow> pkg_inv p')"
  using NewFunc_again [of prog p name sig bg fn prog1 p1 prog2 sig' bg']
        NewVar_again [of prog p name ty bg g prog1 p1 prog2 ty' bg']
        pyFunc_again [of prog p name sig e prog1 p1 sig']
        closureStub_again [of addCtx prog p b t v c prog1 p1 addCtx' b']
        NewPackage_pkg_inv [of prog name pkgPath]
        run_pkg_inv [of addCtx ops prog p prog' p']
  by blast

text \<open>
  Second requests for \<^verbatim>\<open>main.main\<close>, a global, a thunk and the stub of \<^verbatim>\<open>main.f\<close> in the example
  Package, and a run of two operations.
\<close>

theorem symbol_tables_idempotent_witness:
  "NewFunc NewProgram (snd (snd example_main)) ''main.main'' ([(''y'', Typ Bool)], []) InC =
     (fst example_main, NewProgram, snd (snd example_main)) \<and>
   NewVar NewProgram
       (snd (snd (NewVar (fst (snd example_main)) (snd (snd example_main)) ''main.x'' (Typ Bool) InGo)))
       ''main.x'' (Typ Int8) InC =
     (fst (NewVar (fst (snd example_main)) (snd (snd example_main)) ''main.x'' (Typ Bool) InGo),
      NewProgram,
      snd (snd (NewVar (fst (snd example_main)) (snd (snd example_main)) ''main.x'' (Typ Bool) InGo))) \<and>
   pyFunc (fst (snd (pyFunc (fst (snd example_main)) (snd (snd example_main)) ''PyObject_CallNoArg'' ([], []))))
       (snd (snd (pyFunc (fst (snd example_main)) (snd (snd example_main)) ''PyObject_CallNoArg'' ([], []))))
       ''PyObject_CallNoArg'' ([(''y'', Typ Bool)], []) =
     pyFunc (fst (snd example_main)) (snd (snd example_main)) ''PyObject_CallNoArg'' ([], []) \<and>
   closureStub FuncAddCtx_trailing
       (fst (snd (projr (closureStub FuncAddCtx_leading (example_P []) (example_K []) example_b
                          example_closure_type (example_closure [])))))
       (snd (snd (projr (closureStub FuncAddCtx_leading (example_P []) (example_K []) example_b
                          example_closure_type (example_closure [])))))
       example_b example_closure_type (example_closure []) =
     closureStub FuncAddCtx_leading (example_P []) (example_K []) example_b
       example_closure_type (example_closure []) \<and>
   succeeds (closureStub FuncAddCtx_leading (example_P []) (example_K []) example_b
       example_closure_type (example_closure [])) \<and>
   pkg_inv (fst (NewPackage example_prog ''main'' ''example.com/main'')) \<and>
   pkg_inv (snd (snd example_main)) \<and>
   run FuncAddCtx_leading
       [OpNewVar ''main.x'' (Typ Bool) InGo, OpPyFunc ''PyObject_CallNoArg'' ([], [])]
       (fst (snd example_main), snd (snd example_main)) =
     Inr (snd (pyFunc (fst (snd (NewVar (fst (snd example_main)) (snd (snd example_main)) ''main.x'' (Typ Bool) InGo)))
                 (snd (snd (NewVar (fst (snd example_main)) (snd (snd example_main)) ''main.x'' (Typ Bool) InGo)))
                 ''PyObject_CallNoArg'' ([], []))) \<and>
   pkg_inv (snd (snd (pyFunc (fst (snd (NewVar (fst (snd example_main)) (snd (snd example_main)) ''main.x'' (Typ Bool) InGo)))
                 (snd (snd (NewVar (fst (snd example_main)) (snd (snd example_main)) ''main.x'' (Typ Bool) InGo)))
                 ''PyObject_CallNoArg'' ([], []))))"
proof -
  let ?nv = "NewVar (fst (snd example_main)) (snd (snd example_main)) ''main.x'' (Typ Bool) InGo"
  let ?pf = "pyFunc (fst (snd example_main)) (snd (snd example_main)) ''PyObject_CallNoArg'' ([], [])"
  let ?cs = "closureStub FuncAddCtx_leading (example_P []) (example_K []) example_b
       example_closure_type (example_closure [])"
  let ?pf2 = "pyFunc (fst (snd ?nv)) (snd (snd ?nv)) ''PyObject_CallNoArg'' ([], [])"
  have s: "succeeds ?cs" by (simp add: example_defs eval_defs)
  then have cs: "?cs = Inr (fst (projr ?cs), fst (snd (projr ?cs)), snd (snd (projr ?cs)))"
    using succeeds_Inr by fastforce
  have r: "run FuncAddCtx_leading
       [OpNewVar ''main.x'' (Typ Bool) InGo, OpPyFunc ''PyObject_CallNoArg'' ([], [])]
       (fst (snd example_main), snd (snd example_main)) = Inr (fst (snd ?pf2), snd (snd ?pf2))"
    by (simp add: step_total)
  have a1: "NewFunc NewProgram (snd (snd example_main)) ''main.main'' ([(''y'', Typ Bool)], []) InC =
     (fst example_main, NewProgram, snd (snd example_main))"
    using symbol_tables_idempotent [THEN conjunct1,
        of "snd (NewPackage example_prog ''main'' ''example.com/main'')"
           "fst (NewPackage example_prog ''main'' ''example.com/main'')" "''main.main''" "([], [])" InGo
           "fst example_main" "fst (snd example_main)" "snd (snd example_main)"]
    by (simp add: example_main_def)
  have a2: "NewVar NewProgram (snd (snd ?nv)) ''main.x'' (Typ Int8) InC = (fst ?nv, NewProgram, snd (snd ?nv))"
    using symbol_tables_idempotent [THEN conjunct2, THEN conjunct1,
        of "fst (snd example_main)" "snd (snd example_main)" "''main.x''" "Typ Bool" InGo
           "fst ?nv" "fst (snd ?nv)" "snd (snd ?nv)"]
    by simp
  have a3: "pyFunc (fst (snd ?pf)) (snd (snd ?pf)) ''PyObject_CallNoArg'' ([(''y'', Typ Bool)], []) = ?pf"
    using symbol_tables_idempotent [THEN conjunct2, THEN conjunct2, THEN conjunct1,
        of "fst (snd example_main)" "snd (snd example_main)" "''PyObject_CallNoArg''" "([], [])"
           "fst ?pf" "fst (snd ?pf)" "snd (snd ?pf)"]
    by simp
  have a4: "closureStub FuncAddCtx_trailing (fst (snd (projr ?cs))) (snd (snd (projr ?cs)))
       example_b example_closure_type (example_closure []) = ?cs"
    using symbol_tables_idempotent [THEN conjunct2, THEN conjunct2, THEN conjunct2, THEN conjunct1,
        of FuncAddCtx_leading "example_P []" "example_K []" example_b example_closure_type
           "example_closure []" "fst (projr ?cs)" "fst (snd (projr ?cs))" "snd (snd (projr ?cs))"
           FuncAddCtx_trailing example_b] cs
    by simp
  have a5: "pkg_inv (fst (NewPackage example_prog ''main'' ''example.com/main''))"
    using symbol_tables_idempotent [THEN conjunct2, THEN conjunct2, THEN conjunct2, THEN conjunct2,
        THEN conjunct1] .
  have i: "pkg_inv (snd (snd example_main))" by (rule example_main_facts(3))
  have a6: "pkg_inv (snd (snd ?pf2))"
    using symbol_tables_idempotent [THEN conjunct2, THEN conjunct2, THEN conjunct2, THEN conjunct2,
        THEN conjunct2, of "snd (snd example_main)" FuncAddCtx_leading _ "fst (snd example_main)"
          "fst (snd ?pf2)" "snd (snd ?pf2)"] i r
    by blast
  from a1 a2 a3 a4 s a5 i r a6 show ?thesis by simp
qed

text \<open>
  Claim C3, amended. For a closure \<open>v\<close> with \<open>N\<close> parameters whose stub does not exist yet,
  \<^verbatim>\<open>closureStub\<close> declares a link-once function under the name of the closure prefixed by
  \<^verbatim>\<open>ClosureStub\<close>, with the signature that \<^verbatim>\<open>FuncAddCtx\<close> returns, and enters it in the tables.
  Its body is a tail call of the closure that forwards the parameters of the stub at the
  positions 1 to \<open>N\<close>, that is every parameter after the first, followed by the return of
  the value of the call, or by a return of nothing when the closure has no result. So
  the parameter that is not forwarded, the context, is the leading one: where
  \<^verbatim>\<open>FuncAddCtx\<close> puts the context first, the stub has \<open>N + 1\<close> parameters and the forwarded
  ones are exactly the parameters of the closure.
\<close>

theorem closure_stub_shape:
  assumes "pkg_inv p" and "typs_ok prog"
    and "stubs p (valueName (impl v)) = None"
    and "fns p (ClosureStub @ valueName (impl v)) = None"
    and "raw (Type v) = Signature ps rs"
    and "ps = [] \<or> length ps < length (fst (addCtx (ClosureCtx, Typ UnsafePointer) (ps, rs)))"
  shows "\<exists>e prog' fn.
     closureStub addCtx prog p b t v =
       Inr (e, prog',
            withStub p (valueName (impl v)) fn
              (stubFunction (valueName (impl v)) (ll (Type (fnExpr fn))) v (length ps) (length rs))) \<and>
     impl (fnExpr fn) = FuncValue (ClosureStub @ valueName (impl v)) \<and>
     raw (Type (fnExpr fn)) =
       Signature (fst (addCtx (ClosureCtx, Typ UnsafePointer) (ps, rs)))
                 (snd (addCtx (ClosureCtx, Typ UnsafePointer) (ps, rs))) \<and>
     length (params fn) = length (fst (addCtx (ClosureCtx, Typ UnsafePointer) (ps, rs))) \<and>
     (fst (addCtx (ClosureCtx, Typ UnsafePointer) (ps, rs)) = (ClosureCtx, Typ UnsafePointer) # ps \<longrightarrow>
        length (params fn) = Suc (length ps) \<and>
        map ((!) (fst (addCtx (ClosureCtx, Typ UnsafePointer) (ps, rs)))) [1..<Suc (length ps)] = ps)"
proof -
  let ?sig = "addCtx (ClosureCtx, Typ UnsafePointer) (ps, rs)"
  obtain fn prog2 p2 where
    nf: "NewFunc (snd (VoidPtr prog)) p (ClosureStub @ valueName (impl v)) ?sig InC = (fn, prog2, p2)"
    by (metis prod_cases3)
  note m = NewFunc_miss [OF assms(4) nf]
  from typs_ok_aux(1) [OF typs_ok_VoidPtr [OF assms(2)]] m(3)
  have r: "raw (Type (fnExpr fn)) = Signature (fst ?sig) (snd ?sig)" by simp
  have tl: "fst ?sig = (ClosureCtx, Typ UnsafePointer) # ps \<longrightarrow>
        length (params fn) = Suc (length ps) \<and> map ((!) (fst ?sig)) [1..<Suc (length ps)] = ps"
    using m(2) nth_tail_params [of "(ClosureCtx, Typ UnsafePointer)" ps] by auto
  from closureStub_fresh [where addCtx = addCtx and v = v and b = b and t = t, OF assms(1,3,4,5,6) nf] m(1,2) r tl show ?thesis by blast
qed

text \<open>The stub of \<^verbatim>\<open>main.f\<close>, a function of one parameter and one result.\<close>

theorem closure_stub_shape_witness:
  "pkg_inv (example_K [([], Typ Int_t)]) \<and>
   valueName (impl (example_closure [([], Typ Int_t)])) = ''main.f'' \<and>
   stubs (example_K [([], Typ Int_t)]) ''main.f'' = None \<and>
   fns (example_K [([], Typ Int_t)]) (ClosureStub @ ''main.f'') = None \<and>
   raw (Type (example_closure [([], Typ Int_t)])) = Signature [(''x'', Typ Int_t)] [([], Typ Int_t)] \<and>
   (\<exists>e prog' fn.
      closureStub FuncAddCtx_leading (example_P [([], Typ Int_t)]) (example_K [([], Typ Int_t)])
          example_b example_closure_type (example_closure [([], Typ Int_t)]) =
        Inr (e, prog',
             withStub (example_K [([], Typ Int_t)]) ''main.f'' fn
               (stubFunction ''main.f'' (ll (Type (fnExpr fn))) (example_closure [([], Typ Int_t)]) 1 1)) \<and>
      raw (Type (fnExpr fn)) =
        Signature [(ClosureCtx, Typ UnsafePointer), (''x'', Typ Int_t)] [([], Typ Int_t)] \<and>
      length (params fn) = 2)"
proof -
  let ?rs = "[([], Typ Int_t)] :: var list"
  have h: "pkg_inv (example_K ?rs)" "typs_ok (example_P ?rs)"
    "valueName (impl (example_closure ?rs)) = ''main.f''"
    "stubs (example_K ?rs) ''main.f'' = None"
    "fns (example_K ?rs) (ClosureStub @ ''main.f'') = None"
    "raw (Type (example_closure ?rs)) = Signature [(''x'', Typ Int_t)] ?rs"
    by (simp_all add: example_K_def example_P_def example_closure_def example_f_facts ClosureStub_def)
  from closure_stub_shape [of "example_K ?rs" "example_P ?rs" "example_closure ?rs"
      "[(''x'', Typ Int_t)]" ?rs FuncAddCtx_leading example_b example_closure_type] h
  show ?thesis by (auto simp: FuncAddCtx_leading_def numeral_2_eq_2)
qed

text \<open>
  Claim C3 as stated fails. For \<^verbatim>\<open>main.f\<close>, of one parameter, the body of the stub forwards
  the parameter at position 1 and not the first parameter, at position 0, whether the
  helper puts the context last, as the spec says, or first. With the context last the
  stub would forward the context in place of the parameter of the closure.
\<close>

theorem closure_stub_shape_counterexample:
  "functionBody
     (closureStub FuncAddCtx_trailing (example_P [([], Typ Int_t)]) (example_K [([], Typ Int_t)])
        example_b example_closure_type (example_closure [([], Typ Int_t)]))
     ''__llgo_stub.main.f'' =
     Some [CallInst (FuncValue ''main.f'') [ParamValue ''__llgo_stub.main.f'' 1] True,
           RetInst (InstrValue ''__llgo_stub.main.f'' 0)] \<and>
   functionBody
     (closureStub FuncAddCtx_leading (example_P [([], Typ Int_t)]) (example_K [([], Typ Int_t)])
        example_b example_closure_type (example_closure [([], Typ Int_t)]))
     ''__llgo_stub.main.f'' =
     Some [CallInst (FuncValue ''main.f'') [ParamValue ''__llgo_stub.main.f'' 1] True,
           RetInst (InstrValue ''__llgo_stub.main.f'' 0)] \<and>
   [ParamValue ''__llgo_stub.main.f'' 1] \<noteq> map (ParamValue ''__llgo_stub.main.f'') [0..<1]"
  by (simp add: example_defs eval_defs)

text \<open>
  Claim C4, amended. For a closure with more than one result the creation of the stub
  does not fail: the switch on the number of results takes its default branch, and the
  stub is the one of the single-result case, whose body returns the value of the tail
  call.
\<close>

theorem closure_stub_multiple_results:
  assumes "pkg_inv p"
    and "stubs p (valueName (impl v)) = None"
    and "fns p (ClosureStub @ valueName (impl v)) = None"
    and "raw (Type v) = Signature ps rs"
    and "ps = [] \<or> length ps < length (fst (addCtx (ClosureCtx, Typ UnsafePointer) (ps, rs)))"
    and "1 < length rs"
  shows "\<exists>e prog' fn.
     closureStub addCtx prog p b t v =
       Inr (e, prog',
            withStub p (valueName (impl v)) fn
              (stubFunction (valueName (impl v)) (ll (Type (fnExpr fn))) v (length ps) (length rs))) \<and>
     fbody (stubFunction (valueName (impl v)) (ll (Type (fnExpr fn))) v (length ps) (length rs)) =
       [CallInst (impl v)
          (map (ParamValue (ClosureStub @ valueName (impl v))) [1..<Suc (length ps)]) True,
        RetInst (InstrValue (ClosureStub @ valueName (impl v)) 0)]"
proof -
  let ?sig = "addCtx (ClosureCtx, Typ UnsafePointer) (ps, rs)"
  obtain fn prog2 p2 where
    nf: "NewFunc (snd (VoidPtr prog)) p (ClosureStub @ valueName (impl v)) ?sig InC = (fn, prog2, p2)"
    by (metis prod_cases3)
  from assms(6) have "fbody (stubFunction (valueName (impl v)) (ll (Type (fnExpr fn))) v (length ps) (length rs)) =
       [CallInst (impl v)
          (map (ParamValue (ClosureStub @ valueName (impl v))) [1..<Suc (length ps)]) True,
        RetInst (InstrValue (ClosureStub @ valueName (impl v)) 0)]"
    by (auto simp: stubFunction_def)
  with closureStub_fresh [where addCtx = addCtx and v = v and b = b and t = t, OF assms(1-5) nf]
  show ?thesis by blast
qed

text \<open>The stub of \<^verbatim>\<open>main.f\<close> with the two results \<^verbatim>\<open>int\<close> and \<^verbatim>\<open>bool\<close>.\<close>

theorem closure_stub_multiple_results_witness:
  "pkg_inv (example_K [([], Typ Int_t), ([], Typ Bool)]) \<and>
   stubs (example_K [([], Typ Int_t), ([], Typ Bool)]) ''main.f'' = None \<and>
   fns (example_K [([], Typ Int_t), ([], Typ Bool)]) (ClosureStub @ ''main.f'') = None \<and>
   raw (Type (example_closure [([], Typ Int_t), ([], Typ Bool)])) =
     Signature [(''x'', Typ Int_t)] [([], Typ Int_t), ([], Typ Bool)] \<and>
   (\<exists>e prog' fn.
      closureStub FuncAddCtx_leading (example_P [([], Typ Int_t), ([], Typ Bool)])
          (example_K [([], Typ Int_t), ([], Typ Bool)])
          example_b example_closure_type (example_closure [([], Typ Int_t), ([], Typ Bool)]) =
        Inr (e, prog',
             withStub (example_K [([], Typ Int_t), ([], Typ Bool)]) ''main.f'' fn
               (stubFunction ''main.f'' (ll (Type (fnExpr fn)))
                  (example_closure [([], Typ Int_t), ([], Typ Bool)]) 1 2)) \<and>
      fbody (stubFunction ''main.f'' (ll (Type (fnExpr fn)))
               (example_closure [([], Typ Int_t), ([], Typ Bool)]) 1 2) =
        [CallInst (FuncValue ''main.f'') [ParamValue (ClosureStub @ ''main.f'') 1] True,
         RetInst (InstrValue (ClosureStub @ ''main.f'') 0)])"
proof -
  let ?rs = "[([], Typ Int_t), ([], Typ Bool)] :: var list"
  have h: "pkg_inv (example_K ?rs)"
    "valueName (impl (example_closure ?rs)) = ''main.f''"
    "stubs (example_K ?rs) ''main.f'' = None"
    "fns (example_K ?rs) (ClosureStub @ ''main.f'') = None"
    "raw (Type (example_closure ?rs)) = Signature [(''x'', Typ Int_t)] ?rs"
    "impl (example_closure ?rs) = FuncValue ''main.f''"
    by (simp_all add: example_K_def example_P_def example_closure_def example_f_facts ClosureStub_def)
  from closure_stub_multiple_results [of "example_K ?rs" "example_closure ?rs"
      "[(''x'', Typ Int_t)]" ?rs FuncAddCtx_leading "example_P ?rs" example_b example_closure_type] h
  show ?thesis by (auto simp: FuncAddCtx_leading_def numeral_2_eq_2)
qed

text \<open>
  Claim C4 as stated fails: for \<^verbatim>\<open>main.f\<close> with two results \<^verbatim>\<open>closureStub\<close> does not panic, and
  the stub it declares returns the value of the call.
\<close>

theorem closure_stub_multiple_results_counterexample:
  "succeeds
     (closureStub FuncAddCtx_trailing (example_P [([], Typ Int_t), ([], Typ Bool)])
        (example_K [([], Typ Int_t), ([], Typ Bool)])
        example_b example_closure_type (example_closure [([], Typ Int_t), ([], Typ Bool)])) \<and>
   functionBody
     (closureStub FuncAddCtx_trailing (example_P [([], Typ Int_t), ([], Typ Bool)])
        (example_K [([], Typ Int_t), ([], Typ Bool)])
        example_b example_closure_type (example_closure [([], Typ Int_t), ([], Typ Bool)]))
     ''__llgo_stub.main.f'' =
     Some [CallInst (FuncValue ''main.f'') [ParamValue ''__llgo_stub.main.f'' 1] True,
           RetInst (InstrValue ''__llgo_stub.main.f'' 0)]"
  by (simp add: example_defs eval_defs)

text \<open>
  Claim C5, amended. The creation of a Package clears \<open>needRuntime\<close> and leaves
  \<open>needPyInit\<close> as it is. Over any run of operations, \<open>needPyInit\<close> stays set once it is
  set, also across the creation of Packages, and \<open>needRuntime\<close> stays set as long as the
  run creates no Package.
\<close>

theorem flags_until_next_package:
  "\<not> needRuntime (snd (NewPackage prog name pkgPath)) \<and>
   needPyInit (snd (NewPackage prog name pkgPath)) = needPyInit prog \<and>
   (run addCtx ops (prog, p) = Inr (prog', p') \<longrightarrow>
      (needPyInit prog \<longrightarrow> needPyInit prog') \<and>
      (\<not> list_ex isNewPackage ops \<and> needRuntime prog \<longrightarrow> needRuntime prog'))"
  using NewPackage_flags [of prog name pkgPath]
        run_needPyInit [of addCtx ops prog p prog' p']
        run_needRuntime [of addCtx ops prog p prog' p']
  by blast

text \<open>A run of two operations from a Program with both flags set.\<close>

theorem flags_until_next_package_witness:
  "run FuncAddCtx_leading [OpRawType (Typ Bool), OpNewFunc ''main.g'' ([], []) InGo]
       (example_prog\<lparr>needRuntime := True, needPyInit := True\<rparr>, snd (snd example_main)) =
     Inr (snd (NewFunc (snd (rawType (example_prog\<lparr>needRuntime := True, needPyInit := True\<rparr>) (Typ Bool)))
                 (snd (snd example_main)) ''main.g'' ([], []) InGo)) \<and>
   \<not> list_ex isNewPackage [OpRawType (Typ Bool), OpNewFunc ''main.g'' ([], []) InGo] \<and>
   needPyInit (fst (snd (NewFunc (snd (rawType (example_prog\<lparr>needRuntime := True, needPyInit := True\<rparr>) (Typ Bool)))
                 (snd (snd example_main)) ''main.g'' ([], []) InGo))) \<and>
   needRuntime (fst (snd (NewFunc (snd (rawType (example_prog\<lparr>needRuntime := True, needPyInit := True\<rparr>) (Typ Bool)))
                 (snd (snd example_main)) ''main.g'' ([], []) InGo))) \<and>
   \<not> needRuntime (snd (NewPackage (example_prog\<lparr>needRuntime := True, needPyInit := True\<rparr>)
                          ''b'' ''example.com/b''))"
proof -
  let ?prog = "example_prog\<lparr>needRuntime := True, needPyInit := True\<rparr>"
  let ?nf = "NewFunc (snd (rawType ?prog (Typ Bool))) (snd (snd example_main)) ''main.g'' ([], []) InGo"
  have r: "run FuncAddCtx_leading [OpRawType (Typ Bool), OpNewFunc ''main.g'' ([], []) InGo]
       (?prog, snd (snd example_main)) = Inr (fst (snd ?nf), snd (snd ?nf))"
    by (simp add: step_total)
  from flags_until_next_package [of ?prog "''b''" "''example.com/b''" FuncAddCtx_leading
      "[OpRawType (Typ Bool), OpNewFunc ''main.g'' ([], []) InGo]" "snd (snd example_main)"
      "fst (snd ?nf)" "snd (snd ?nf)"] r
  show ?thesis by simp
qed

text \<open>
  Claim C5 as stated fails: after \<^verbatim>\<open>pyFunc\<close> has set \<open>needPyInit\<close>, the creation of the next
  Package leaves it set.
\<close>

theorem flags_until_next_package_counterexample:
  "needPyInit
     (snd (NewPackage
             (fst (snd (pyFunc (fst (snd example_main)) (snd (snd example_main))
                          ''PyObject_CallNoArg'' ([], []))))
             ''b'' ''example.com/b''))"
  by (simp add: NewPackage_def pyFunc_flags)

text \<open>
  Claim C6, amended. \<^verbatim>\<open>pyCall\<close> supports exactly the callees with 0 or 1 parameters: for a
  callee with two or more parameters it panics with \<^verbatim>\<open>todo\<close>. A call that returns goes
  through the thunk for its number of parameters, \<^verbatim>\<open>PyObject_CallNoArg\<close> or
  \<^verbatim>\<open>PyObject_CallOneArg\<close>, an entry of the table of functions of the Package. The thunk is
  declared lazily and once: a call that finds no entry of that name appends one
  declaration to the module, a call that finds one declares nothing and leaves the table
  as it is. The thunk is declared with a fixed signature: its parameters are the callee
  and the arguments, \<open>n + 1\<close> pointers to a foreign object, and its result is one such
  pointer. \<open>bridge_inv\<close>, which says that the thunks in the table are these, is kept by every
  call that returns; where it holds, the pointer type of foreign objects resolves, the
  function of the builder is in the module and there are as many arguments as
  parameters, the call returns, whether the thunk was declared before or not, and the
  builder's function then ends with the call of the thunk on the callee and the
  arguments. The consistency of the caches that the statement on the signature assumes
  (\<open>typs_ok\<close>, \<open>sigs_ok\<close>) holds in a new Program and is kept by every run of operations.
\<close>

theorem pyCall_arity:
  assumes "raw (Type fn) = Signature ps rs"
  shows "(2 \<le> length ps \<longrightarrow> pyCall prog pkg b fn args = Inl (Panic ''todo'')) \<and>
   (pyCall prog pkg b fn args = Inr (r, prog', pkg') \<longrightarrow>
      length ps < 2 \<and> fns pkg' (thunkName (length ps)) \<noteq> None \<and>
      funcNames pkg' =
        (if fns pkg (thunkName (length ps)) = None
         then funcNames pkg @ [thunkName (length ps)] else funcNames pkg) \<and>
      (fns pkg (thunkName (length ps)) \<noteq> None \<longrightarrow> fns pkg' = fns pkg)) \<and>
   (typs_ok prog \<and> sigs_ok prog \<and> fns pkg (thunkName (length ps)) = None \<and>
    pyCall prog pkg b fn args = Inr (r, prog', pkg') \<longrightarrow>
      (\<exists>f ot. fns pkg' (thunkName (length ps)) = Some f \<and> pyObjPtr prog' = Some ot \<and>
              impl (fnExpr f) = FuncValue (thunkName (length ps)) \<and>
              raw (Type (fnExpr f)) =
                Signature (replicate (Suc (length ps)) ([], raw ot)) [([], raw ot)])) \<and>
   (bridge_inv prog pkg \<and> pyCall prog pkg b fn args = Inr (r, prog', pkg') \<longrightarrow>
      bridge_inv prog' pkg' \<and> succeeds (PyObjectPtr prog') \<and>
      (\<exists>f ot. fns pkg' (thunkName (length ps)) = Some f \<and> pyObjPtr prog' = Some ot \<and>
              impl (fnExpr f) = FuncValue (thunkName (length ps)) \<and>
              raw (Type (fnExpr f)) =
                Signature (replicate (Suc (length ps)) ([], raw ot)) [([], raw ot)])) \<and>
   (length ps < 2 \<and> bridge_inv prog pkg \<and> succeeds (PyObjectPtr prog) \<and>
    findFunction (llmod pkg) (valueName (impl (fnExpr (Func b)))) = Some d \<and>
    length ps \<le> length args \<longrightarrow>
      (\<exists>r1 prog1 pkg1.
         pyCall prog pkg b fn args = Inr (r1, prog1, pkg1) \<and>
         findFunction (llmod pkg1) (valueName (impl (fnExpr (Func b)))) =
           Some (d\<lparr>fbody := fbody d @
                     [CallInst (FuncValue (thunkName (length ps)))
                               (map impl (fn # take (length ps) args)) False]\<rparr>))) \<and>
   typs_ok NewProgram \<and> sigs_ok NewProgram \<and>
   (typs_ok prog \<and> sigs_ok prog \<and> run addCtx ops (prog, pkg) = Inr (prog2, pkg2) \<longrightarrow>
      typs_ok prog2 \<and> sigs_ok prog2)"
  using pyCall_todo [OF assms, of prog pkg b args]
        pyCall_Inr [OF _ assms, of prog pkg b args r prog' pkg']
        pyCall_funcNames [OF _ assms, of prog pkg b args r prog' pkg']
        pyCall_reuse [OF _ assms, of prog pkg b args r prog' pkg']
        pyCall_decl [OF _ assms, of prog pkg b args r prog' pkg']
        pyCall_bridge [OF _ assms, of prog pkg b args r prog' pkg']
        pyCall_ok_inv [OF assms, of prog pkg b d args]
        typs_ok_NewProgram sigs_ok_NewProgram
        run_prog_inv [of addCtx ops prog pkg prog2 pkg2]
  by blast

text \<open>
  A run of five operations from a new Program reaches the example state. There a callee with two
  parameters panics; a callee without parameters is called twice, the first call
  declaring \<^verbatim>\<open>PyObject_CallNoArg\<close> over the pointer to \<^verbatim>\<open>py.Object\<close> and the second call using
  that entry; a callee with one parameter declares \<^verbatim>\<open>PyObject_CallOneArg\<close>.
\<close>

theorem pyCall_arity_witness:
  "run FuncAddCtx_leading
      [OpSetRuntime (SupplierFunc (Some (\<lambda>u. Some example_runtime))),
       OpSetPython (PackagePtr (Some example_python)),
       OpNewPackage ''main'' ''example.com/main'',
       OpNewFunc ''main.main'' ([], []) InGo,
       OpRawType (Signature [] [([], Pointer (Named ''github.com/goplus/llgo/py'' ''Object''))])]
      (NewProgram, fst (NewPackage NewProgram [] [])) =
     Inr (snd (example_callee []), snd (snd example_main)) \<and>
   pyCall (snd (example_callee [(''x'', Typ Bool), (''y'', Typ Bool)])) (snd (snd example_main))
      example_b (fst (example_callee [(''x'', Typ Bool), (''y'', Typ Bool)]))
      [fst (example_callee []), fst (example_callee [])] = Inl (Panic ''todo'') \<and>
   succeeds (pyCall (snd (example_callee [])) (snd (snd example_main)) example_b
               (fst (example_callee [])) []) \<and>
   fns (snd (snd example_main)) ''PyObject_CallNoArg'' = None \<and>
   succeeds (PyObjectPtr (snd (example_callee []))) \<and>
   funcNames (snd (snd (projr (pyCall (snd (example_callee [])) (snd (snd example_main)) example_b
                           (fst (example_callee [])) [])))) = [''main.main'', ''PyObject_CallNoArg''] \<and>
   (\<exists>f ot.
      fns (snd (snd (projr (pyCall (snd (example_callee [])) (snd (snd example_main)) example_b
                           (fst (example_callee [])) [])))) ''PyObject_CallNoArg'' = Some f \<and>
      pyObjPtr (fst (snd (projr (pyCall (snd (example_callee [])) (snd (snd example_main)) example_b
                           (fst (example_callee [])) [])))) = Some ot \<and>
      raw ot = Pointer (Named ''github.com/goplus/llgo/py'' ''Object'') \<and>
      impl (fnExpr f) = FuncValue ''PyObject_CallNoArg'' \<and>
      raw (Type (fnExpr f)) = Signature [([], raw ot)] [([], raw ot)]) \<and>
   (\<exists>r1 prog1 pkg1.
      pyCall (snd (example_callee [])) (snd (snd example_main)) example_b
        (fst (example_callee [])) [] = Inr (r1, prog1, pkg1) \<and>
      findFunction (llmod pkg1) ''main.main'' =
        Some \<lparr>fname = ''main.main'', ftype = ll (Type (fnExpr (fst example_main))),
              flinkage = ExternalLinkage,
              fbody = [CallInst (FuncValue ''PyObject_CallNoArg'')
                         [impl (fst (example_callee []))] False]\<rparr>) \<and>
   (\<exists>r2 prog2 pkg2.
      pyCall (fst (snd (projr (pyCall (snd (example_callee [])) (snd (snd example_main)) example_b
                           (fst (example_callee [])) []))))
             (snd (snd (projr (pyCall (snd (example_callee [])) (snd (snd example_main)) example_b
                           (fst (example_callee [])) []))))
             example_b (fst (example_callee [])) [] = Inr (r2, prog2, pkg2) \<and>
      funcNames pkg2 = [''main.main'', ''PyObject_CallNoArg''] \<and>
      fns pkg2 =
        fns (snd (snd (projr (pyCall (snd (example_callee [])) (snd (snd example_main)) example_b
                           (fst (example_callee [])) [])))) \<and>
      findFunction (llmod pkg2) ''main.main'' =
        Some \<lparr>fname = ''main.main'', ftype = ll (Type (fnExpr (fst example_main))),
              flinkage = ExternalLinkage,
              fbody = [CallInst (FuncValue ''PyObject_CallNoArg'')
                         [impl (fst (example_callee []))] False,
                       CallInst (FuncValue ''PyObject_CallNoArg'')
                         [impl (fst (example_callee []))] False]\<rparr>) \<and>
   succeeds (pyCall (snd (example_callee [(''x'', Typ Bool)])) (snd (snd example_main)) example_b
               (fst (example_callee [(''x'', Typ Bool)])) [fst (example_callee [])]) \<and>
   (\<exists>f ot.
      fns (snd (snd (projr (pyCall (snd (example_callee [(''x'', Typ Bool)])) (snd (snd example_main))
                              example_b (fst (example_callee [(''x'', Typ Bool)]))
                              [fst (example_callee [])])))) ''PyObject_CallOneArg'' = Some f \<and>
      pyObjPtr (fst (snd (projr (pyCall (snd (example_callee [(''x'', Typ Bool)])) (snd (snd example_main))
                              example_b (fst (example_callee [(''x'', Typ Bool)]))
                              [fst (example_callee [])])))) = Some ot \<and>
      impl (fnExpr f) = FuncValue ''PyObject_CallOneArg'' \<and>
      raw (Type (fnExpr f)) = Signature [([], raw ot), ([], raw ot)] [([], raw ot)])"
proof -
  let ?ps2 = "[(''x'', Typ Bool), (''y'', Typ Bool)] :: var list"
  let ?ps1 = "[(''x'', Typ Bool)] :: var list"
  let ?P = "snd (example_callee [])"
  let ?K = "snd (snd example_main)"
  let ?F = "fst (example_callee [])"
  let ?c = "pyCall ?P ?K example_b ?F []"
  let ?P1 = "fst (snd (projr ?c))"
  let ?K1 = "snd (snd (projr ?c))"
  let ?Px = "snd (example_callee ?ps1)"
  let ?Fx = "fst (example_callee ?ps1)"
  let ?cx = "pyCall ?Px ?K example_b ?Fx [?F]"
  let ?ops = "[OpSetRuntime (SupplierFunc (Some (\<lambda>u. Some example_runtime))),
       OpSetPython (PackagePtr (Some example_python)),
       OpNewPackage ''main'' ''example.com/main'',
       OpNewFunc ''main.main'' ([], []) InGo,
       OpRawType (Signature [] [([], Pointer (Named ''github.com/goplus/llgo/py'' ''Object''))])]"
  let ?Kz = "fst (NewPackage NewProgram [] [])"
  let ?d = "\<lparr>fname = ''main.main'', ftype = ll (Type (fnExpr (fst example_main))),
              flinkage = ExternalLinkage, fbody = []\<rparr>"
  let ?i = "CallInst (FuncValue ''PyObject_CallNoArg'') [impl ?F] False"
  note sg = example_callee_facts(1) [of "[]"]
  note sgx = example_callee_facts(1) [of ?ps1]
  have rn: "run FuncAddCtx_leading ?ops (NewProgram, ?Kz) = Inr (?P, ?K)"
    by (simp add: example_main_def example_prog_def example_callee_def split_beta step_total)
  have s: "succeeds ?c" by (simp add: example_defs eval_defs eval_py_defs)
  then have c: "?c = Inr (fst (projr ?c), ?P1, ?K1)"
    using succeeds_Inr by fastforce
  have sx: "succeeds ?cx" by (simp add: example_defs eval_defs eval_py_defs)
  then have cx: "?cx = Inr (fst (projr ?cx), fst (snd (projr ?cx)), snd (snd (projr ?cx)))"
    using succeeds_Inr by fastforce
  have o: "succeeds (PyObjectPtr ?P)"
    by (simp add: example_defs eval_defs eval_py_defs)
  have fr: "fns ?K ''PyObject_CallNoArg'' = None" "fns ?K ''PyObject_CallOneArg'' = None"
    by (simp_all add: example_main_facts(5))
  have pi: "typs_ok ?P \<and> sigs_ok ?P"
    using pyCall_arity [where prog = NewProgram and pkg = ?Kz and addCtx = FuncAddCtx_leading
        and ops = ?ops and ?prog2.0 = ?P and ?pkg2.0 = ?K, OF sg] rn
    by blast
  have skx: "sigs_ok ?Px"
    by (simp add: sigs_ok_def example_defs eval_defs eval_py_defs)
  from pi fr have inv: "bridge_inv ?P ?K"
    by (simp add: bridge_inv_def thunk_ok_def thunkName_def)
  have fnm: "funcNames ?K = [''main.main'']"
    by (simp add: funcNames_def example_defs eval_defs)
  have rot: "map_option raw (pyObjPtr ?P1) = Some (Pointer (Named ''github.com/goplus/llgo/py'' ''Object''))"
    by (simp add: example_defs eval_defs eval_py_defs)
  have a1: "pyCall (snd (example_callee ?ps2)) ?K example_b (fst (example_callee ?ps2))
      [?F, ?F] = Inl (Panic ''todo'')"
    using pyCall_arity [OF example_callee_facts(1) [of ?ps2], THEN conjunct1] by simp
  have a2: "funcNames ?K1 = [''main.main'', ''PyObject_CallNoArg'']"
    using pyCall_arity [where prog = ?P and pkg = ?K and b = example_b and args = "[]"
        and r = "fst (projr ?c)" and prog' = ?P1 and pkg' = ?K1, OF sg] c fr fnm
    by (simp add: thunkName_def)
  have a3: "\<exists>f ot. fns ?K1 ''PyObject_CallNoArg'' = Some f \<and> pyObjPtr ?P1 = Some ot \<and>
              impl (fnExpr f) = FuncValue ''PyObject_CallNoArg'' \<and>
              raw (Type (fnExpr f)) = Signature [([], raw ot)] [([], raw ot)]"
    using pyCall_arity [where prog = ?P and pkg = ?K and b = example_b and args = "[]"
        and r = "fst (projr ?c)" and prog' = ?P1 and pkg' = ?K1, OF sg] c pi fr
    by (simp add: thunkName_def)
  have a3x: "\<exists>f ot. fns (snd (snd (projr ?cx))) ''PyObject_CallOneArg'' = Some f \<and>
              pyObjPtr (fst (snd (projr ?cx))) = Some ot \<and>
              impl (fnExpr f) = FuncValue ''PyObject_CallOneArg'' \<and>
              raw (Type (fnExpr f)) = Signature [([], raw ot), ([], raw ot)] [([], raw ot)]"
    using pyCall_arity [where prog = ?Px and pkg = ?K and b = example_b and args = "[?F]"
        and r = "fst (projr ?cx)" and prog' = "fst (snd (projr ?cx))"
        and pkg' = "snd (snd (projr ?cx))", OF sgx] cx example_callee_facts(2) [of ?ps1] skx fr
    by (simp add: thunkName_def)
  have a4: "bridge_inv ?P1 ?K1 \<and> succeeds (PyObjectPtr ?P1)"
    using pyCall_arity [where prog = ?P and pkg = ?K and b = example_b and args = "[]"
        and r = "fst (projr ?c)" and prog' = ?P1 and pkg' = ?K1, OF sg] c inv
    by blast
  from pyCall_arity [where prog = ?P and pkg = ?K and b = example_b and args = "[]" and d = ?d,
        OF sg, THEN conjunct2, THEN conjunct2, THEN conjunct2, THEN conjunct2, THEN conjunct1]
    inv o example_main_facts(6)
  obtain r1 prog1 pkg1 where e1: "?c = Inr (r1, prog1, pkg1)"
    and f1: "findFunction (llmod pkg1) ''main.main'' = Some (?d\<lparr>fbody := fbody ?d @ [?i]\<rparr>)"
    by (auto simp: thunkName_def example_b_name)
  from e1 have "?K1 = pkg1" by simp
  with f1 have a5: "findFunction (llmod ?K1) ''main.main'' = Some (?d\<lparr>fbody := fbody ?d @ [?i]\<rparr>)"
    by simp
  from pyCall_arity [where prog = ?P1 and pkg = ?K1 and b = example_b and args = "[]"
        and d = "?d\<lparr>fbody := fbody ?d @ [?i]\<rparr>",
        OF sg, THEN conjunct2, THEN conjunct2, THEN conjunct2, THEN conjunct2, THEN conjunct1]
    a4 a5
  obtain r2 prog2 pkg2 where c2: "pyCall ?P1 ?K1 example_b ?F [] = Inr (r2, prog2, pkg2)"
    and b2: "findFunction (llmod pkg2) ''main.main'' = Some (?d\<lparr>fbody := [?i, ?i]\<rparr>)"
    by (auto simp: thunkName_def example_b_name)
  from a3 have dk: "fns ?K1 ''PyObject_CallNoArg'' \<noteq> None" by auto
  with pyCall_arity [where prog = ?P1 and pkg = ?K1 and b = example_b and args = "[]"
        and r = r2 and prog' = prog2 and pkg' = pkg2, OF sg] c2 a2
  have n2: "funcNames pkg2 = [''main.main'', ''PyObject_CallNoArg''] \<and> fns pkg2 = fns ?K1"
    by (simp add: thunkName_def)
  from a3 rot have a6: "\<exists>f ot. fns ?K1 ''PyObject_CallNoArg'' = Some f \<and> pyObjPtr ?P1 = Some ot \<and>
      raw ot = Pointer (Named ''github.com/goplus/llgo/py'' ''Object'') \<and>
      impl (fnExpr f) = FuncValue ''PyObject_CallNoArg'' \<and>
      raw (Type (fnExpr f)) = Signature [([], raw ot)] [([], raw ot)]"
    by auto
  from e1 f1 have a7: "\<exists>r1 prog1 pkg1. ?c = Inr (r1, prog1, pkg1) \<and>
      findFunction (llmod pkg1) ''main.main'' = Some (?d\<lparr>fbody := [?i]\<rparr>)"
    by simp
  from c2 n2 b2 have a8: "\<exists>r2 prog2 pkg2. pyCall ?P1 ?K1 example_b ?F [] = Inr (r2, prog2, pkg2) \<and>
      funcNames pkg2 = [''main.main'', ''PyObject_CallNoArg''] \<and> fns pkg2 = fns ?K1 \<and>
      findFunction (llmod pkg2) ''main.main'' = Some (?d\<lparr>fbody := [?i, ?i]\<rparr>)"
    by blast
  from rn a1 s fr(1) o a2 a6 a7 a8 sx a3x show ?thesis by simp
qed

text \<open>
  Claim C6 as stated fails: for a callee with two parameters, called with two arguments,
  \<^verbatim>\<open>pyCall\<close> panics with \<^verbatim>\<open>todo\<close>.
\<close>

theorem pyCall_arity_counterexample:
  "pyCall (snd (example_callee [(''x'', Typ Bool), (''y'', Typ Bool)])) (snd (snd example_main))
      example_b (fst (example_callee [(''x'', Typ Bool), (''y'', Typ Bool)]))
      [fst (example_callee []), fst (example_callee [])] = Inl (Panic ''todo'')"
  by (simp add: example_defs eval_defs eval_py_defs)

text \<open>
  Claim C7, amended. \<^verbatim>\<open>Program.runtime\<close> returns the handle already resolved when there is
  one, without invoking the supplier. Otherwise it invokes the supplier once in that
  request (\<open>rtgetCalls\<close> grows by one), stores what the supplier yields, marks \<open>needRuntime\<close>
  and returns it; without a supplier it panics. When the supplier yields a handle, the
  handle is cached: any number \<open>n\<close> of further requests leaves the Program as it is, and
  over every run of operations that does not give \<^verbatim>\<open>SetRuntime\<close> a nil package pointer the
  slot stays resolved and the supplier is not invoked again. When the supplier yields
  nil, nothing is cached, since the test \<^verbatim>\<open>p.rt == nil\<close> cannot tell the nil result from an
  unresolved slot: each of \<open>n + 1\<close> requests invokes the supplier again.
\<close>

theorem runtime_contract:
  "(rt p = Some h \<longrightarrow> runtime p = Inr (Some h, p\<lparr>needRuntime := True\<rparr>)) \<and>
   (rt p = None \<and> rtget p = None \<longrightarrow> runtime p = Inl NilFuncCall) \<and>
   (rt p = None \<and> rtget p = Some get \<longrightarrow>
      runtime p = Inr (get (), p\<lparr>rt := get (), needRuntime := True,
                                  rtgetCalls := Suc (rtgetCalls p)\<rparr>)) \<and>
   (rt p = None \<and> rtget p = Some get \<and> get () = Some h \<longrightarrow>
      runtime_times n (p\<lparr>rt := Some h, needRuntime := True,
                          rtgetCalls := Suc (rtgetCalls p)\<rparr>) =
        Inr (p\<lparr>rt := Some h, needRuntime := True, rtgetCalls := Suc (rtgetCalls p)\<rparr>)) \<and>
   (rt p \<noteq> None \<and> \<not> list_ex clearsRuntime ops \<and> run addCtx ops (p, k) = Inr (p', k') \<longrightarrow>
      rt p' \<noteq> None \<and> rtgetCalls p' = rtgetCalls p) \<and>
   (rt p = None \<and> rtget p = Some get \<and> get () = None \<longrightarrow>
      runtime_times (Suc n) p =
        Inr (p\<lparr>needRuntime := True, rtgetCalls := rtgetCalls p + Suc n\<rparr>))"
proof -
  have a: "runtime_times n (p\<lparr>rt := Some h, needRuntime := True,
                          rtgetCalls := Suc (rtgetCalls p)\<rparr>) =
        Inr (p\<lparr>rt := Some h, needRuntime := True, rtgetCalls := Suc (rtgetCalls p)\<rparr>)"
    by (rule runtime_times_resolved [of _ h]) simp_all
  have b: "rt p \<noteq> None \<and> \<not> list_ex clearsRuntime ops \<and> run addCtx ops (p, k) = Inr (p', k') \<longrightarrow>
      rt p' \<noteq> None \<and> rtgetCalls p' = rtgetCalls p"
    using run_rt [of addCtx ops p k p' k'] by blast
  have c: "rt p = None \<and> rtget p = Some get \<and> get () = None \<longrightarrow>
      runtime_times (Suc n) p =
        Inr (p\<lparr>needRuntime := True, rtgetCalls := rtgetCalls p + Suc n\<rparr>)"
    using runtime_times_nil [of p get n] by blast
  have d: "(rt p = Some h \<longrightarrow> runtime p = Inr (Some h, p\<lparr>needRuntime := True\<rparr>)) \<and>
   (rt p = None \<and> rtget p = None \<longrightarrow> runtime p = Inl NilFuncCall) \<and>
   (rt p = None \<and> rtget p = Some get \<longrightarrow>
      runtime p = Inr (get (), p\<lparr>rt := get (), needRuntime := True,
                                  rtgetCalls := Suc (rtgetCalls p)\<rparr>))"
    by (simp add: runtime_def)
  from a b c d show ?thesis by blast
qed

text \<open>
  A Program given the handle itself, a Program without a supplier, a Program given a
  supplier of the handle, with a run of operations after the first request, and a
  Program given a supplier that yields nil.
\<close>

theorem runtime_contract_witness:
  "runtime (SetRuntime NewProgram (PackagePtr (Some example_runtime))) =
     Inr (Some example_runtime,
          NewProgram\<lparr>rt := Some example_runtime, needRuntime := True\<rparr>) \<and>
   runtime NewProgram = Inl NilFuncCall \<and>
   runtime (SetRuntime NewProgram (SupplierFunc (Some (\<lambda>u. Some example_runtime)))) =
     Inr (Some example_runtime,
          NewProgram\<lparr>rt := Some example_runtime, rtget := Some (\<lambda>u. Some example_runtime),
                       needRuntime := True, rtgetCalls := 1\<rparr>) \<and>
   runtime_times 3
       (NewProgram\<lparr>rt := Some example_runtime, rtget := Some (\<lambda>u. Some example_runtime),
                    needRuntime := True, rtgetCalls := 1\<rparr>) =
     Inr (NewProgram\<lparr>rt := Some example_runtime, rtget := Some (\<lambda>u. Some example_runtime),
                      needRuntime := True, rtgetCalls := 1\<rparr>) \<and>
   succeeds (run FuncAddCtx_leading
               [OpRuntime, OpRawType (Typ Bool), OpNewPackage ''b'' ''example.com/b'', OpRuntime]
               (NewProgram\<lparr>rt := Some example_runtime, rtget := Some (\<lambda>u. Some example_runtime),
                            needRuntime := True, rtgetCalls := 1\<rparr>,
                fst (NewPackage NewProgram ''a'' ''example.com/a''))) \<and>
   rt (fst (projr (run FuncAddCtx_leading
               [OpRuntime, OpRawType (Typ Bool), OpNewPackage ''b'' ''example.com/b'', OpRuntime]
               (NewProgram\<lparr>rt := Some example_runtime, rtget := Some (\<lambda>u. Some example_runtime),
                            needRuntime := True, rtgetCalls := 1\<rparr>,
                fst (NewPackage NewProgram ''a'' ''example.com/a''))))) \<noteq> None \<and>
   rtgetCalls (fst (projr (run FuncAddCtx_leading
               [OpRuntime, OpRawType (Typ Bool), OpNewPackage ''b'' ''example.com/b'', OpRuntime]
               (NewProgram\<lparr>rt := Some example_runtime, rtget := Some (\<lambda>u. Some example_runtime),
                            needRuntime := True, rtgetCalls := 1\<rparr>,
                fst (NewPackage NewProgram ''a'' ''example.com/a''))))) = 1 \<and>
   runtime_times 3 (SetRuntime NewProgram (SupplierFunc (Some (\<lambda>u. None)))) =
     Inr (NewProgram\<lparr>rtget := Some (\<lambda>u. None), needRuntime := True, rtgetCalls := 3\<rparr>)"
proof -
  let ?S = "NewProgram\<lparr>rt := Some example_runtime, rtget := Some (\<lambda>u. Some example_runtime),
                       needRuntime := True, rtgetCalls := 1\<rparr>"
  let ?K = "fst (NewPackage NewProgram ''a'' ''example.com/a'')"
  let ?ops = "[OpRuntime, OpRawType (Typ Bool), OpNewPackage ''b'' ''example.com/b'', OpRuntime]"
  let ?run = "run FuncAddCtx_leading ?ops (?S, ?K)"
  have s: "succeeds ?run"
    by (simp add: succeeds_def progOnly_def runtime_def NewProgram_def NewPackage_def
                  rawType.simps newType_def)
  then have r: "?run = Inr (fst (projr ?run), snd (projr ?run))"
    using succeeds_Inr by fastforce
  have a: "rt ?S \<noteq> None" "\<not> list_ex clearsRuntime ?ops" by (simp_all add: NewProgram_def)
  have e: "rtgetCalls ?S = 1" by (simp add: NewProgram_def)
  have b0: "rt (fst (projr ?run)) \<noteq> None \<and> rtgetCalls (fst (projr ?run)) = rtgetCalls ?S"
    using runtime_contract [of ?S example_runtime "\<lambda>u. Some example_runtime" 3 ?ops
        FuncAddCtx_leading ?K "fst (projr ?run)" "snd (projr ?run)"] a r
    by blast
  have b: "rt (fst (projr ?run)) \<noteq> None \<and> rtgetCalls (fst (projr ?run)) = 1"
    using b0 unfolding e .
  have m: "runtime (SetRuntime NewProgram (PackagePtr (Some example_runtime))) =
       Inr (Some example_runtime,
            NewProgram\<lparr>rt := Some example_runtime, needRuntime := True\<rparr>) \<and>
     runtime NewProgram = Inl NilFuncCall \<and>
     runtime (SetRuntime NewProgram (SupplierFunc (Some (\<lambda>u. Some example_runtime)))) =
       Inr (Some example_runtime, ?S) \<and>
     runtime_times 3 ?S = Inr ?S \<and>
     runtime_times 3 (SetRuntime NewProgram (SupplierFunc (Some (\<lambda>u. None)))) =
       Inr (NewProgram\<lparr>rtget := Some (\<lambda>u. None), needRuntime := True, rtgetCalls := 3\<rparr>)"
    using runtime_contract [of "SetRuntime NewProgram (PackagePtr (Some example_runtime))"
                            example_runtime "\<lambda>u. Some example_runtime" 3 "[]" FuncAddCtx_leading
                            ?K "SetRuntime NewProgram (PackagePtr (Some example_runtime))" ?K]
       runtime_contract [of NewProgram example_runtime "\<lambda>u. None" 3 "[]" FuncAddCtx_leading
                            ?K NewProgram ?K]
       runtime_contract [of "SetRuntime NewProgram (SupplierFunc (Some (\<lambda>u. Some example_runtime)))"
                            example_runtime "\<lambda>u. Some example_runtime" 3 "[]" FuncAddCtx_leading
                            ?K NewProgram ?K]
       runtime_contract [of "SetRuntime NewProgram (SupplierFunc (Some (\<lambda>u. None)))"
                            example_runtime "\<lambda>u. None" 2 "[]" FuncAddCtx_leading
                            ?K NewProgram ?K]
    by (simp add: SetRuntime_def NewProgram_def)
  from m s b show ?thesis by blast
qed

text \<open>
  Claim C7 as stated fails: a supplier that yields nil is invoked by the first request
  and again by the second. And a supplier that has yielded a handle is invoked again by
  the request that follows a \<^verbatim>\<open>SetRuntime\<close> with a nil package pointer.
\<close>

theorem runtime_contract_counterexample:
  "runtime_times 2 (SetRuntime NewProgram (SupplierFunc (Some (\<lambda>u. None)))) =
     Inr (NewProgram\<lparr>rtget := Some (\<lambda>u. None), needRuntime := True, rtgetCalls := 2\<rparr>) \<and>
   run FuncAddCtx_leading [OpRuntime, OpSetRuntime (PackagePtr None), OpRuntime]
       (SetRuntime NewProgram (SupplierFunc (Some (\<lambda>u. Some example_runtime))),
        fst (NewPackage NewProgram ''a'' ''example.com/a'')) =
     Inr (NewProgram\<lparr>rt := Some example_runtime, rtget := Some (\<lambda>u. Some example_runtime),
                      needRuntime := True, rtgetCalls := 2\<rparr>,
          fst (NewPackage NewProgram ''a'' ''example.com/a''))"
  by (simp add: numeral_2_eq_2 runtime_def SetRuntime_def NewProgram_def progOnly_def)

text \<open>
  Claim C8. \<^verbatim>\<open>Program.python\<close> leaves \<open>needPyInit\<close> as it is. \<^verbatim>\<open>pyFunc\<close> sets it. Of the
  operations of a Program and its Package, those that declare or perform a foreign call
  (\<^verbatim>\<open>pyFunc\<close>, \<^verbatim>\<open>ImportPyMod\<close>, \<^verbatim>\<open>pyCall\<close>) leave it set, and every other operation leaves it as it
  was. In particular every \<^verbatim>\<open>pyCall\<close> and every \<^verbatim>\<open>ImportPyMod\<close> that returns leaves it set.
\<close>

theorem foreign_init_flag:
  "(python prog = Inr (h, prog1) \<longrightarrow> needPyInit prog1 = needPyInit prog) \<and>
   needPyInit (fst (snd (pyFunc prog p name sig))) \<and>
   (step addCtx x (prog, p) = Inr (prog', p') \<longrightarrow>
      (if isForeignOp x then needPyInit prog' else needPyInit prog' = needPyInit prog)) \<and>
   (pyCall prog p b fn args = Inr (r, prog2, p2) \<longrightarrow> needPyInit prog2) \<and>
   (ImportPyMod prog p b path = Inr (r', prog3, p3) \<longrightarrow> needPyInit prog3)"
proof -
  have a: "python prog = Inr (h, prog1) \<longrightarrow> needPyInit prog1 = needPyInit prog"
    using python_same_flags [of prog h prog1] by (simp add: same_flags_def)
  have b: "step addCtx x (prog, p) = Inr (prog', p') \<longrightarrow>
      (if isForeignOp x then needPyInit prog' else needPyInit prog' = needPyInit prog)"
    using step_step_ok [of addCtx x prog p prog' p'] by (simp add: step_ok_def)
  have c: "pyCall prog p b fn args = Inr (r, prog2, p2) \<longrightarrow> needPyInit prog2"
  proof
    assume e: "pyCall prog p b fn args = Inr (r, prog2, p2)"
    from pyCall_not_sig [OF e] obtain ps rs where "raw (Type fn) = Signature ps rs" by blast
    from pyCall_Inr [OF e this] show "needPyInit prog2" by simp
  qed
  have d: "ImportPyMod prog p b path = Inr (r', prog3, p3) \<longrightarrow> needPyInit prog3"
    using ImportPyMod_Inr [of prog p b path r' prog3 p3] by simp
  from a b c d pyFunc_flags(1) [of prog p name sig] show ?thesis by simp
qed

text \<open>
  The resolution of the foreign-interop package through a supplier, and a foreign call
  and an import in the example Package.
\<close>

theorem foreign_init_flag_witness:
  "python (SetPython NewProgram (SupplierFunc (Some (\<lambda>u. Some example_python)))) =
     Inr (Some example_python,
          NewProgram\<lparr>py := Some example_python, pyget := Some (\<lambda>u. Some example_python),
                       pygetCalls := 1\<rparr>) \<and>
   \<not> needPyInit (NewProgram\<lparr>py := Some example_python, pyget := Some (\<lambda>u. Some example_python),
                                pygetCalls := 1\<rparr>) \<and>
   needPyInit (fst (snd (pyFunc (fst (snd example_main)) (snd (snd example_main))
                           ''PyObject_CallNoArg'' ([], [])))) \<and>
   step FuncAddCtx_leading OpPython
       (SetPython NewProgram (SupplierFunc (Some (\<lambda>u. Some example_python))), snd (snd example_main)) =
     Inr (NewProgram\<lparr>py := Some example_python, pyget := Some (\<lambda>u. Some example_python),
                       pygetCalls := 1\<rparr>, snd (snd example_main)) \<and>
   succeeds (pyCall (snd (example_callee [])) (snd (snd example_main)) example_b
               (fst (example_callee [])) []) \<and>
   needPyInit (fst (snd (projr (pyCall (snd (example_callee [])) (snd (snd example_main)) example_b
                                  (fst (example_callee [])) [])))) \<and>
   succeeds (ImportPyMod (fst (snd example_main)) (snd (snd example_main)) example_b ''math'') \<and>
   needPyInit (fst (snd (projr (ImportPyMod (fst (snd example_main)) (snd (snd example_main))
                                  example_b ''math''))))"
proof -
  let ?ps = "SetPython NewProgram (SupplierFunc (Some (\<lambda>u. Some example_python)))"
  let ?p1 = "NewProgram\<lparr>py := Some example_python, pyget := Some (\<lambda>u. Some example_python),
                       pygetCalls := 1\<rparr>"
  let ?c = "pyCall (snd (example_callee [])) (snd (snd example_main)) example_b
               (fst (example_callee [])) []"
  let ?i = "ImportPyMod (fst (snd example_main)) (snd (snd example_main)) example_b ''math''"
  have py: "python ?ps = Inr (Some example_python, ?p1)"
    by (simp add: python_def SetPython_def NewProgram_def)
  have st: "step FuncAddCtx_leading OpPython (?ps, snd (snd example_main)) = Inr (?p1, snd (snd example_main))"
    by (simp add: py progOnly_def)
  have s: "succeeds ?c" by (simp add: example_defs eval_defs eval_py_defs)
  then have c: "?c = Inr (fst (projr ?c), fst (snd (projr ?c)), snd (snd (projr ?c)))"
    using succeeds_Inr by fastforce
  have s2: "succeeds ?i" by (simp add: example_defs eval_defs eval_py_defs)
  then have i: "?i = Inr (fst (projr ?i), fst (snd (projr ?i)), snd (snd (projr ?i)))"
    using succeeds_Inr by fastforce
  have a1: "needPyInit ?p1 = needPyInit ?ps"
    using foreign_init_flag [THEN conjunct1, of ?ps "Some example_python" ?p1] py by simp
  have a2: "needPyInit (fst (snd (pyFunc (fst (snd example_main)) (snd (snd example_main))
                           ''PyObject_CallNoArg'' ([], []))))"
    using foreign_init_flag [THEN conjunct2, THEN conjunct1] .
  have a3: "needPyInit ?p1 = needPyInit ?ps"
    using foreign_init_flag [THEN conjunct2, THEN conjunct2, THEN conjunct1,
       of FuncAddCtx_leading OpPython ?ps "snd (snd example_main)" ?p1 "snd (snd example_main)"] st
    by simp
  have a4: "needPyInit (fst (snd (projr ?c)))"
    using foreign_init_flag [THEN conjunct2, THEN conjunct2, THEN conjunct2, THEN conjunct1,
       of "snd (example_callee [])" "snd (snd example_main)" example_b "fst (example_callee [])" "[]"
          "fst (projr ?c)" "fst (snd (projr ?c))" "snd (snd (projr ?c))"] c
    by simp
  have a5: "needPyInit (fst (snd (projr ?i)))"
    using foreign_init_flag [THEN conjunct2, THEN conjunct2, THEN conjunct2, THEN conjunct2,
       of "fst (snd example_main)" "snd (snd example_main)" example_b "''math''"
          "fst (projr ?i)" "fst (snd (projr ?i))" "snd (snd (projr ?i))"] i
    by simp
  have n: "\<not> needPyInit ?ps" by (simp add: SetPython_def NewProgram_def)
  from py a1 n a2 st s a4 s2 a5 show ?thesis by simp
qed

text \<open>
  Claim C9, amended. When the requested mode is build and the patterns load exactly one
  root package, the effective mode is install; for any other number of root packages, or
  another requested mode, the mode stays as requested. \<^verbatim>\<open>needLLFile\<close> holds exactly in the
  modes other than build: in build mode no \<^verbatim>\<open>.ll\<close> file is written for any package, and in
  the other modes one is written for every package except the pseudo-package \<^verbatim>\<open>unsafe\<close>.
\<close>

theorem mode_promotion:
  assumes "load (if patterns = [] then [''.''] else patterns) = Inr initial"
    and "Do load visit compile patterns conf = Inr (mode, fs, linked)"
  shows "mode = (if Mode conf = ModeBuild \<and> length initial = 1 then ModeInstall else Mode conf) \<and>
         needLLFile mode = (mode \<noteq> ModeBuild) \<and>
         map fst fs =
           (if mode = ModeBuild then []
            else map (\<lambda>pkg. ExportFile pkg @ ''.ll'')
                     (filter (\<lambda>pkg. PkgPath pkg \<noteq> ''unsafe'') (visit initial)))"
proof -
  let ?m = "if Mode conf = ModeBuild \<and> length initial = 1 then ModeInstall else Mode conf"
  from assms have m: "mode = ?m" and b: "buildPkgs compile (visit initial) ?m [] = Inr fs"
    by (auto simp: Do_def Let_def split: sum.splits)
  show ?thesis
  proof (cases "mode = ModeBuild")
    case True
    with m b have "fs = []" using buildPkgs_ModeBuild [of compile "visit initial" "[]" fs] by simp
    with m True show ?thesis by (simp add: needLLFile_def)
  next
    case False
    with m b have "map fst fs = map (\<lambda>pkg. ExportFile pkg @ ''.ll'')
                     (filter (\<lambda>pkg. PkgPath pkg \<noteq> ''unsafe'') (visit initial))"
      using buildPkgs_paths [of mode compile "visit initial" "[]" fs] by simp
    with m False show ?thesis by (simp add: needLLFile_def)
  qed
qed

text \<open>A build of the current directory, which loads one root package with two imports.\<close>

theorem mode_promotion_witness:
  "Do (\<lambda>ps. Inr (take 1 example_pkgs)) (\<lambda>initial. example_pkgs) (\<lambda>pkg. Inr (PkgPath pkg))
      [''.''] example_conf =
     Inr (ModeInstall,
          [(''/cache/a.ll'', ''example.com/a''), (''/cache/b.ll'', ''example.com/a/b'')],
          take 1 example_pkgs) \<and>
   ModeInstall = (if Mode example_conf = ModeBuild \<and> length (take 1 example_pkgs) = 1
                  then ModeInstall else Mode example_conf) \<and>
   map fst [(''/cache/a.ll'', ''example.com/a''), (''/cache/b.ll'', ''example.com/a/b'')] =
     map (\<lambda>pkg. ExportFile pkg @ ''.ll'')
         (filter (\<lambda>pkg. PkgPath pkg \<noteq> ''unsafe'') example_pkgs)"
proof -
  have d: "Do (\<lambda>ps. Inr (take 1 example_pkgs)) (\<lambda>initial. example_pkgs) (\<lambda>pkg. Inr (PkgPath pkg))
      [''.''] example_conf =
     Inr (ModeInstall,
          [(''/cache/a.ll'', ''example.com/a''), (''/cache/b.ll'', ''example.com/a/b'')],
          take 1 example_pkgs)"
    by (simp add: Do_def example_pkgs_def example_conf_def buildPkg_def needLLFile_def)
  have l: "(\<lambda>ps. Inr (take 1 example_pkgs)) (if [''.''] = [] then [''.''] else [''.'']) =
           (Inr (take 1 example_pkgs) :: string + packages_Package list)"
    by simp
  from mode_promotion [OF l d] d show ?thesis by simp
qed

text \<open>
  Claim C9 as stated fails. One requested pattern (\<^verbatim>\<open>./...\<close>) that loads two root packages
  leaves the mode at build, with no file written and nothing linked; and in install mode
  the emission of the \<^verbatim>\<open>.ll\<close> file is skipped for the package \<^verbatim>\<open>unsafe\<close>.
\<close>

theorem mode_promotion_counterexample:
  "Do (\<lambda>ps. Inr (take 2 example_pkgs)) (\<lambda>initial. example_pkgs) (\<lambda>pkg. Inr (PkgPath pkg))
      [''./...''] example_conf = Inr (ModeBuild, [], []) \<and>
   buildPkg (\<lambda>pkg. Inr (PkgPath pkg)) (example_pkgs ! 2) ModeInstall [] = Inr []"
  by (simp add: Do_def example_pkgs_def example_conf_def buildPkg_def needLLFile_def)

text \<open>
  Claim C10. For an argument whose dynamic type is neither \<^verbatim>\<open>*types.Package\<close> nor
  \<^verbatim>\<open>func() *types.Package\<close>, \<^verbatim>\<open>SetRuntime\<close> and \<^verbatim>\<open>SetPython\<close> return with the Program unchanged;
  they have no error result.
\<close>

theorem SetRuntime_SetPython_other:
  "\<not> isPackagePtr a \<Longrightarrow> \<not> isSupplierFunc a \<Longrightarrow> SetRuntime p a = p \<and> SetPython p a = p"
  by (cases a) (simp_all add: isPackagePtr_def isSupplierFunc_def SetRuntime_def SetPython_def)

text \<open>A value of type \<^verbatim>\<open>int\<close> and the nil interface.\<close>

theorem SetRuntime_SetPython_other_witness:
  "\<not> isPackagePtr (OtherValue ''int'') \<and> \<not> isSupplierFunc (OtherValue ''int'') \<and>
   SetRuntime NewProgram (OtherValue ''int'') = NewProgram \<and>
   SetPython NewProgram (OtherValue ''int'') = NewProgram \<and>
   SetRuntime NewProgram NilInterface = NewProgram \<and>
   SetPython NewProgram NilInterface = NewProgram"
  using SetRuntime_SetPython_other [of "OtherValue ''int''" NewProgram]
        SetRuntime_SetPython_other [of NilInterface NewProgram]
  by (simp add: isPackagePtr_def isSupplierFunc_def)

end
